(* ===== verification/Prelude.thy ===== *)
theory Prelude
  imports Complex_Main "HOL-Library.AList"
begin

text \<open>
  Shared vocabulary of the development: the Python values the program passes around
  (JSON-shaped data plus opaque objects), insertion-ordered dictionaries, truthiness,
  equality and ordering, text operations, rendering of values as text, results that may
  be exceptions, and the lemmas on them that the component theories use.

  Text is a list of characters; characters are the code points below 256, and every text
  operation used by the program (search, split, slice, concatenation) acts on characters
  one by one.  Floats are the finite ones, as the rationals they denote; the way the
  interpreter prints a float and the attributes of values that are not containers are the
  fields of \<open>pyrt\<close>, an argument of the definitions that need them.
\<close>

named_theorems dict_simps \<open>lookups and updates of dictionaries\<close>
named_theorems result_simps \<open>results that may be exceptions\<close>

section \<open>Values\<close>

datatype pyval =
    PNone
  | PBool bool
  | PInt int
  | PFloat rat
  | PStr string
  | PList "pyval list"
  | PDict "(string \<times> pyval) list"
  | PObj string

type_synonym pydict = "(string \<times> pyval) list"

record pyrt =
  rt_getattr :: "pyval \<Rightarrow> string \<Rightarrow> pyval"
  rt_float_str :: "rat \<Rightarrow> string"

lemma pydict_value_size [termination_simp]:
  "(k, v) \<in> set d \<Longrightarrow> size v < Suc (size_list (size_prod (\<lambda>_. 0) size) d)"
  by (induction d) auto

lemma pydict_snd_size [termination_simp]:
  "p \<in> set d \<Longrightarrow> size (snd p) < Suc (size_list (size_prod (\<lambda>_. 0) size) d)"
  by (induction d) auto

lemma pylist_nth_size [termination_simp]:
  "i < length xs \<Longrightarrow> size (xs ! i) < Suc (size_list size xs)"
proof (induction xs arbitrary: i)
  case Nil
  then show ?case by simp
next
  case (Cons x xs)
  show ?case
  proof (cases i)
    case 0
    then show ?thesis by simp
  next
    case (Suc j)
    with Cons.prems Cons.IH [of j] have "size (xs ! j) < Suc (size_list size xs)" by simp
    with Suc show ?thesis by simp
  qed
qed

fun is_list :: "pyval \<Rightarrow> bool" where
  "is_list (PList _) = True"
| "is_list _ = False"

fun is_dict :: "pyval \<Rightarrow> bool" where
  "is_dict (PDict _) = True"
| "is_dict _ = False"

fun is_str :: "pyval \<Rightarrow> bool" where
  "is_str (PStr _) = True"
| "is_str _ = False"

fun is_bool :: "pyval \<Rightarrow> bool" where
  "is_bool (PBool _) = True"
| "is_bool _ = False"

text \<open>\<open>isinstance(v, int)\<close> is true of booleans as well.\<close>

fun is_int :: "pyval \<Rightarrow> bool" where
  "is_int (PInt _) = True"
| "is_int (PBool _) = True"
| "is_int _ = False"

fun is_float :: "pyval \<Rightarrow> bool" where
  "is_float (PFloat _) = True"
| "is_float _ = False"

text \<open>\<open>bool(v)\<close>.\<close>

fun truthy :: "pyval \<Rightarrow> bool" where
  "truthy PNone = False"
| "truthy (PBool b) = b"
| "truthy (PInt i) = (i \<noteq> 0)"
| "truthy (PFloat r) = (r \<noteq> 0)"
| "truthy (PStr s) = (s \<noteq> [])"
| "truthy (PList xs) = (xs \<noteq> [])"
| "truthy (PDict d) = (d \<noteq> [])"
| "truthy (PObj _) = True"

text \<open>\<open>a or b\<close>.\<close>

definition py_or :: "pyval \<Rightarrow> pyval \<Rightarrow> pyval" where
  "py_or a b = (if truthy a then a else b)"

text \<open>\<open>type(v).__name__\<close>.\<close>

fun type_name :: "pyval \<Rightarrow> string" where
  "type_name PNone = ''NoneType''"
| "type_name (PBool _) = ''bool''"
| "type_name (PInt _) = ''int''"
| "type_name (PFloat _) = ''float''"
| "type_name (PStr _) = ''str''"
| "type_name (PList _) = ''list''"
| "type_name (PDict _) = ''dict''"
| "type_name (PObj _) = ''object''"

lemma is_list_iff [simp]: "is_list v \<longleftrightarrow> (\<exists>xs. v = PList xs)"
  by (cases v) auto

lemma is_dict_iff [simp]: "is_dict v \<longleftrightarrow> (\<exists>d. v = PDict d)"
  by (cases v) auto

lemma is_str_iff [simp]: "is_str v \<longleftrightarrow> (\<exists>s. v = PStr s)"
  by (cases v) auto

lemma map_PDict_eq [simp]: "map PDict xs = map PDict ys \<longleftrightarrow> xs = ys"
  by (simp add: inj_def inj_map_eq_map)

section \<open>Dictionaries\<close>

text \<open>
  A dictionary keeps the order in which its keys were first inserted: an association list.
  \<open>d.get(k)\<close>, \<open>d[k] = v\<close>, \<open>d.update(e)\<close> and \<open>d.pop(k, None)\<close>.
\<close>

definition dget :: "pydict \<Rightarrow> string \<Rightarrow> pyval" where
  "dget d k = (case map_of d k of None \<Rightarrow> PNone | Some v \<Rightarrow> v)"

definition dget_or :: "pydict \<Rightarrow> string \<Rightarrow> pyval \<Rightarrow> pyval" where
  "dget_or d k v0 = (case map_of d k of None \<Rightarrow> v0 | Some v \<Rightarrow> v)"

definition dhas :: "('k \<times> 'v) list \<Rightarrow> 'k \<Rightarrow> bool" where
  "dhas d k = (map_of d k \<noteq> None)"

abbreviation dset :: "('k \<times> 'v) list \<Rightarrow> 'k \<Rightarrow> 'v \<Rightarrow> ('k \<times> 'v) list" where
  "dset d k v \<equiv> AList.update k v d"

fun dupdate :: "('k \<times> 'v) list \<Rightarrow> ('k \<times> 'v) list \<Rightarrow> ('k \<times> 'v) list" where
  "dupdate d [] = d"
| "dupdate d ((k, v) # e) = dupdate (dset d k v) e"

definition dkeys :: "('k \<times> 'v) list \<Rightarrow> 'k list" where
  "dkeys d = map fst d"

definition dpop :: "('k \<times> 'v) list \<Rightarrow> 'k \<Rightarrow> ('k \<times> 'v) list" where
  "dpop d k = filter (\<lambda>p. fst p \<noteq> k) d"

lemma dset_conv [dict_simps, simp]: "map_of (dset d k v) = (map_of d)(k \<mapsto> v)"
  by (simp add: update_conv')

lemma dget_dset [dict_simps, simp]: "dget (dset d k v) k' = (if k' = k then v else dget d k')"
  by (simp add: dget_def)

lemma dhas_dset [dict_simps, simp]: "dhas (dset d k v) k' \<longleftrightarrow> k' = k \<or> dhas d k'"
  by (simp add: dhas_def)

lemma dhas_iff_fst: "dhas d k \<longleftrightarrow> k \<in> fst ` set d"
  by (simp add: dhas_def map_of_eq_None_iff)

lemma dupdate_conv [dict_simps]:
  "distinct (map fst e) \<Longrightarrow> map_of (dupdate d e) = map_of d ++ map_of e"
proof (induction d e rule: dupdate.induct)
  case (1 d)
  then show ?case by simp
next
  case (2 d k v e)
  then have "k \<notin> dom (map_of e)" by (simp add: dom_map_of_conv_image_fst)
  with 2 show ?case by (auto simp: fun_eq_iff map_add_def split: option.splits)
qed

lemma dupdate_keys: "fst ` set (dupdate d e) = fst ` set d \<union> fst ` set e"
  by (induction d e rule: dupdate.induct) (auto simp: dom_update)

lemma dupdate_distinct: "distinct (map fst d) \<Longrightarrow> distinct (map fst (dupdate d e))"
  by (induction d e rule: dupdate.induct) (auto intro: distinct_update)

lemma dupdate_append: "dupdate d (e @ f) = dupdate (dupdate d e) f"
  by (induction d e rule: dupdate.induct) auto

lemma dpop_conv [dict_simps]: "map_of (dpop d k) = (map_of d)(k := None)"
  unfolding dpop_def by (induction d) (auto simp: fun_eq_iff)

lemma dpop_distinct: "distinct (map fst d) \<Longrightarrow> distinct (map fst (dpop d k))"
  unfolding dpop_def by (induction d) auto

section \<open>Equality, ordering and membership\<close>

text \<open>
  \<open>num_of\<close> reads a number (booleans are 0 and 1).  \<open>py_eq\<close> is \<open>==\<close>: numbers by value,
  lists item by item, dictionaries without regard to order.
\<close>

fun num_of :: "pyval \<Rightarrow> rat option" where
  "num_of (PBool b) = Some (if b then 1 else 0)"
| "num_of (PInt i) = Some (of_int i)"
| "num_of (PFloat r) = Some r"
| "num_of _ = None"

fun py_eq :: "pyval \<Rightarrow> pyval \<Rightarrow> bool" where
  "py_eq (PStr s) (PStr t) = (s = t)"
| "py_eq (PObj s) (PObj t) = (s = t)"
| "py_eq PNone PNone = True"
| "py_eq (PList xs) (PList ys) =
     (length xs = length ys \<and> (\<forall>i \<in> set [0..<length xs]. py_eq (xs ! i) (ys ! i)))"
| "py_eq (PDict d) (PDict e) =
     (length d = length e \<and>
      (\<forall>p \<in> set d. case map_of e (fst p) of None \<Rightarrow> False | Some w \<Rightarrow> py_eq (snd p) w))"
| "py_eq a b = (case (num_of a, num_of b) of (Some x, Some y) \<Rightarrow> x = y | _ \<Rightarrow> False)"

text \<open>
  \<open>a < b\<close>; \<open>None\<close> is the \<open>TypeError\<close> of operands that are not ordered.  Lists compare at
  the first position where the items are not equal.
\<close>

fun str_less :: "string \<Rightarrow> string \<Rightarrow> bool" where
  "str_less [] [] = False"
| "str_less [] (_ # _) = True"
| "str_less (_ # _) [] = False"
| "str_less (a # s) (b # t) =
     (if a = b then str_less s t else (of_char a :: nat) < of_char b)"

fun py_less :: "pyval \<Rightarrow> pyval \<Rightarrow> bool option" where
  "py_less (PStr s) (PStr t) = Some (str_less s t)"
| "py_less (PList []) (PList []) = Some False"
| "py_less (PList []) (PList (_ # _)) = Some True"
| "py_less (PList (_ # _)) (PList []) = Some False"
| "py_less (PList (x # xs)) (PList (y # ys)) =
     (if py_eq x y then py_less (PList xs) (PList ys) else py_less x y)"
| "py_less a b =
     (case (num_of a, num_of b) of (Some x, Some y) \<Rightarrow> Some (x < y) | _ \<Rightarrow> None)"

fun py_less_eq :: "pyval \<Rightarrow> pyval \<Rightarrow> bool option" where
  "py_less_eq (PStr s) (PStr t) = Some (s = t \<or> str_less s t)"
| "py_less_eq (PList []) (PList _) = Some True"
| "py_less_eq (PList (_ # _)) (PList []) = Some False"
| "py_less_eq (PList (x # xs)) (PList (y # ys)) =
     (if py_eq x y then py_less_eq (PList xs) (PList ys) else py_less_eq x y)"
| "py_less_eq a b =
     (case (num_of a, num_of b) of (Some x, Some y) \<Rightarrow> Some (x \<le> y) | _ \<Rightarrow> None)"

section \<open>Text\<close>

definition startswith :: "string \<Rightarrow> string \<Rightarrow> bool" where
  "startswith s p = (take (length p) s = p)"

definition endswith :: "string \<Rightarrow> string \<Rightarrow> bool" where
  "endswith s p = (length p \<le> length s \<and> drop (length s - length p) s = p)"

text \<open>\<open>s.find(c)\<close> for one character, and for a text; \<open>None\<close> is -1.\<close>

fun find_char :: "char \<Rightarrow> string \<Rightarrow> nat option" where
  "find_char c [] = None"
| "find_char c (x # s) = (if x = c then Some 0 else map_option Suc (find_char c s))"

fun find_sub :: "string \<Rightarrow> string \<Rightarrow> nat option" where
  "find_sub p [] = (if p = [] then Some 0 else None)"
| "find_sub p (x # s) =
     (if startswith (x # s) p then Some 0 else map_option Suc (find_sub p s))"

fun split_on :: "char \<Rightarrow> string \<Rightarrow> string list" where
  "split_on c [] = [[]]"
| "split_on c (x # s) =
     (if x = c then [] # split_on c s
      else (case split_on c s of [] \<Rightarrow> [[x]] | w # ws \<Rightarrow> (x # w) # ws))"

fun join_with :: "string \<Rightarrow> string list \<Rightarrow> string" where
  "join_with sep [] = []"
| "join_with sep [w] = w"
| "join_with sep (w # v # ws) = w @ sep @ join_with sep (v # ws)"

text \<open>
  \<open>s.replace(p, r)\<close> for a non-empty \<open>p\<close>: leftmost occurrences, without overlap; the
  counter skips what remains of a replaced occurrence.
\<close>

fun replace_go :: "string \<Rightarrow> string \<Rightarrow> nat \<Rightarrow> string \<Rightarrow> string" where
  "replace_go p r n [] = []"
| "replace_go p r (Suc n) (x # s) = replace_go p r n s"
| "replace_go p r 0 (x # s) =
     (if startswith (x # s) p then r @ replace_go p r (length p - 1) s
      else x # replace_go p r 0 s)"

definition str_replace :: "string \<Rightarrow> string \<Rightarrow> string \<Rightarrow> string" where
  "str_replace p r s = replace_go p r 0 s"

definition is_space :: "char \<Rightarrow> bool" where
  "is_space c = ((of_char c :: nat) \<in> {9, 10, 11, 12, 13, 28, 29, 30, 31, 32, 133, 160})"

definition str_strip :: "string \<Rightarrow> string" where
  "str_strip s = rev (dropWhile is_space (rev (dropWhile is_space s)))"

definition lower_char :: "char \<Rightarrow> char" where
  "lower_char c =
     (let n = (of_char c :: nat)
      in if (65 \<le> n \<and> n \<le> 90) \<or> (192 \<le> n \<and> n \<le> 222 \<and> n \<noteq> 215) then char_of (n + 32) else c)"

definition str_lower :: "string \<Rightarrow> string" where
  "str_lower s = map lower_char s"

lemma split_on_not_Nil [simp]: "split_on c s \<noteq> []"
  by (induction s) (auto split: list.splits)

lemma join_split_on: "join_with [c] (split_on c s) = s"
proof (induction s)
  case Nil
  then show ?case by simp
next
  case (Cons x s)
  obtain w ws where w: "split_on c s = w # ws"
    by (cases "split_on c s") auto
  with Cons show ?case by (cases ws) auto
qed

lemma split_on_no_sep: "c \<notin> set s \<Longrightarrow> split_on c s = [s]"
  by (induction s) auto

lemma split_on_prefix: "c \<notin> set w \<Longrightarrow> split_on c (w @ c # s) = w # split_on c s"
  by (induction w) auto

lemma split_on_join:
  "ws \<noteq> [] \<Longrightarrow> \<forall>w \<in> set ws. c \<notin> set w \<Longrightarrow> split_on c (join_with [c] ws) = ws"
  by (induction "[c]" ws rule: join_with.induct) (auto simp: split_on_no_sep split_on_prefix)

lemma split_on_parts: "w \<in> set (split_on c s) \<Longrightarrow> c \<notin> set w"
  by (induction s arbitrary: w) (auto split: if_splits list.splits)

lemma find_char_Some_less: "find_char c s = Some n \<Longrightarrow> n < length s"
  by (induction s arbitrary: n) (auto split: if_splits)

lemma find_char_Some_nth: "find_char c s = Some n \<Longrightarrow> s ! n = c"
  by (induction s arbitrary: n) (auto split: if_splits)

lemma find_char_Some_take: "find_char c s = Some n \<Longrightarrow> c \<notin> set (take n s)"
  by (induction s arbitrary: n) (auto split: if_splits)

lemma find_char_None_iff: "find_char c s = None \<longleftrightarrow> c \<notin> set s"
  by (induction s) auto

lemma find_char_append: "c \<notin> set w \<Longrightarrow> find_char c (w @ c # s) = Some (length w)"
  by (induction w) auto

section \<open>Rendering values\<close>

definition digit_char :: "nat \<Rightarrow> char" where
  "digit_char n = (if n < 10 then char_of (48 + n) else char_of (87 + n))"

fun nat_str :: "nat \<Rightarrow> string" where
  "nat_str n = (if n < 10 then [digit_char n] else nat_str (n div 10) @ [digit_char (n mod 10)])"

declare nat_str.simps [simp del]

definition int_str :: "int \<Rightarrow> string" where
  "int_str i = (if i < 0 then CHR ''-'' # nat_str (nat (- i)) else nat_str (nat i))"

definition hex2 :: "nat \<Rightarrow> string" where
  "hex2 n = [digit_char (n div 16), digit_char (n mod 16)]"

definition backslash :: char where
  "backslash = CHR 0x5C"

text \<open>
  A character of HOL is eight bits wide.  The dash (U+2014), the ellipsis (U+2026) and the arrow
  (U+2192) of messages are one character each: 0x97 and 0x85, their places in code page 1252,
  and 0x1A, its place in code page 437.
\<close>

definition em_dash :: string where "em_dash = [CHR 0x97]"

definition ellipsis :: string where "ellipsis = [CHR 0x85]"

definition right_arrow :: string where "right_arrow = [CHR 0x1A]"

text \<open>
  \<open>repr\<close> of a text: double quotes only when the text has a single quote and no double
  quote; the quote and the backslash escaped, and what is not printable as an escape.
\<close>

definition repr_char :: "char \<Rightarrow> char \<Rightarrow> string" where
  "repr_char q c =
     (let n = (of_char c :: nat)
      in if c = q \<or> c = backslash then [backslash, c]
         else if n = 10 then [backslash, CHR ''n'']
         else if n = 13 then [backslash, CHR ''r'']
         else if n = 9 then [backslash, CHR ''t'']
         else if n < 32 \<or> (127 \<le> n \<and> n \<le> 160) \<or> n = 173 then backslash # CHR ''x'' # hex2 n
         else [c])"

definition str_repr :: "string \<Rightarrow> string" where
  "str_repr s =
     (let q = (if CHR 0x27 \<in> set s \<and> CHR 0x22 \<notin> set s then CHR 0x22 else CHR 0x27)
      in q # concat (map (repr_char q) s) @ [q])"

fun py_repr :: "pyrt \<Rightarrow> pyval \<Rightarrow> string" where
  "py_repr rt PNone = ''None''"
| "py_repr rt (PBool b) = (if b then ''True'' else ''False'')"
| "py_repr rt (PInt i) = int_str i"
| "py_repr rt (PFloat r) = rt_float_str rt r"
| "py_repr rt (PStr s) = str_repr s"
| "py_repr rt (PList xs) = ''['' @ join_with '', '' (map (py_repr rt) xs) @ '']''"
| "py_repr rt (PDict d) =
     ''{'' @ join_with '', '' (map (\<lambda>p. str_repr (fst p) @ '': '' @ py_repr rt (snd p)) d) @ ''}''"
| "py_repr rt (PObj s) = s"

fun py_str :: "pyrt \<Rightarrow> pyval \<Rightarrow> string" where
  "py_str rt (PStr s) = s"
| "py_str rt v = py_repr rt v"

text \<open>
  \<open>json.dumps(v, default=str)\<close>, with \<open>ensure_ascii\<close> as an argument.
\<close>

definition json_char :: "bool \<Rightarrow> char \<Rightarrow> string" where
  "json_char ascii c =
     (let n = (of_char c :: nat)
      in if n = 34 \<or> n = 92 then [backslash, c]
         else if n = 10 then [backslash, CHR ''n'']
         else if n = 13 then [backslash, CHR ''r'']
         else if n = 9 then [backslash, CHR ''t'']
         else if n = 12 then [backslash, CHR ''f'']
         else if n = 8 then [backslash, CHR ''b'']
         else if n < 32 \<or> (ascii \<and> 127 \<le> n) then backslash # CHR ''u'' # ''00'' @ hex2 n
         else [c])"

definition json_str :: "bool \<Rightarrow> string \<Rightarrow> string" where
  "json_str ascii s = CHR 0x22 # concat (map (json_char ascii) s) @ [CHR 0x22]"

fun json_text :: "pyrt \<Rightarrow> bool \<Rightarrow> string \<Rightarrow> string \<Rightarrow> pyval \<Rightarrow> string" where
  "json_text rt ascii isep ksep PNone = ''null''"
| "json_text rt ascii isep ksep (PBool b) = (if b then ''true'' else ''false'')"
| "json_text rt ascii isep ksep (PInt i) = int_str i"
| "json_text rt ascii isep ksep (PFloat r) = rt_float_str rt r"
| "json_text rt ascii isep ksep (PStr s) = json_str ascii s"
| "json_text rt ascii isep ksep (PList xs) =
     ''['' @ join_with isep (map (json_text rt ascii isep ksep) xs) @ '']''"
| "json_text rt ascii isep ksep (PDict d) =
     ''{'' @ join_with isep
       (map (\<lambda>p. json_str ascii (fst p) @ ksep @ json_text rt ascii isep ksep (snd p)) d) @ ''}''"
| "json_text rt ascii isep ksep (PObj s) = json_str ascii s"

definition json_dumps :: "pyrt \<Rightarrow> bool \<Rightarrow> pyval \<Rightarrow> string" where
  "json_dumps rt ascii v = json_text rt ascii '', '' '': '' v"

text \<open>\<open>sort_keys=True\<close>: the items of every dictionary in the order of their keys.\<close>

fun insert_item :: "string \<times> pyval \<Rightarrow> pydict \<Rightarrow> pydict" where
  "insert_item p [] = [p]"
| "insert_item p (q # d) = (if str_less (fst q) (fst p) then q # insert_item p d else p # q # d)"

fun sort_keys :: "pyval \<Rightarrow> pyval" where
  "sort_keys (PList xs) = PList (map sort_keys xs)"
| "sort_keys (PDict d) = PDict (foldr insert_item (map (\<lambda>p. (fst p, sort_keys (snd p))) d) [])"
| "sort_keys v = v"

definition json_canonical :: "pyrt \<Rightarrow> pyval \<Rightarrow> string" where
  "json_canonical rt v = json_text rt True '','' '':'' (sort_keys v)"

text \<open>
  What is left of a value after \<open>json.loads(json.dumps(v, default=str))\<close>: objects have
  become their text.  Texts that the program stores and reads back through \<open>json\<close> are
  represented by the value they encode; \<open>BadJson\<close> is a text that does not decode.
\<close>

fun json_image :: "pyval \<Rightarrow> pyval" where
  "json_image (PList xs) = PList (map json_image xs)"
| "json_image (PDict d) = PDict (map (\<lambda>p. (fst p, json_image (snd p))) d)"
| "json_image (PObj s) = PStr s"
| "json_image v = v"

datatype jtext = Json pyval | BadJson string

fun json_loads :: "jtext \<Rightarrow> pyval option" where
  "json_loads (Json v) = Some v"
| "json_loads (BadJson _) = None"

lemma json_image_idem [simp]: "json_image (json_image v) = json_image v"
  by (induction v rule: json_image.induct) auto

lemma json_image_dict [simp]: "is_dict (json_image v) = is_dict v"
  by (cases v) auto

section \<open>Results that may be exceptions\<close>

abbreviation Raise :: "'e \<Rightarrow> 'e + 'a" where "Raise \<equiv> Inl"
abbreviation Return :: "'a \<Rightarrow> 'e + 'a" where "Return \<equiv> Inr"

definition bindR :: "'e + 'a \<Rightarrow> ('a \<Rightarrow> 'e + 'b) \<Rightarrow> 'e + 'b" where
  "bindR m f = (case m of Inl e \<Rightarrow> Inl e | Inr x \<Rightarrow> f x)"

fun mapR :: "('a \<Rightarrow> 'e + 'b) \<Rightarrow> 'a list \<Rightarrow> 'e + 'b list" where
  "mapR f [] = Inr []"
| "mapR f (x # xs) =
     (case f x of Inl e \<Rightarrow> Inl e
      | Inr y \<Rightarrow> (case mapR f xs of Inl e \<Rightarrow> Inl e | Inr ys \<Rightarrow> Inr (y # ys)))"

lemma bindR_simps [result_simps, simp]:
  "bindR (Inl e) f = Inl e"
  "bindR (Inr x) f = f x"
  by (simp_all add: bindR_def)

lemma bindR_Return_iff [result_simps]:
  "bindR m f = Inr y \<longleftrightarrow> (\<exists>x. m = Inr x \<and> f x = Inr y)"
  by (cases m) auto

lemma bindR_Raise_iff [result_simps]:
  "bindR m f = Inl e \<longleftrightarrow> m = Inl e \<or> (\<exists>x. m = Inr x \<and> f x = Inl e)"
  by (cases m) auto

lemma mapR_length: "mapR f xs = Inr ys \<Longrightarrow> length ys = length xs"
  by (induction xs arbitrary: ys) (auto split: sum.splits)

lemma mapR_nth: "mapR f xs = Inr ys \<Longrightarrow> i < length xs \<Longrightarrow> f (xs ! i) = Inr (ys ! i)"
  by (induction xs arbitrary: ys i) (auto simp: nth_Cons' split: sum.splits)

end
