(* ===== verification/TemplatePaths.thy ===== *)
theory TemplatePaths
  imports Prelude
begin

text \<open>
  Path resolution (luna_core/engine/template_paths.py): splitting a dotted path with
  \<open>[*]\<close> markers into segments, and walking the segments over a value.

  The loop of \<open>tokenize_path\<close> makes no progress on a chunk whose rest starts with an
  opening bracket that does not open \<open>[*]\<close>, so the tokenizer is a partial function:
  \<open>None\<close> is a call that does not return.
\<close>

abbreviation star :: string where
  "star \<equiv> ''[*]''"

section \<open>Tokenizer\<close>

partial_function (option) tokenize_chunk :: "string \<Rightarrow> string list \<Rightarrow> string list option" where
  "tokenize_chunk cursor segments =
     (if cursor = [] then Some segments
      else if startswith cursor star then tokenize_chunk (drop 3 cursor) (segments @ [star])
      else (case find_char (CHR ''['') cursor of
              None \<Rightarrow> tokenize_chunk [] (segments @ [cursor])
            | Some bracket \<Rightarrow>
                tokenize_chunk (drop bracket cursor)
                  (if bracket > 0 then segments @ [take bracket cursor] else segments)))"

fun tokenize_chunks :: "string list \<Rightarrow> string list \<Rightarrow> string list option" where
  "tokenize_chunks [] segments = Some segments"
| "tokenize_chunks (chunk # chunks) segments =
     Option.bind (tokenize_chunk chunk segments) (tokenize_chunks chunks)"

definition tokenize_path :: "string \<Rightarrow> string list option" where
  "tokenize_path path = tokenize_chunks (split_on (CHR ''.'') path) []"

section \<open>Walker\<close>

fun walk :: "pyrt \<Rightarrow> pyval \<Rightarrow> string list \<Rightarrow> pyval" where
  "walk rt cursor [] = cursor"
| "walk rt cursor (seg # rest) =
     (if cursor = PNone then PNone
      else if seg = star then
        (case cursor of
           PList xs \<Rightarrow>
             if rest = [] then cursor else PList (map (\<lambda>item. walk rt item rest) xs)
         | _ \<Rightarrow> PNone)
      else (case cursor of
              PDict d \<Rightarrow> walk rt (dget d seg) rest
            | PList _ \<Rightarrow> PNone
            | _ \<Rightarrow> walk rt (rt_getattr rt cursor seg) rest))"

definition resolve_path :: "pyrt \<Rightarrow> pyval \<Rightarrow> string \<Rightarrow> pyval option" where
  "resolve_path rt state path =
     (if path = [] then Some state
      else map_option (walk rt state) (tokenize_path path))"

section \<open>When the tokenizer returns\<close>

text \<open>
  A chunk is well bracketed when each of its opening brackets opens a \<open>[*]\<close>.
\<close>

fun well_bracketed :: "string \<Rightarrow> bool" where
  "well_bracketed [] = True"
| "well_bracketed (c # s) =
     ((c = CHR ''['' \<longrightarrow> startswith (c # s) star) \<and> well_bracketed s)"

lemma well_bracketed_drop: "well_bracketed s \<Longrightarrow> well_bracketed (drop n s)"
  by (induction s arbitrary: n) (auto simp: drop_Cons')

lemma well_bracketed_append:
  "CHR ''['' \<notin> set s \<Longrightarrow> well_bracketed t \<Longrightarrow> well_bracketed (s @ t)"
  by (induction s) auto

lemma well_bracketed_no_bracket: "CHR ''['' \<notin> set s \<Longrightarrow> well_bracketed s"
  using well_bracketed_append [of s "[]"] by simp

lemma startswith_star_iff: "startswith s star \<longleftrightarrow> (\<exists>t. s = star @ t)"
  by (auto simp: startswith_def) (metis append_Cons append_Nil append_take_drop_id)

lemma well_bracketed_star [simp]: "well_bracketed (star @ t) = well_bracketed t"
  by (simp add: startswith_def)

lemma well_bracketed_hd:
  "well_bracketed s \<Longrightarrow> find_char (CHR ''['') s = Some 0 \<Longrightarrow> startswith s star"
  by (cases s) (auto split: if_splits)

lemma well_bracketed_find:
  assumes "find_char (CHR ''['') s = Some n" and "well_bracketed (drop n s)"
  shows "well_bracketed s"
  using well_bracketed_append [OF find_char_Some_take [OF assms(1)] assms(2)] by simp

lemma tokenize_chunk_returns:
  assumes "well_bracketed cursor"
  shows "\<exists>segs. tokenize_chunk cursor segments = Some (segments @ segs)"
  using assms
proof (induction "length cursor" arbitrary: cursor segments rule: less_induct)
  case less
  note IH = less.hyps and wb = less.prems
  show ?case
  proof (cases "cursor = [] \<or> startswith cursor star")
    case True
    then show ?thesis
      using IH [of "drop 3 cursor" "segments @ [star]"] well_bracketed_drop [OF wb, of 3]
      by (subst tokenize_chunk.simps) auto
  next
    case False
    show ?thesis
    proof (cases "find_char (CHR ''['') cursor")
      case None
      then show ?thesis using False
        by (subst tokenize_chunk.simps) (simp add: tokenize_chunk.simps [of "[]"])
    next
      case (Some n)
      with False well_bracketed_hd [OF wb] have n: "n > 0" by (cases n) auto
      moreover have "n < length cursor" using Some by (rule find_char_Some_less)
      ultimately have "\<exists>segs. tokenize_chunk (drop n cursor) (segments @ [take n cursor])
           = Some ((segments @ [take n cursor]) @ segs)"
        by (intro IH well_bracketed_drop [OF wb]) simp
      with False Some n show ?thesis by (subst tokenize_chunk.simps) auto
    qed
  qed
qed

lemma tokenize_chunk_returned:
  assumes "tokenize_chunk cursor segments = Some r"
  shows "well_bracketed cursor"
proof (rule tokenize_chunk.raw_induct [where P = "\<lambda>c segs r. well_bracketed c", OF _ assms])
  fix f c segs r
  assume IH: "\<And>c segs r. f c segs = Some r \<Longrightarrow> well_bracketed c"
    and eq: "(if c = [] then Some segs
      else if startswith c star then f (drop 3 c) (segs @ [star])
      else case find_char (CHR ''['') c of
             None \<Rightarrow> f [] (segs @ [c])
           | Some b \<Rightarrow> f (drop b c) (if 0 < b then segs @ [take b c] else segs)) = Some r"
  show "well_bracketed c"
  proof (cases "c = [] \<or> startswith c star")
    case True
    then show ?thesis
    proof
      assume "startswith c star"
      then obtain t where "c = star @ t" by (auto simp: startswith_star_iff)
      with eq IH [of t] show ?thesis
        by (auto simp: startswith_def)
    qed simp
  next
    case False
    show ?thesis
    proof (cases "find_char (CHR ''['') c")
      case None
      then show ?thesis by (simp add: find_char_None_iff well_bracketed_no_bracket)
    next
      case (Some n)
      with eq False IH have "well_bracketed (drop n c)" by auto
      with Some show ?thesis by (rule well_bracketed_find)
    qed
  qed
qed

lemma tokenize_chunks_returns_iff:
  "(\<exists>segs. tokenize_chunks chunks segments = Some segs) \<longleftrightarrow>
   (\<forall>c \<in> set chunks. well_bracketed c)"
proof (induction chunks arbitrary: segments)
  case Nil
  then show ?case by simp
next
  case (Cons c chunks)
  show ?case
  proof (cases "tokenize_chunk c segments")
    case None
    then show ?thesis using tokenize_chunk_returns [of c segments] by auto
  next
    case (Some s)
    with tokenize_chunk_returned [OF Some] Cons.IH [of s] show ?thesis by simp
  qed
qed

text \<open>
  C40 (liveness). Tokenizing a path returns exactly when every opening bracket of every
  dot-separated chunk opens a \<open>[*]\<close> marker; on any other path, such as \<open>items[0]\<close>, the
  loop of \<open>tokenize_path\<close> never ends.
\<close>

theorem tokenize_path_returns_iff:
  "(\<exists>segs. tokenize_path path = Some segs) \<longleftrightarrow>
   (\<forall>chunk \<in> set (split_on (CHR ''.'') path). well_bracketed chunk)"
  by (simp add: tokenize_path_def tokenize_chunks_returns_iff del: split_paired_Ex)

theorem tokenize_path_returns_iff_witness:
  "\<exists>segs. tokenize_path ''jobs[*].id'' = Some segs"
  using tokenize_path_returns_iff [of "''jobs[*].id''"] by (simp add: startswith_def)

section \<open>Segments and their rendering\<close>

text \<open>
  \<open>valid_segment\<close> is the module's grammar of one segment; \<open>render_path\<close> writes a list of
  segments the way the chip palette does: names joined by dots, \<open>[*]\<close> glued to what
  precedes it.
\<close>

definition is_name :: "string \<Rightarrow> bool" where
  "is_name s = (s \<noteq> [] \<and> CHR ''.'' \<notin> set s \<and> CHR ''['' \<notin> set s)"

definition valid_segment :: "string \<Rightarrow> bool" where
  "valid_segment s = (s = star \<or> is_name s)"

definition render_more :: "string list \<Rightarrow> string" where
  "render_more segs = concat (map (\<lambda>s. if s = star then star else CHR ''.'' # s) segs)"

fun render_path :: "string list \<Rightarrow> string" where
  "render_path [] = []"
| "render_path (s # segs) = s @ render_more segs"

lemma is_name_not_star: "is_name s \<Longrightarrow> s \<noteq> star"
  by (auto simp: is_name_def)

lemma tokenize_stars:
  "tokenize_chunk (concat (replicate k star)) segments = Some (segments @ replicate k star)"
proof (induction k arbitrary: segments)
  case 0
  then show ?case by (simp add: tokenize_chunk.simps)
next
  case (Suc k)
  have "tokenize_chunk (concat (replicate (Suc k) star)) segments
      = tokenize_chunk (concat (replicate k star)) (segments @ [star])"
    by (subst tokenize_chunk.simps) (simp add: startswith_def)
  with Suc.IH show ?case by simp
qed

lemma tokenize_name_stars:
  assumes "is_name nm"
  shows "tokenize_chunk (nm @ concat (replicate k star)) segments
       = Some (segments @ nm # replicate k star)"
proof -
  let ?c = "nm @ concat (replicate k star)"
  have nm: "nm \<noteq> []" "CHR ''['' \<notin> set nm" using assms by (auto simp: is_name_def)
  then have not_star: "\<not> startswith ?c star"
    by (cases nm) (auto simp: startswith_def)
  show ?thesis
  proof (cases k)
    case 0
    with nm not_star show ?thesis
      by (subst tokenize_chunk.simps)
        (simp add: find_char_None_iff [THEN iffD2] tokenize_chunk.simps [of "[]"])
  next
    case (Suc j)
    have c: "?c = nm @ CHR ''['' # (''*]'' @ concat (replicate j star))"
      using Suc by simp
    have "find_char (CHR ''['') ?c = Some (length nm)"
      unfolding c using nm(2) by (rule find_char_append)
    with nm not_star have "tokenize_chunk ?c segments
        = tokenize_chunk (concat (replicate k star)) (segments @ [nm])"
      by (subst tokenize_chunk.simps) simp
    then show ?thesis by (simp only: tokenize_stars) simp
  qed
qed

text \<open>
  \<open>pending\<close> is the text of the chunk being written: a name with some stars, or only stars.
\<close>

lemma tokenize_render_more:
  assumes "\<forall>s \<in> set segs. valid_segment s"
    and "\<And>k segments. tokenize_chunk (pending @ concat (replicate k star)) segments
           = Some (segments @ toks @ replicate k star)"
    and "CHR ''.'' \<notin> set pending"
  shows "tokenize_chunks (split_on (CHR ''.'') (pending @ render_more segs)) acc
       = Some (acc @ toks @ segs)"
  using assms
proof (induction segs arbitrary: pending toks acc)
  case Nil
  then show ?case using Nil.prems(2) [of 0 acc] by (simp add: render_more_def split_on_no_sep)
next
  case (Cons s segs)
  show ?case
  proof (cases "s = star")
    case True
    have "tokenize_chunks (split_on (CHR ''.'') ((pending @ star) @ render_more segs)) acc
        = Some (acc @ (toks @ [star]) @ segs)"
    proof (rule Cons.IH)
      fix k segments
      show "tokenize_chunk ((pending @ star) @ concat (replicate k star)) segments
          = Some (segments @ (toks @ [star]) @ replicate k star)"
        using Cons.prems(2) [of "Suc k" segments] by simp
    qed (use Cons.prems in auto)
    with True show ?thesis by (simp add: render_more_def)
  next
    case False
    with Cons.prems(1) have nm: "is_name s" by (auto simp: valid_segment_def)
    have "tokenize_chunks (split_on (CHR ''.'') (s @ render_more segs)) (acc @ toks)
        = Some ((acc @ toks) @ [s] @ segs)"
      by (rule Cons.IH) (use Cons.prems nm in \<open>auto simp: tokenize_name_stars is_name_def\<close>)
    with False Cons.prems(2) [of 0 acc] Cons.prems(3) show ?thesis
      by (simp add: render_more_def split_on_prefix)
  qed
qed

lemma tokenize_rendered:
  assumes "\<forall>s \<in> set segs. valid_segment s"
  shows "tokenize_path (render_path segs) = Some segs"
proof (cases segs)
  case Nil
  then show ?thesis by (simp add: tokenize_path_def tokenize_chunk.simps)
next
  case (Cons s tl_segs)
  have "tokenize_chunks (split_on (CHR ''.'') (s @ render_more tl_segs)) [] = Some ([] @ [s] @ tl_segs)"
  proof (rule tokenize_render_more)
    fix k segments
    show "tokenize_chunk (s @ concat (replicate k star)) segments
        = Some (segments @ [s] @ replicate k star)"
    proof (cases "s = star")
      case True
      then show ?thesis using tokenize_stars [of "Suc k" segments] by simp
    next
      case False
      with assms Cons show ?thesis by (auto simp: valid_segment_def tokenize_name_stars)
    qed
  qed (use assms Cons in \<open>auto simp: valid_segment_def is_name_def\<close>)
  with Cons show ?thesis by (simp add: tokenize_path_def)
qed

text \<open>
  C39 (roundtrip). Writing any list of well-formed segments as a path and tokenizing the
  path gives the same segments back.
\<close>

theorem tokenize_render_path:
  assumes "\<forall>s \<in> set segs. valid_segment s"
  shows "tokenize_path (render_path segs) = Some segs"
  using assms by (rule tokenize_rendered)

theorem tokenize_render_path_witness:
  "tokenize_path ''jobs[*].title'' = Some [''jobs'', star, ''title'']"
  using tokenize_render_path [of "[''jobs'', star, ''title'']"]
  by (simp add: valid_segment_def is_name_def render_more_def)

section \<open>What the walker returns\<close>

lemma walk_PNone: "segs \<noteq> [] \<Longrightarrow> walk rt PNone segs = PNone"
  by (cases segs) auto

lemma walk_append:
  "star \<notin> set segs \<Longrightarrow> walk rt v (segs @ tl_segs) = walk rt (walk rt v segs) tl_segs"
proof (induction rt v segs rule: walk.induct)
  case (1 rt cursor)
  then show ?case by simp
next
  case (2 rt cursor seg rest)
  show ?case
  proof (cases "cursor = PNone \<or> is_list cursor")
    case True
    then show ?thesis using "2.prems" walk_PNone [of tl_segs] by (cases "tl_segs = []") auto
  next
    case False
    with "2.prems" "2.IH" show ?thesis by (cases cursor) auto
  qed
qed

text \<open>
  Resolving \<open>p[*].q\<close> over a state resolves \<open>p\<close> first; when that gives a
  list, \<open>q\<close> is projected over its items in order (the list itself when \<open>q\<close> is empty), and
  when it gives anything else the result is \<open>None\<close>.
\<close>

theorem resolve_path_projection:
  assumes "p \<noteq> []" and "\<forall>s \<in> set p. is_name s" and "\<forall>s \<in> set q. valid_segment s"
  shows "resolve_path rt state (render_path (p @ star # q)) =
     Some (case walk rt state p of
             PList xs \<Rightarrow> if q = [] then PList xs else PList (map (\<lambda>x. walk rt x q) xs)
           | _ \<Rightarrow> PNone)"
proof -
  have valid: "\<forall>s \<in> set (p @ star # q). valid_segment s"
    using assms(2,3) by (auto simp: valid_segment_def)
  have "render_path (p @ star # q) \<noteq> []"
    using assms(1,2) by (cases p) (auto simp: is_name_def)
  moreover have "star \<notin> set p" using assms(2) is_name_not_star by blast
  ultimately show ?thesis
    using walk_append [of p rt state "star # q"] tokenize_rendered [OF valid]
    by (cases "walk rt state p") (auto simp: resolve_path_def)
qed

theorem resolve_path_projection_witness:
  "resolve_path \<lparr>rt_getattr = \<lambda>_ _. PNone, rt_float_str = \<lambda>_. []\<rparr>
     (PDict [(''jobs'', PList [PDict [(''id'', PInt 4)], PNone])]) ''jobs[*].id''
   = Some (PList [PInt 4, PNone])"
  using resolve_path_projection [of "[''jobs'']" "[''id'']"
      "\<lparr>rt_getattr = \<lambda>_ _. PNone, rt_float_str = \<lambda>_. []\<rparr>"
      "PDict [(''jobs'', PList [PDict [(''id'', PInt 4)], PNone])]"]
  by (simp add: valid_segment_def is_name_def render_more_def dget_def)

end
