(* ===== verification/Templates.thy ===== *)
theory Templates
  imports TemplatePaths
begin

text \<open>
  Template values of a node's configuration (helpers at the end of
  luna_core/engine/nodes.py): whole-value references, prompt interpolation, context
  bindings, the previews put on events, and the exceptions of a node run.

  A result \<open>None\<close> at the outside is a call that does not return: it is how a path on which
  the tokenizer loops shows in the callers.
\<close>

section \<open>Exceptions of a node run\<close>

datatype exn =
    NodeExecutionError string
  | HumanCheckpointInterrupt string string
  | AbortSignalError string string
  | Cancelled
  | OtherError string string

fun exn_name :: "exn \<Rightarrow> string" where
  "exn_name (NodeExecutionError _) = ''NodeExecutionError''"
| "exn_name (HumanCheckpointInterrupt _ _) = ''HumanCheckpointInterrupt''"
| "exn_name (AbortSignalError _ _) = ''AbortSignalError''"
| "exn_name Cancelled = ''CancelledError''"
| "exn_name (OtherError name _) = name"

text \<open>
  \<open>str(exc)\<close>, and what an \<open>except Exception\<close> clause catches: every exception but a
  cancellation, which is not a subclass of \<open>Exception\<close>.
\<close>

fun exn_text :: "exn \<Rightarrow> string" where
  "exn_text (NodeExecutionError m) = m"
| "exn_text (HumanCheckpointInterrupt node m) =
     (if m \<noteq> [] then m else ''human checkpoint reached at '' @ node)"
| "exn_text (AbortSignalError run node) = ''run '' @ run @ '' aborted at node '' @ node"
| "exn_text Cancelled = []"
| "exn_text (OtherError _ m) = m"

fun catchable :: "exn \<Rightarrow> bool" where
  "catchable Cancelled = False"
| "catchable _ = True"

section \<open>Whole-value references and interpolation\<close>

definition resolve_value :: "pyrt \<Rightarrow> pyval \<Rightarrow> pydict \<Rightarrow> pyval option" where
  "resolve_value rt v state =
     (case v of
        PStr s \<Rightarrow>
          if \<not> (startswith s ''${'' \<and> endswith s ''}'') then Some v
          else resolve_path rt (PDict state) (take (length s - 3) (drop 2 s))
      | _ \<Rightarrow> Some v)"

definition find_from :: "string \<Rightarrow> string \<Rightarrow> nat \<Rightarrow> nat option" where
  "find_from p s start = map_option (\<lambda>i. start + i) (find_sub p (drop start s))"

definition str_or_empty :: "pyrt \<Rightarrow> pyval \<Rightarrow> string" where
  "str_or_empty rt v = (if v = PNone then [] else py_str rt v)"

partial_function (option) format_go :: "pyrt \<Rightarrow> pydict \<Rightarrow> string \<Rightarrow> nat \<Rightarrow> string option" where
  "format_go rt state result cursor =
     (case find_from ''${'' result cursor of
        None \<Rightarrow> Some result
      | Some start \<Rightarrow>
          (case find_from ''}'' result start of
             None \<Rightarrow> Some result
           | Some stop \<Rightarrow>
               Option.bind
                 (resolve_value rt
                    (PStr (''${'' @ take (stop - (start + 2)) (drop (start + 2) result) @ ''}''))
                    state)
                 (\<lambda>replacement.
                    format_go rt state
                      (take start result @ str_or_empty rt replacement @ drop (stop + 1) result)
                      (start + length (str_or_empty rt replacement)))))"

definition format_template :: "pyrt \<Rightarrow> string \<Rightarrow> pydict \<Rightarrow> string option" where
  "format_template rt text state = format_go rt state text 0"

definition resolve_prompt :: "pyrt \<Rightarrow> pydict \<Rightarrow> pydict \<Rightarrow> string option option" where
  "resolve_prompt rt config state =
     (case dget config ''prompt'' of
        PNone \<Rightarrow> Some None
      | PStr s \<Rightarrow> map_option Some (format_template rt s state)
      | v \<Rightarrow> Some (Some (py_str rt v)))"

definition resolve_inputs :: "pyrt \<Rightarrow> pyval \<Rightarrow> pydict \<Rightarrow> pydict option" where
  "resolve_inputs rt spec state =
     (case spec of
        PDict d \<Rightarrow> those (map (\<lambda>p. map_option (Pair (fst p)) (resolve_value rt (snd p) state)) d)
      | _ \<Rightarrow> Some [])"

definition resolve_binding_id ::
  "pyrt \<Rightarrow> pydict \<Rightarrow> pydict \<Rightarrow> (exn + string option) option" where
  "resolve_binding_id rt binding state =
     (if dhas binding ''static_id'' then
        (let sid = dget binding ''static_id''
         in Some (Inr (if sid = PNone \<or> sid = PStr [] then None else Some (py_str rt sid))))
      else
        (case dget binding ''from'' of
           PStr p \<Rightarrow>
             if p = [] then
               Some (Inl (NodeExecutionError
                 (''context binding must have either 'from' or 'static_id': ''
                    @ py_repr rt (PDict binding))))
             else
               map_option (\<lambda>v. Inr (if v = PNone then None else Some (py_str rt v)))
                 (resolve_value rt (PStr (''${'' @ p @ ''}'')) state)
         | _ \<Rightarrow> Some (Inl (NodeExecutionError
                 (''context binding must have either 'from' or 'static_id': ''
                    @ py_repr rt (PDict binding))))))"

section \<open>Call context and previews\<close>

definition trigger_user_id_from_state :: "pyrt \<Rightarrow> pydict \<Rightarrow> exn + string option" where
  "trigger_user_id_from_state rt state =
     (case py_or (dget state ''trigger'') (PDict []) of
        PDict trigger \<Rightarrow>
          (let raw = dget trigger ''user_id''
           in Inr (if \<not> truthy raw then None else Some (py_str rt raw)))
      | v \<Rightarrow> Inl (OtherError ''AttributeError'' (type_name v)))"

definition with_call_context_extras ::
  "pyval option \<Rightarrow> pyval option \<Rightarrow> string option \<Rightarrow> pydict option \<Rightarrow> pydict option" where
  "with_call_context_extras stash_record_schema stash_dedup_checker trigger_user_id base =
     (let out = (case base of None \<Rightarrow> [] | Some b \<Rightarrow> b);
          out = (case stash_record_schema of None \<Rightarrow> out
                 | Some v \<Rightarrow> dset out ''stash_record_schema'' v);
          out = (case stash_dedup_checker of None \<Rightarrow> out
                 | Some v \<Rightarrow> dset out ''stash_dedup_checker'' v);
          out = (case trigger_user_id of None \<Rightarrow> out
                 | Some u \<Rightarrow> dset out ''trigger_user_id'' (PStr u))
      in if out = [] then None else Some out)"

definition result_preview :: "pyrt \<Rightarrow> pyval \<Rightarrow> nat \<Rightarrow> string" where
  "result_preview rt result limit =
     (let text = (case result of PStr s \<Rightarrow> s | _ \<Rightarrow> json_dumps rt False result)
      in if length text \<le> limit then text else take limit text @ ellipsis)"

section \<open>One pass over the template\<close>

text \<open>
  \<open>expand\<close> is the intended meaning of a template: read it once from left to right, keep the
  literal text, replace each \<open>${path}\<close> by what \<open>f\<close> gives for the path, and go on after the
  closing brace.
\<close>

lemma startswith_length: "startswith s p \<Longrightarrow> length p \<le> length s"
  unfolding startswith_def by (metis length_take min.cobounded1)

lemma find_sub_bound: "find_sub p s = Some i \<Longrightarrow> i + length p \<le> length s"
proof (induction s arbitrary: i)
  case Nil
  then show ?case by (auto split: if_splits)
next
  case (Cons x s)
  then show ?case
    using startswith_length [of "x # s" p] by (auto split: if_splits)
qed

function expand :: "(string \<Rightarrow> string option) \<Rightarrow> string \<Rightarrow> string option" where
  "expand f s =
     (case find_sub ''${'' s of
        None \<Rightarrow> Some s
      | Some i \<Rightarrow>
          (case find_sub ''}'' (drop i s) of
             None \<Rightarrow> Some s
           | Some j \<Rightarrow>
               Option.bind (f (take (j - 2) (drop (i + 2) s)))
                 (\<lambda>r. map_option (\<lambda>t. take i s @ r @ t) (expand f (drop (i + j + 1) s)))))"
  by pat_completeness auto
termination
  by (relation "measure (\<lambda>(f, s). length s)") (auto dest!: find_sub_bound)

declare expand.simps [simp del]

lemma resolve_value_marker:
  "resolve_value rt (PStr (''${'' @ p @ ''}'')) state = resolve_path rt (PDict state) p"
  by (simp add: resolve_value_def startswith_def endswith_def)

lemma format_go_expand:
  assumes "cursor \<le> length result"
  shows "format_go rt state result cursor =
     map_option (\<lambda>t. take cursor result @ t)
       (expand (\<lambda>p. map_option (str_or_empty rt) (resolve_path rt (PDict state) p))
          (drop cursor result))"
  using assms
proof (induction "length result - cursor" arbitrary: result cursor rule: less_induct)
  case less
  let ?f = "\<lambda>p. map_option (str_or_empty rt) (resolve_path rt (PDict state) p)"
  let ?s = "drop cursor result"
  show ?case
  proof (cases "find_sub ''${'' ?s")
    case None
    then show ?thesis
      by (subst format_go.simps, subst expand.simps) (simp add: find_from_def)
  next
    case i: (Some i)
    show ?thesis
    proof (cases "find_sub ''}'' (drop i ?s)")
      case None
      with i show ?thesis
        by (subst format_go.simps, subst expand.simps) (simp add: find_from_def add.commute)
    next
      case j: (Some j)
      let ?start = "cursor + i"
      let ?path = "take (j - 2) (drop (i + 2) ?s)"
      have bounds: "i + 2 \<le> length result - cursor" "i + j + 1 \<le> length result - cursor"
        using find_sub_bound [OF i] find_sub_bound [OF j] by auto
      have go: "format_go rt state result cursor =
          Option.bind (resolve_path rt (PDict state) ?path)
            (\<lambda>v. format_go rt state
                   (take ?start result @ str_or_empty rt v @ drop (?start + j + 1) result)
                   (?start + length (str_or_empty rt v)))"
        using i j resolve_value_marker [of rt ?path state]
        by (subst format_go.simps) (simp add: find_from_def ac_simps)
      show ?thesis
      proof (cases "resolve_path rt (PDict state) ?path")
        case None
        with go i j show ?thesis by (subst expand.simps) simp
      next
        case (Some v)
        let ?r = "str_or_empty rt v"
        let ?result = "take ?start result @ ?r @ drop (?start + j + 1) result"
        have rest: "drop (?start + length ?r) ?result = drop (i + j + 1) ?s"
          "take (?start + length ?r) ?result = take cursor result @ take i ?s @ ?r"
          using less.prems bounds by (auto simp: min_def ac_simps take_add)
        have "format_go rt state ?result (?start + length ?r) =
            map_option (\<lambda>t. take (?start + length ?r) ?result @ t)
              (expand ?f (drop (?start + length ?r) ?result))"
          by (rule less.hyps) (use less.prems bounds in auto)
        then have "format_go rt state ?result (?start + length ?r) =
            map_option (\<lambda>t. (take cursor result @ take i ?s @ ?r) @ t)
              (expand ?f (drop (i + j + 1) ?s))"
          unfolding rest .
        with go Some i j show ?thesis
          by (subst expand.simps) (simp add: option.map_comp comp_def)
      qed
    qed
  qed
qed

text \<open>
  Formatting a template by repeated in-place replacement gives the same
  text as one left-to-right pass: text that came out of a value is never read as a marker
  again, and a call that does not return is exactly one whose pass meets a path that is
  never tokenized.
\<close>

theorem format_template_one_pass:
  "format_template rt text state =
     expand (\<lambda>p. map_option (str_or_empty rt) (resolve_path rt (PDict state) p)) text"
  by (simp add: format_template_def format_go_expand option.map_ident)

lemma result_preview_length: "length (result_preview rt v limit) \<le> limit + 1"
  by (auto simp: result_preview_def Let_def ellipsis_def)

end
