(* ===== verification/Actions.thy ===== *)
theory Actions
  imports Templates
begin

text \<open>
  Coroutines of the program as functions on the world they run in: databases, Redis, model
  providers and whatever the host application owns.  An action returns a value or an
  exception together with the world it leaves, or never returns (\<open>None\<close>).  The combinators
  are sequencing, raising, catching and iteration; \<open>hoare\<close> and \<open>keeps\<close> are the rules by
  which the component theories reason about them.
\<close>

named_theorems act_simps \<open>definitions of the combinators\<close>
named_theorems hoare_intros \<open>rules for triples\<close>
named_theorems keeps_intros \<open>rules for parts of the world an action leaves alone\<close>

type_synonym ('w, 'a) act = "'w \<Rightarrow> ((exn + 'a) \<times> 'w) option"

section \<open>Combinators\<close>

definition returnA :: "'a \<Rightarrow> ('w, 'a) act" where
  "returnA x = (\<lambda>w. Some (Inr x, w))"

definition raiseA :: "exn \<Rightarrow> ('w, 'a) act" where
  "raiseA e = (\<lambda>w. Some (Inl e, w))"

definition bindA :: "('w, 'a) act \<Rightarrow> ('a \<Rightarrow> ('w, 'b) act) \<Rightarrow> ('w, 'b) act" where
  "bindA m f = (\<lambda>w. case m w of
       None \<Rightarrow> None
     | Some (r, w') \<Rightarrow> (case r of Inl e \<Rightarrow> Some (Inl e, w') | Inr x \<Rightarrow> f x w'))"

text \<open>\<open>try: m except Exception as e: h e\<close>, and with \<open>BaseException\<close>.\<close>

definition tryA :: "('w, 'a) act \<Rightarrow> (exn \<Rightarrow> ('w, 'a) act) \<Rightarrow> ('w, 'a) act" where
  "tryA m h = (\<lambda>w. case m w of
       None \<Rightarrow> None
     | Some (r, w') \<Rightarrow>
         (case r of Inl e \<Rightarrow> if catchable e then h e w' else Some (Inl e, w')
                  | Inr x \<Rightarrow> Some (Inr x, w')))"

definition try_allA :: "('w, 'a) act \<Rightarrow> (exn \<Rightarrow> ('w, 'a) act) \<Rightarrow> ('w, 'a) act" where
  "try_allA m h = (\<lambda>w. case m w of
       None \<Rightarrow> None
     | Some (r, w') \<Rightarrow> (case r of Inl e \<Rightarrow> h e w' | Inr x \<Rightarrow> Some (Inr x, w')))"

definition readA :: "('w \<Rightarrow> 'a) \<Rightarrow> ('w, 'a) act" where
  "readA f = (\<lambda>w. Some (Inr (f w), w))"

definition writeA :: "('w \<Rightarrow> 'w) \<Rightarrow> ('w, unit) act" where
  "writeA f = (\<lambda>w. Some (Inr (), f w))"

definition stepA :: "('w \<Rightarrow> (exn + 'a) \<times> 'w) \<Rightarrow> ('w, 'a) act" where
  "stepA f = (\<lambda>w. Some (f w))"

text \<open>A computation that touches no state: a result, or one that may not return.\<close>

definition liftR :: "exn + 'a \<Rightarrow> ('w, 'a) act" where
  "liftR r = (\<lambda>w. Some (r, w))"

definition liftO :: "'a option \<Rightarrow> ('w, 'a) act" where
  "liftO r = (\<lambda>w. map_option (\<lambda>x. (Inr x, w)) r)"

definition liftOR :: "(exn + 'a) option \<Rightarrow> ('w, 'a) act" where
  "liftOR r = (\<lambda>w. map_option (\<lambda>x. (x, w)) r)"

definition ignoreA :: "('w, 'a) act \<Rightarrow> ('w, unit) act" where
  "ignoreA m = try_allA (bindA m (\<lambda>_. returnA ())) (\<lambda>_. returnA ())"

text \<open>\<open>try: m finally: f\<close>.\<close>

definition finallyA :: "('w, 'a) act \<Rightarrow> ('w, unit) act \<Rightarrow> ('w, 'a) act" where
  "finallyA m f = bindA (try_allA (bindA m (\<lambda>x. returnA (Inr x))) (\<lambda>e. returnA (Inl e)))
     (\<lambda>r. bindA f (\<lambda>_. liftR r))"

text \<open>\<open>try: m except P as exc\<close>: the exception as a value.\<close>

definition attemptA :: "(exn \<Rightarrow> bool) \<Rightarrow> ('w, 'a) act \<Rightarrow> ('w, exn + 'a) act" where
  "attemptA P m = try_allA (bindA m (\<lambda>x. returnA (Inr x)))
     (\<lambda>e. if P e then returnA (Inl e) else raiseA e)"

fun forA :: "('x \<Rightarrow> ('w, 'a) act) \<Rightarrow> 'x list \<Rightarrow> ('w, 'a list) act" where
  "forA f [] = returnA []"
| "forA f (x # xs) = bindA (f x) (\<lambda>y. bindA (forA f xs) (\<lambda>ys. returnA (y # ys)))"

lemmas act_defs [act_simps] = returnA_def raiseA_def bindA_def tryA_def try_allA_def readA_def
  writeA_def stepA_def liftR_def liftO_def liftOR_def ignoreA_def

lemma bindA_Some:
  "bindA m f w = Some (r, w') \<longleftrightarrow>
     (\<exists>e. m w = Some (Inl e, w') \<and> r = Inl e) \<or>
     (\<exists>x w1. m w = Some (Inr x, w1) \<and> f x w1 = Some (r, w'))"
  by (auto simp: bindA_def split: option.splits sum.splits)

lemma bindA_return [simp]: "bindA (returnA x) f = f x"
  by (simp add: bindA_def returnA_def)

lemma bindA_raise [simp]: "bindA (raiseA e) f = raiseA e"
  by (simp add: bindA_def raiseA_def)

lemma bindA_assoc: "bindA (bindA m f) g = bindA m (\<lambda>x. bindA (f x) g)"
  by (auto simp: bindA_def fun_eq_iff split: option.splits sum.splits prod.splits)

lemma forA_length: "forA f xs w = Some (Inr ys, w') \<Longrightarrow> length ys = length xs"
  by (induction xs arbitrary: ys w w') (auto simp: returnA_def bindA_Some)

section \<open>Numbers of values\<close>

definition value_error :: "string \<Rightarrow> exn" where
  "value_error m = OtherError ''ValueError'' m"

definition type_error :: "string \<Rightarrow> exn" where
  "type_error m = OtherError ''TypeError'' m"

text \<open>\<open>int(s)\<close> and \<open>float(s)\<close> of a text; \<open>None\<close> is a \<open>ValueError\<close>.\<close>

record number_texts =
  nt_int :: "string \<Rightarrow> int option"
  nt_float :: "string \<Rightarrow> rat option"

fun py_int :: "number_texts \<Rightarrow> pyval \<Rightarrow> exn + int" where
  "py_int nt (PInt i) = Inr i"
| "py_int nt (PBool b) = Inr (if b then 1 else 0)"
| "py_int nt (PFloat r) = Inr (if 0 \<le> r then \<lfloor>r\<rfloor> else \<lceil>r\<rceil>)"
| "py_int nt (PStr s) =
     (case nt_int nt s of None \<Rightarrow> Inl (value_error ''invalid literal for int()'') | Some i \<Rightarrow> Inr i)"
| "py_int nt _ = Inl (type_error ''int() argument must be a string or a number'')"

fun py_float :: "number_texts \<Rightarrow> pyval \<Rightarrow> exn + rat" where
  "py_float nt (PInt i) = Inr (of_int i)"
| "py_float nt (PBool b) = Inr (if b then 1 else 0)"
| "py_float nt (PFloat r) = Inr r"
| "py_float nt (PStr s) =
     (case nt_float nt s of None \<Rightarrow> Inl (value_error ''could not convert to float'') | Some r \<Rightarrow> Inr r)"
| "py_float nt _ = Inl (type_error ''float() argument must be a string or a number'')"

section \<open>Triples\<close>

text \<open>
  From a world in \<open>P\<close>: if the action returns, a value and the world are in \<open>Q\<close>, an
  exception and the world in \<open>E\<close>.
\<close>

definition hoare ::
  "('w \<Rightarrow> bool) \<Rightarrow> ('w, 'a) act \<Rightarrow> ('a \<Rightarrow> 'w \<Rightarrow> bool) \<Rightarrow> (exn \<Rightarrow> 'w \<Rightarrow> bool) \<Rightarrow> bool" where
  "hoare P m Q E =
     (\<forall>w r w'. P w \<longrightarrow> m w = Some (r, w') \<longrightarrow> (case r of Inl e \<Rightarrow> E e w' | Inr x \<Rightarrow> Q x w'))"

lemma hoare_Inr: "hoare P m Q E \<Longrightarrow> P w \<Longrightarrow> m w = Some (Inr x, w') \<Longrightarrow> Q x w'"
  unfolding hoare_def by (metis sum.case(2))

lemma hoare_Inl: "hoare P m Q E \<Longrightarrow> P w \<Longrightarrow> m w = Some (Inl e, w') \<Longrightarrow> E e w'"
  unfolding hoare_def by (metis sum.case(1))

lemma hoare_weaken:
  "hoare P m Q E \<Longrightarrow> (\<And>w. P' w \<Longrightarrow> P w) \<Longrightarrow> (\<And>x w. Q x w \<Longrightarrow> Q' x w) \<Longrightarrow>
   (\<And>e w. E e w \<Longrightarrow> E' e w) \<Longrightarrow> hoare P' m Q' E'"
  unfolding hoare_def by (fastforce split: sum.splits)

lemma hoare_return [hoare_intros]: "(\<And>w. P w \<Longrightarrow> Q x w) \<Longrightarrow> hoare P (returnA x) Q E"
  by (auto simp: hoare_def returnA_def)

lemma hoare_raise [hoare_intros]: "(\<And>w. P w \<Longrightarrow> E e w) \<Longrightarrow> hoare P (raiseA e) Q E"
  by (auto simp: hoare_def raiseA_def)

lemma hoare_bind:
  "hoare P m R E \<Longrightarrow> (\<And>x. hoare (R x) (f x) Q E) \<Longrightarrow> hoare P (bindA m f) Q E"
  unfolding hoare_def bindA_Some by (fastforce split: sum.splits)

lemma hoare_try:
  "hoare P m Q (\<lambda>e w. if catchable e then R e w else E e w) \<Longrightarrow>
   (\<And>e. hoare (R e) (h e) Q E) \<Longrightarrow> hoare P (tryA m h) Q E"
  unfolding hoare_def tryA_def
  by (fastforce split: sum.splits option.splits prod.splits if_splits)

lemma hoare_try_all:
  "hoare P m Q R \<Longrightarrow> (\<And>e. hoare (R e) (h e) Q E) \<Longrightarrow> hoare P (try_allA m h) Q E"
  unfolding hoare_def try_allA_def by (fastforce split: sum.splits option.splits prod.splits)

lemma hoare_read [hoare_intros]: "(\<And>w. P w \<Longrightarrow> Q (f w) w) \<Longrightarrow> hoare P (readA f) Q E"
  by (auto simp: hoare_def readA_def)

lemma hoare_write [hoare_intros]: "(\<And>w. P w \<Longrightarrow> Q () (f w)) \<Longrightarrow> hoare P (writeA f) Q E"
  by (auto simp: hoare_def writeA_def)

lemma hoare_liftR [hoare_intros]:
  "(\<And>w. P w \<Longrightarrow> case r of Inl e \<Rightarrow> E e w | Inr x \<Rightarrow> Q x w) \<Longrightarrow> hoare P (liftR r) Q E"
  by (auto simp: hoare_def liftR_def)

lemma hoare_liftO [hoare_intros]:
  "(\<And>x w. r = Some x \<Longrightarrow> P w \<Longrightarrow> Q x w) \<Longrightarrow> hoare P (liftO r) Q E"
  by (auto simp: hoare_def liftO_def)

lemma hoare_liftOR [hoare_intros]:
  "(\<And>w. P w \<Longrightarrow> case r of None \<Rightarrow> True | Some (Inl e) \<Rightarrow> E e w | Some (Inr x) \<Rightarrow> Q x w) \<Longrightarrow>
   hoare P (liftOR r) Q E"
  by (auto simp: hoare_def liftOR_def split: sum.splits)

lemma hoare_case_sum:
  "(\<And>e. r = Inl e \<Longrightarrow> hoare P (f e) Q E) \<Longrightarrow> (\<And>x. r = Inr x \<Longrightarrow> hoare P (g x) Q E) \<Longrightarrow>
   hoare P (case r of Inl e \<Rightarrow> f e | Inr x \<Rightarrow> g x) Q E"
  by (cases r) auto

lemma hoare_step [hoare_intros]:
  "(\<And>w. P w \<Longrightarrow> case f w of (r, w') \<Rightarrow> (case r of Inl e \<Rightarrow> E e w' | Inr x \<Rightarrow> Q x w')) \<Longrightarrow>
   hoare P (stepA f) Q E"
  by (fastforce simp: hoare_def stepA_def)

lemma hoare_pure: "(A \<Longrightarrow> hoare P m Q E) \<Longrightarrow> hoare (\<lambda>w. P w \<and> A) m Q E"
  by (auto simp: hoare_def)

lemma hoare_if [hoare_intros]:
  "(b \<Longrightarrow> hoare P m Q E) \<Longrightarrow> (\<not> b \<Longrightarrow> hoare P n Q E) \<Longrightarrow> hoare P (if b then m else n) Q E"
  by simp

text \<open>An invariant over a list: \<open>I\<close> relates the items done, their results and the world.\<close>

lemma hoare_for:
  assumes "\<And>us ys x. hoare (I us ys) (f x) (\<lambda>y. I (us @ [x]) (ys @ [y])) E"
  shows "hoare (I us ys) (forA f xs) (\<lambda>zs. I (us @ xs) (ys @ zs)) E"
proof (induction xs arbitrary: us ys)
  case Nil
  then show ?case by (auto intro: hoare_intros)
next
  case (Cons x xs)
  have "hoare (I (us @ [x]) (ys @ [y])) (forA f xs) (\<lambda>zs. I (us @ x # xs) (ys @ y # zs)) E" for y
    using Cons.IH [of "us @ [x]" "ys @ [y]"] by simp
  then have "hoare (I (us @ [x]) (ys @ [y])) (bindA (forA f xs) (\<lambda>zs. returnA (y # zs)))
      (\<lambda>zs. I (us @ x # xs) (ys @ zs)) E" for y
    by (rule hoare_bind) (auto intro: hoare_intros)
  then show ?case unfolding forA.simps by (rule hoare_bind [OF assms])
qed

lemma hoareI:
  "(\<And>w x w'. P w \<Longrightarrow> m w = Some (Inr x, w') \<Longrightarrow> Q x w') \<Longrightarrow> hoare P m Q (\<lambda>_ _. True)"
  unfolding hoare_def by (auto split: sum.splits)

lemma hoare_attempt:
  assumes "hoare P m Q (\<lambda>_ _. True)"
  shows "hoare P (attemptA p m) (\<lambda>r w. case r of Inl _ \<Rightarrow> True | Inr x \<Rightarrow> Q x w) (\<lambda>_ _. True)"
  unfolding attemptA_def
proof (rule hoare_try_all)
  show "hoare P (bindA m (\<lambda>x. returnA (Inr x)))
      (\<lambda>r w. case r of Inl _ \<Rightarrow> True | Inr x \<Rightarrow> Q x w) (\<lambda>_ _. True)"
    by (rule hoare_bind [OF assms]) (simp add: hoare_return)
qed (auto intro: hoare_return hoare_raise)

lemma hoare_finally:
  assumes "hoare P m Q (\<lambda>_ _. True)" and "\<And>x. hoare (Q x) f (\<lambda>_. Q x) (\<lambda>_ _. True)"
  shows "hoare P (finallyA m f) Q (\<lambda>_ _. True)"
  unfolding finallyA_def
proof (rule hoare_bind [where R = "\<lambda>r w. case r of Inl _ \<Rightarrow> True | Inr x \<Rightarrow> Q x w"])
  show "hoare P (try_allA (bindA m (\<lambda>x. returnA (Inr x))) (\<lambda>e. returnA (Inl e)))
      (\<lambda>r w. case r of Inl _ \<Rightarrow> True | Inr x \<Rightarrow> Q x w) (\<lambda>_ _. True)"
    by (rule hoare_try_all [OF hoare_bind [OF assms(1)]]) (auto intro: hoare_return)
  show "hoare (\<lambda>w. case r of Inl _ \<Rightarrow> True | Inr x \<Rightarrow> Q x w) (bindA f (\<lambda>_. liftR r)) Q (\<lambda>_ _. True)" for r
  proof (cases r)
    case (Inr x)
    have "hoare (Q x) (liftR (Inr x)) Q (\<lambda>_ _. True)" by (rule hoare_liftR) simp
    with Inr show ?thesis using hoare_bind [OF assms(2)] by simp
  qed (auto simp: hoare_def bindA_Some liftR_def)
qed

section \<open>What an action leaves alone\<close>

definition keeps :: "('w \<Rightarrow> 'v) \<Rightarrow> ('w, 'a) act \<Rightarrow> bool" where
  "keeps view m = (\<forall>w r w'. m w = Some (r, w') \<longrightarrow> view w' = view w)"

lemma keepsD: "keeps view m \<Longrightarrow> m w = Some (r, w') \<Longrightarrow> view w' = view w"
  by (auto simp: keeps_def)

lemma keeps_return [keeps_intros]: "keeps view (returnA x)"
  and keeps_raise [keeps_intros]: "keeps view (raiseA e)"
  and keeps_read [keeps_intros]: "keeps view (readA f)"
  and keeps_liftR [keeps_intros]: "keeps view (liftR r)"
  and keeps_liftO [keeps_intros]: "keeps view (liftO ro)"
  and keeps_liftOR [keeps_intros]: "keeps view (liftOR ror)"
  by (auto simp: keeps_def act_simps)

lemma keeps_bind [keeps_intros]: "keeps view m \<Longrightarrow> (\<And>x. keeps view (f x)) \<Longrightarrow> keeps view (bindA m f)"
  unfolding keeps_def bindA_Some by metis

lemma keeps_try [keeps_intros]: "keeps view m \<Longrightarrow> (\<And>e. keeps view (h e)) \<Longrightarrow> keeps view (tryA m h)"
  unfolding keeps_def tryA_def by (fastforce split: option.splits sum.splits if_splits)

lemma keeps_try_all [keeps_intros]:
  "keeps view m \<Longrightarrow> (\<And>e. keeps view (h e)) \<Longrightarrow> keeps view (try_allA m h)"
  unfolding keeps_def try_allA_def by (fastforce split: option.splits sum.splits)

lemma keeps_ignore [keeps_intros]: "keeps view m \<Longrightarrow> keeps view (ignoreA m)"
  by (simp add: ignoreA_def keeps_intros)

lemma keeps_for [keeps_intros]: "(\<And>x. keeps view (f x)) \<Longrightarrow> keeps view (forA f xs)"
  by (induction xs) (simp_all add: keeps_intros)

lemma keeps_if [keeps_intros]:
  "(b \<Longrightarrow> keeps view m) \<Longrightarrow> (\<not> b \<Longrightarrow> keeps view n) \<Longrightarrow> keeps view (if b then m else n)"
  by simp

lemma keeps_write: "(\<And>w. view (f w) = view w) \<Longrightarrow> keeps view (writeA f)"
  by (simp add: keeps_def writeA_def)

lemma keeps_step:
  assumes "\<And>w. view (snd (f w)) = view w"
  shows "keeps view (stepA f)"
  unfolding keeps_def stepA_def
proof (intro allI impI)
  fix w r w'
  assume "Some (f w) = Some (r, w')"
  then show "view w' = view w" using assms [of w] by simp
qed

text \<open>A triple is strengthened by what the action leaves alone.\<close>

lemma hoare_keeps: "keeps view m \<Longrightarrow> hoare (\<lambda>w. view w = v) m (\<lambda>_ w. view w = v) (\<lambda>_ w. view w = v)"
  unfolding hoare_def keeps_def by (auto split: sum.splits)

lemma hoare_keepsP:
  "keeps view m \<Longrightarrow> (\<And>w w'. P w \<Longrightarrow> view w' = view w \<Longrightarrow> P w') \<Longrightarrow>
   hoare P m (\<lambda>_. P) (\<lambda>_. P)"
  unfolding hoare_def keeps_def by (metis (no_types, lifting) old.sum.exhaust old.sum.simps(5,6))

section \<open>What an action costs\<close>

text \<open>
  \<open>costs calls k m\<close>: the action returns, in every world, and \<open>calls\<close> has grown by \<open>k\<close> at most.
\<close>

definition costs :: "('w \<Rightarrow> nat) \<Rightarrow> nat \<Rightarrow> ('w, 'a) act \<Rightarrow> bool" where
  "costs calls k m = (\<forall>w. \<exists>r w'. m w = Some (r, w') \<and> calls w' \<le> calls w + k)"

lemma costs_return [intro]: "costs calls k (returnA x)"
  and costs_raise [intro]: "costs calls k (raiseA e)"
  and costs_liftR [intro]: "costs calls k (liftR r)"
  by (auto simp: costs_def returnA_def raiseA_def liftR_def)

lemma costs_mono: "costs calls k m \<Longrightarrow> k \<le> l \<Longrightarrow> costs calls l m"
  unfolding costs_def by (meson add_left_mono order_trans)

lemma costs_bind:
  assumes "costs calls k m" and "\<And>x. costs calls l (f x)"
  shows "costs calls (k + l) (bindA m f)"
  unfolding costs_def
proof
  fix w
  obtain r w1 where m: "m w = Some (r, w1)" "calls w1 \<le> calls w + k"
    using assms(1) unfolding costs_def by blast
  show "\<exists>r w'. bindA m f w = Some (r, w') \<and> calls w' \<le> calls w + (k + l)"
  proof (cases r)
    case (Inl e)
    with m show ?thesis by (simp add: bindA_def)
  next
    case (Inr x)
    obtain r' w' where "f x w1 = Some (r', w')" "calls w' \<le> calls w1 + l"
      using assms(2) unfolding costs_def by blast
    with m Inr show ?thesis by (simp add: bindA_def)
  qed
qed

lemma costs_bind0: "costs calls 0 m \<Longrightarrow> (\<And>x. costs calls l (f x)) \<Longrightarrow> costs calls l (bindA m f)"
  using costs_bind [of calls 0 m l f] by simp

lemma costs_try0:
  assumes "costs calls k m" and "\<And>e. costs calls 0 (h e)"
  shows "costs calls k (tryA m h)"
  unfolding costs_def
proof
  fix w
  obtain r w1 where m: "m w = Some (r, w1)" "calls w1 \<le> calls w + k"
    using assms(1) unfolding costs_def by blast
  have "\<exists>r' w'. h e w1 = Some (r', w') \<and> calls w' \<le> calls w1" for e
    using assms(2) [of e] by (simp add: costs_def)
  with m show "\<exists>r w'. tryA m h w = Some (r, w') \<and> calls w' \<le> calls w + k"
  proof (cases r)
    case (Inl e)
    obtain r' w' where "h e w1 = Some (r', w')" "calls w' \<le> calls w1"
      using \<open>\<exists>r' w'. h e w1 = Some (r', w') \<and> calls w' \<le> calls w1\<close> by blast
    with m Inl show ?thesis by (cases "catchable e") (auto simp: tryA_def)
  next
    case (Inr x)
    with m show ?thesis by (simp add: tryA_def)
  qed
qed

lemma costs_for0: "(\<And>x. costs calls 0 (f x)) \<Longrightarrow> costs calls 0 (forA f xs)"
  by (induction xs) (auto intro!: costs_bind0)

lemma costs_if [intro]: "costs calls k m \<Longrightarrow> costs calls k n \<Longrightarrow> costs calls k (if b then m else n)"
  by simp

lemma costs_write: "(\<And>w. calls (f w) \<le> calls w) \<Longrightarrow> costs calls 0 (writeA f)"
  by (simp add: costs_def writeA_def)

lemma costs_step:
  assumes "\<And>w. calls (snd (f w)) \<le> calls w"
  shows "costs calls 0 (stepA f)"
  using assms by (simp add: costs_def stepA_def) (metis prod.collapse)

lemma costs_read [intro]: "costs calls k (readA f)"
  by (simp add: costs_def readA_def)

lemma costs_attempt: "costs calls k m \<Longrightarrow> costs calls k (attemptA P m)"
proof -
  assume c: "costs calls k m"
  show ?thesis
    unfolding costs_def
  proof
    fix w
    obtain r w1 where "m w = Some (r, w1)" "calls w1 \<le> calls w + k" using c unfolding costs_def by blast
    then show "\<exists>r w'. attemptA P m w = Some (r, w') \<and> calls w' \<le> calls w + k"
      by (cases r) (auto simp: attemptA_def try_allA_def bindA_def returnA_def raiseA_def)
  qed
qed

lemma costs_finally:
  assumes "costs calls k m" and "costs calls 0 f"
  shows "costs calls k (finallyA m f)"
proof -
  have "costs calls k (try_allA (bindA m (\<lambda>x. returnA (Inr x))) (\<lambda>e. returnA (Inl e)))"
    unfolding costs_def
  proof
    fix w
    obtain r w1 where "m w = Some (r, w1)" "calls w1 \<le> calls w + k"
      using assms(1) unfolding costs_def by fastforce
    then show "\<exists>r w'. try_allA (bindA m (\<lambda>x. returnA (Inr x))) (\<lambda>e. returnA (Inl e)) w = Some (r, w')
        \<and> calls w' \<le> calls w + k"
      by (cases r) (auto simp: try_allA_def bindA_def returnA_def)
  qed
  moreover have "costs calls 0 (bindA f (\<lambda>_. liftR r))" for r
    by (rule costs_bind0 [OF assms(2) costs_liftR])
  ultimately have "costs calls (k + 0) (finallyA m f)" unfolding finallyA_def by (rule costs_bind)
  then show ?thesis by simp
qed

end
