(* ===== verification/IterationConfig.thy ===== *)
theory IterationConfig
  imports Templates
begin

text \<open>
  The per-node iteration settings (luna_core/engine/iteration.py): defaults and clamps of
  the numeric settings, normalisation of the tokens, validation of carry and stash schemas,
  and the prompt block that describes a stash schema.

  The raw settings come from stored JSON, so each is an arbitrary value.
\<close>

section \<open>Constants and errors\<close>

definition ITERATION_HARD_CEILING :: int where "ITERATION_HARD_CEILING = 200"
definition DEFAULT_MAX_ITERATIONS :: int where "DEFAULT_MAX_ITERATIONS = 50"
definition DEFAULT_ITERATION_CONCURRENCY :: int where "DEFAULT_ITERATION_CONCURRENCY = 4"

definition CARRY_PRIMITIVE_TYPES :: "string list" where
  "CARRY_PRIMITIVE_TYPES =
     [''string'', ''integer'', ''number'', ''boolean'', ''object'', ''array'']"

datatype config_error =
    CarrySchemaError string
  | IterationSourceError string
  | UnhashableError string

fun config_error_text :: "config_error \<Rightarrow> string" where
  "config_error_text (CarrySchemaError m) = m"
| "config_error_text (IterationSourceError m) = m"
| "config_error_text (UnhashableError m) = m"

section \<open>Tokens and numbers\<close>

definition one_of :: "pyval \<Rightarrow> string list \<Rightarrow> string \<Rightarrow> string" where
  "one_of raw valid default_token =
     (case raw of PStr s \<Rightarrow> if s \<in> set valid then s else default_token | _ \<Rightarrow> default_token)"

definition resolve_iteration_source :: "pyval \<Rightarrow> string" where
  "resolve_iteration_source raw = one_of raw [''agent_yield'', ''scratchpad''] ''agent_yield''"

definition resolve_on_no_yield :: "pyval \<Rightarrow> string" where
  "resolve_on_no_yield raw = one_of raw [''treat_as_done'', ''error''] ''treat_as_done''"

definition resolve_iteration_execution :: "pyval \<Rightarrow> string" where
  "resolve_iteration_execution raw = one_of raw [''sequential'', ''parallel''] ''sequential''"

definition resolve_on_iteration_error :: "pyval \<Rightarrow> string" where
  "resolve_on_iteration_error raw =
     one_of raw [''continue'', ''cancel_siblings''] ''continue''"

text \<open>\<open>raw if isinstance(raw, int) and raw > 0 else d\<close>; a boolean is an integer here.\<close>

definition positive_int_or :: "pyval \<Rightarrow> int \<Rightarrow> int" where
  "positive_int_or raw d =
     (case raw of
        PInt i \<Rightarrow> if i > 0 then i else d
      | PBool b \<Rightarrow> if b then 1 else d
      | _ \<Rightarrow> d)"

definition resolve_max_iterations :: "pyval \<Rightarrow> int" where
  "resolve_max_iterations raw =
     min (positive_int_or raw DEFAULT_MAX_ITERATIONS) ITERATION_HARD_CEILING"

definition resolve_iteration_concurrency :: "int \<Rightarrow> pyval \<Rightarrow> int" where
  "resolve_iteration_concurrency iteration_concurrency_max raw =
     (let ceiling = max 1 iteration_concurrency_max
      in min (positive_int_or raw DEFAULT_ITERATION_CONCURRENCY) ceiling)"

definition resolve_scratchpad_collection :: "pyval \<Rightarrow> string \<Rightarrow> config_error + string" where
  "resolve_scratchpad_collection source_config node_id =
     (case source_config of
        PDict d \<Rightarrow>
          (case dget d ''collection'' of
             PStr c \<Rightarrow>
               if c = [] then
                 Inl (IterationSourceError (''ai_agent node '' @ node_id
                   @ '': iteration.source_config.collection must be a non-empty string''))
               else Inr c
           | _ \<Rightarrow> Inl (IterationSourceError (''ai_agent node '' @ node_id
                   @ '': iteration.source_config.collection must be a non-empty string'')))
      | _ \<Rightarrow> Inl (IterationSourceError (''ai_agent node '' @ node_id
                   @ '': iteration.source_config must be an object when source is ''
                   @ str_repr ''scratchpad'')))"

section \<open>Schemas\<close>

text \<open>
  \<open>ftype not in CARRY_PRIMITIVE_TYPES\<close> looks the type up in a frozen set: a list or a
  dictionary there cannot be hashed, which is a \<open>TypeError\<close> of its own.
\<close>

definition validate_carry_field :: "pyrt \<Rightarrow> string \<Rightarrow> pyval \<Rightarrow> config_error + pydict" where
  "validate_carry_field rt node_id field =
     (case field of
        PDict d \<Rightarrow>
          (case dget d ''name'' of
             PStr name \<Rightarrow>
               if name = [] then
                 Inl (CarrySchemaError (''ai_agent node '' @ node_id
                   @ '': carry_schema entry missing '' @ str_repr ''name''))
               else
                 (let ftype = dget_or d ''type'' (PStr ''string'')
                  in if is_list ftype \<or> is_dict ftype then
                       Inl (UnhashableError (type_name ftype))
                     else if \<exists>t \<in> set CARRY_PRIMITIVE_TYPES. ftype = PStr t then Inr d
                     else Inl (CarrySchemaError (''ai_agent node '' @ node_id
                       @ '': carry_schema field '' @ str_repr name
                       @ '' has unsupported type '' @ py_repr rt ftype)))
           | _ \<Rightarrow> Inl (CarrySchemaError (''ai_agent node '' @ node_id
                   @ '': carry_schema entry missing '' @ str_repr ''name'')))
      | _ \<Rightarrow> Inl (CarrySchemaError (''ai_agent node '' @ node_id
                   @ '': carry_schema entries must be objects'')))"

definition validate_carry_schema :: "pyrt \<Rightarrow> pyval \<Rightarrow> string \<Rightarrow> config_error + pydict list" where
  "validate_carry_schema rt carry_schema node_id =
     (case carry_schema of
        PList flds \<Rightarrow> mapR (validate_carry_field rt node_id) flds
      | _ \<Rightarrow> Inl (CarrySchemaError (''ai_agent node '' @ node_id
               @ '': iteration.carry_schema must be a list'')))"

definition resolve_stash_record_schema ::
  "pyrt \<Rightarrow> pyval \<Rightarrow> string \<Rightarrow> config_error + pydict list option" where
  "resolve_stash_record_schema rt stash_cfg node_id =
     (case stash_cfg of
        PDict d \<Rightarrow>
          (let raw_schema = dget d ''record_schema''
           in if \<not> truthy raw_schema then Inr None
              else (case validate_carry_schema rt raw_schema node_id of
                      Inl (CarrySchemaError m) \<Rightarrow>
                        Inl (CarrySchemaError
                          (str_replace ''carry_schema'' ''stash.record_schema'' m))
                    | Inl e \<Rightarrow> Inl e
                    | Inr s \<Rightarrow> Inr (Some s)))
      | _ \<Rightarrow> Inr None)"

definition stash_field_line :: "pyrt \<Rightarrow> pydict \<Rightarrow> string" where
  "stash_field_line rt field =
     (let name = py_str rt (dget_or field ''name'' (PStr ''?''));
          type_text = py_str rt (dget_or field ''type'' (PStr ''?''));
          default_value = dget field ''default'';
          flags = [if truthy (dget field ''nullable'') then ''nullable'' else ''required'']
            @ (if default_value = PNone \<or> default_value = PStr [] then []
               else [''default='' @ py_repr rt default_value])
      in ''- '' @ name @ '': '' @ type_text @ '' ('' @ join_with '', '' flags @ '')'')"

definition format_stash_schema_addendum :: "pyrt \<Rightarrow> pydict list option \<Rightarrow> string option" where
  "format_stash_schema_addendum rt record_schema =
     (case record_schema of
        None \<Rightarrow> None
      | Some [] \<Rightarrow> None
      | Some flds \<Rightarrow>
          Some (join_with [CHR 0x0A]
            ([''# Stash records contract (this node only)'', [],
              ''When you call `stash_records` on this node, every record in the '' @
              ''`records` array must match this exact shape:'', []]
             @ map (stash_field_line rt) flds
             @ [[], ''Missing required flds, null where not allowed, or wrong types '' @
                ''come back as a tool error pointing at the offending record. Fix '' @
                ''just that record and retry the affected chunk.''])))"

section \<open>What the settings resolve to\<close>

text \<open>
  Whatever the stored setting is, a node iterates at least once and at most
  \<open>ITERATION_HARD_CEILING\<close> times, and a positive integer up to the ceiling is taken as it
  is.
\<close>

theorem resolve_max_iterations_bounds:
  "1 \<le> resolve_max_iterations raw \<and> resolve_max_iterations raw \<le> ITERATION_HARD_CEILING \<and>
   (\<forall>i. raw = PInt i \<and> 1 \<le> i \<and> i \<le> ITERATION_HARD_CEILING \<longrightarrow> resolve_max_iterations raw = i)"
  by (auto simp: resolve_max_iterations_def positive_int_or_def ITERATION_HARD_CEILING_def
        DEFAULT_MAX_ITERATIONS_def split: pyval.splits)

theorem resolve_max_iterations_bounds_witness:
  "resolve_max_iterations (PInt 7) = 7 \<and> 1 \<le> resolve_max_iterations (PInt 5000)
   \<and> resolve_max_iterations (PInt 5000) \<le> 200"
  using resolve_max_iterations_bounds [of "PInt 7"] resolve_max_iterations_bounds [of "PInt 5000"]
  by (simp add: ITERATION_HARD_CEILING_def)

lemma resolve_iteration_concurrency_bounds:
  "1 \<le> resolve_iteration_concurrency limit raw \<and>
   resolve_iteration_concurrency limit raw \<le> max 1 limit"
  by (auto simp: resolve_iteration_concurrency_def positive_int_or_def Let_def
        DEFAULT_ITERATION_CONCURRENCY_def split: pyval.splits)

text \<open>A field of a schema is well formed: an object with a name and a supported type.\<close>

definition carry_field_ok :: "pyval \<Rightarrow> bool" where
  "carry_field_ok field =
     (case field of
        PDict d \<Rightarrow>
          (case dget d ''name'' of PStr name \<Rightarrow> name \<noteq> [] | _ \<Rightarrow> False) \<and>
          (case dget_or d ''type'' (PStr ''string'') of
             PStr t \<Rightarrow> t \<in> set CARRY_PRIMITIVE_TYPES | _ \<Rightarrow> False)
      | _ \<Rightarrow> False)"

lemma validate_carry_field_iff:
  "validate_carry_field rt node_id field = Inr d \<longleftrightarrow> field = PDict d \<and> carry_field_ok field"
  by (auto simp: validate_carry_field_def carry_field_ok_def Let_def split: pyval.splits)

lemma mapR_validate_iff:
  "mapR (validate_carry_field rt node_id) flds = Inr ds \<longleftrightarrow>
   flds = map PDict ds \<and> (\<forall>f \<in> set flds. carry_field_ok f)"
proof (induction flds arbitrary: ds)
  case Nil
  then show ?case by auto
next
  case (Cons f flds)
  show ?case
  proof (cases "validate_carry_field rt node_id f")
    case (Inl e)
    have "\<not> (\<exists>d. f = PDict d \<and> carry_field_ok f)"
      using Inl validate_carry_field_iff [of rt node_id f] by auto
    with Inl show ?thesis by (auto simp: Cons_eq_map_conv)
  next
    case (Inr d)
    then have "f = PDict d" "carry_field_ok f" using validate_carry_field_iff by auto
    with Inr Cons.IH show ?thesis by (auto split: sum.splits simp: Cons_eq_map_conv)
  qed
qed

text \<open>
  Validation of a carry schema succeeds exactly on a list of objects that
  each have a non-empty name and a supported type (a string when the type is left out), and
  then returns the same flds in the same order.
\<close>

theorem validate_carry_schema_iff:
  "validate_carry_schema rt schema node_id = Inr flds \<longleftrightarrow>
   schema = PList (map PDict flds) \<and> list_all (\<lambda>d. carry_field_ok (PDict d)) flds"
  by (cases schema)
    (auto simp: validate_carry_schema_def mapR_validate_iff list_all_iff)

lemma validate_carry_schema_names:
  assumes "validate_carry_schema rt schema node_id = Inr flds" and "d \<in> set flds"
  shows "\<exists>n. dget d ''name'' = PStr n \<and> n \<noteq> []"
proof -
  from assms have "carry_field_ok (PDict d)"
    by (cases schema) (auto simp: validate_carry_schema_def mapR_validate_iff)
  then show ?thesis by (auto simp: carry_field_ok_def split: pyval.splits)
qed

end
