(* ===== verification/Registries.thy ===== *)
theory Registries
  imports IterationConfig
begin

text \<open>
  The in-process registries: system tools (luna_core/mcp/system_tools/registry.py), dedup
  checkers (luna_core/dedup/registry.py) and context sources
  (luna_core/services/context_sources.py).  A registry is a dictionary from names to
  entries.  What the engine relies on is one interface, the locale \<open>name_registry\<close>.
\<close>

section \<open>The interface\<close>

locale name_registry =
  fixes name_of :: "'a \<Rightarrow> string"
    and register :: "'r \<Rightarrow> 'a \<Rightarrow> 'e + 'r"
    and lookup :: "'r \<Rightarrow> string \<Rightarrow> 'a option"
    and list_entries :: "'r \<Rightarrow> 'a list"
    and wf :: "'r \<Rightarrow> bool"
  assumes lookup_register:
      "register r x = Inr r' \<Longrightarrow> lookup r (name_of x) = None \<Longrightarrow>
       lookup r' = (lookup r)(name_of x \<mapsto> x)"
    and register_present:
      "lookup r (name_of x) = Some y \<Longrightarrow> register r x = Inr r' \<Longrightarrow> r' = r"
    and register_fresh: "lookup r (name_of x) = None \<Longrightarrow> \<exists>r'. register r x = Inr r'"
    and lookup_name: "wf r \<Longrightarrow> lookup r n = Some x \<Longrightarrow> name_of x = n"
    and list_lookup: "wf r \<Longrightarrow> set (list_entries r) = {x. lookup r (name_of x) = Some x}"
    and wf_register: "wf r \<Longrightarrow> register r x = Inr r' \<Longrightarrow> wf r'"
begin

text \<open>A failed registration leaves the registry as it was.\<close>

definition attempt :: "'r \<Rightarrow> 'a \<Rightarrow> 'r" where
  "attempt r x = (case register r x of Inl _ \<Rightarrow> r | Inr r' \<Rightarrow> r')"

lemma attempt_keeps: "lookup r n = Some y \<Longrightarrow> lookup (attempt r x) n = Some y"
proof (cases "lookup r (name_of x)")
  case None
  assume y: "lookup r n = Some y"
  obtain r' where r': "register r x = Inr r'" using register_fresh [OF None] ..
  from None y have "n \<noteq> name_of x" by auto
  with lookup_register [OF r' None] r' y show ?thesis by (simp add: attempt_def)
next
  case (Some z)
  assume "lookup r n = Some y"
  with register_present [OF Some] show ?thesis by (auto simp: attempt_def split: sum.splits)
qed

lemma attempts_keep:
  "lookup r n = Some y \<Longrightarrow> lookup (foldl attempt r xs) n = Some y"
  by (induction xs arbitrary: r) (auto intro: attempt_keeps)

lemma attempt_wf: "wf r \<Longrightarrow> wf (attempt r x)"
  by (auto simp: attempt_def wf_register split: sum.splits)

lemma attempts_wf: "wf r \<Longrightarrow> wf (foldl attempt r xs)"
  by (induction xs arbitrary: r) (auto intro: attempt_wf)

lemma attempt_lookup: "\<exists>y. lookup (attempt r x) (name_of x) = Some y"
proof (cases "lookup r (name_of x)")
  case None
  obtain r' where "register r x = Inr r'" using register_fresh [OF None] ..
  with lookup_register [OF this None] show ?thesis by (simp add: attempt_def)
next
  case (Some z)
  then show ?thesis using attempt_keeps [OF Some] by blast
qed

text \<open>Of several registrations under one name, the first one stays.\<close>

lemma attempts_lookup_first:
  assumes "lookup r n = None"
  shows "lookup (foldl attempt r xs) n = List.find (\<lambda>x. name_of x = n) xs"
  using assms
proof (induction xs arbitrary: r)
  case Nil
  then show ?case by simp
next
  case (Cons x xs)
  show ?case
  proof (cases "name_of x = n")
    case True
    with Cons.prems obtain r' where r': "register r x = Inr r'" using register_fresh by blast
    with lookup_register [OF r'] True Cons.prems have "lookup (attempt r x) n = Some x"
      by (simp add: attempt_def)
    with attempts_keep [OF this] True show ?thesis by simp
  next
    case False
    have "lookup (attempt r x) n = None"
    proof (cases "lookup r (name_of x)")
      case None
      then obtain r' where r': "register r x = Inr r'" using register_fresh by blast
      with lookup_register [OF r' None] False Cons.prems show ?thesis by (simp add: attempt_def)
    next
      case (Some z)
      with register_present [OF Some] Cons.prems show ?thesis
        by (auto simp: attempt_def split: sum.splits)
    qed
    with Cons.IH False show ?thesis by simp
  qed
qed

end

section \<open>System tools\<close>

datatype tool_scope = Catalog | Context

record 'h system_tool =
  st_name :: string
  st_description :: string
  st_input_schema :: pydict
  st_handler :: 'h
  st_scope :: tool_scope
  st_terminal :: bool

type_synonym 'h tool_registry = "(string \<times> 'h system_tool) list"

fun scope_text :: "tool_scope \<Rightarrow> string" where
  "scope_text Catalog = ''catalog''"
| "scope_text Context = ''context''"

datatype registry_error = ValueError string | DuplicateSourceError string | UnknownSourceError string

definition register_tool ::
  "'h tool_registry \<Rightarrow> 'h system_tool \<Rightarrow> registry_error + 'h tool_registry" where
  "register_tool tools tool =
     (case map_of tools (st_name tool) of
        Some existing \<Rightarrow>
          Inl (ValueError (''system tool '' @ str_repr (st_name tool)
            @ '' already registered (existing scope='' @ str_repr (scope_text (st_scope existing))
            @ '', new scope='' @ str_repr (scope_text (st_scope tool)) @ '')''))
      | None \<Rightarrow> Inr (dset tools (st_name tool) tool))"

definition get_tool :: "'h tool_registry \<Rightarrow> string \<Rightarrow> 'h system_tool option" where
  "get_tool tools name = map_of tools name"

definition get_many_tools :: "'h tool_registry \<Rightarrow> string list \<Rightarrow> 'h system_tool list" where
  "get_many_tools tools names = List.map_filter (get_tool tools) names"

definition list_catalog :: "'h tool_registry \<Rightarrow> 'h system_tool list" where
  "list_catalog tools = filter (\<lambda>t. st_scope t = Catalog) (map snd tools)"

definition list_all_tools :: "'h tool_registry \<Rightarrow> 'h system_tool list" where
  "list_all_tools tools = map snd tools"

definition unregister_tool :: "'h tool_registry \<Rightarrow> string \<Rightarrow> 'h tool_registry" where
  "unregister_tool tools name = dpop tools name"

section \<open>Dedup checkers\<close>

record dedup_field_spec =
  fs_name :: string
  fs_type :: string
  fs_description :: string
  fs_optional :: bool

record dedup_verdict =
  dv_match_kind :: string
  dv_existing_id :: "string option"
  dv_reason :: string

record 'h dedup_checker =
  dc_name :: string
  dc_description :: string
  dc_required_fields :: "dedup_field_spec list"
  dc_handler :: 'h
  dc_label :: string

definition DEDUP_FIELD_PRIMITIVE_TYPES :: "string list" where
  "DEDUP_FIELD_PRIMITIVE_TYPES = [''string'', ''integer'', ''number'', ''boolean'', ''array'']"

text \<open>\<open>DedupFieldSpec.__post_init__\<close>.\<close>

definition make_field_spec ::
  "string \<Rightarrow> string \<Rightarrow> string \<Rightarrow> bool \<Rightarrow> registry_error + dedup_field_spec" where
  "make_field_spec name ftype description optional =
     (if name = [] then
        Inl (ValueError ''DedupFieldSpec.name must be a non-empty string'')
      else if ftype \<notin> set DEDUP_FIELD_PRIMITIVE_TYPES then
        Inl (ValueError (''DedupFieldSpec.type must be one of ''
          @ ''['array', 'boolean', 'integer', 'number', 'string']; got '' @ str_repr ftype))
      else Inr \<lparr>fs_name = name, fs_type = ftype, fs_description = description,
                fs_optional = optional\<rparr>)"

definition display_label :: "'h dedup_checker \<Rightarrow> string" where
  "display_label c = (if dc_label c \<noteq> [] then dc_label c else dc_name c)"

type_synonym 'h checker_registry = "(string \<times> 'h dedup_checker) list"

definition register_checker ::
  "'h checker_registry \<Rightarrow> 'h dedup_checker \<Rightarrow> registry_error + 'h checker_registry" where
  "register_checker checkers checker =
     (case map_of checkers (dc_name checker) of
        Some existing \<Rightarrow>
          Inl (ValueError (''dedup checker '' @ str_repr (dc_name checker)
            @ '' already registered (existing label='' @ str_repr (display_label existing) @ '')''))
      | None \<Rightarrow> Inr (dset checkers (dc_name checker) checker))"

definition get_checker :: "'h checker_registry \<Rightarrow> string \<Rightarrow> 'h dedup_checker option" where
  "get_checker checkers name = map_of checkers name"

definition list_all_checkers :: "'h checker_registry \<Rightarrow> 'h dedup_checker list" where
  "list_all_checkers checkers = map snd checkers"

section \<open>Context sources\<close>

text \<open>
  A loader is compared by identity (\<open>existing.loader is loader\<close>): the type of loaders is one
  of identities, and loading is an argument of the definitions that load.
\<close>

record 'l context_source =
  cs_name :: string
  cs_description :: string
  cs_loader :: 'l
  cs_schema :: pydict
  cs_id_implicit :: bool

type_synonym 'l source_registry = "(string \<times> 'l context_source) list"

definition register_context_source ::
  "'l source_registry \<Rightarrow> 'l context_source \<Rightarrow>
   registry_error + 'l source_registry \<times> 'l context_source" where
  "register_context_source reg source =
     (case map_of reg (cs_name source) of
        Some existing \<Rightarrow>
          if cs_loader existing = cs_loader source then Inr (reg, existing)
          else Inl (DuplicateSourceError (''context source '' @ str_repr (cs_name source)
                 @ '' already registered with a different loader''))
      | None \<Rightarrow> Inr (dset reg (cs_name source) source, source))"

definition get_context_source ::
  "'l source_registry \<Rightarrow> string \<Rightarrow> registry_error + 'l context_source" where
  "get_context_source reg name =
     (case map_of reg name of
        None \<Rightarrow> Inl (UnknownSourceError name)
      | Some source \<Rightarrow> Inr source)"

section \<open>The three registries implement the interface\<close>

definition named_wf :: "('a \<Rightarrow> string) \<Rightarrow> (string \<times> 'a) list \<Rightarrow> bool" where
  "named_wf f r = (distinct (map fst r) \<and> (\<forall>(k, x) \<in> set r. f x = k))"

lemma named_wf_lookup: "named_wf f r \<Longrightarrow> map_of r n = Some x \<Longrightarrow> f x = n"
  unfolding named_wf_def by (auto dest!: map_of_SomeD)

lemma named_wf_entries:
  "named_wf f r \<Longrightarrow> set (map snd r) = {x. map_of r (f x) = Some x}"
  unfolding named_wf_def by (auto dest!: map_of_SomeD intro!: map_of_is_SomeI rev_image_eqI)

lemma dset_fresh: "map_of r k = None \<Longrightarrow> dset r k x = r @ [(k, x)]"
  by (induction r) (auto split: if_splits)

lemma named_wf_dset:
  "named_wf f r \<Longrightarrow> map_of r (f x) = None \<Longrightarrow> named_wf f (dset r (f x) x)"
  unfolding named_wf_def by (simp add: dset_fresh map_of_eq_None_iff image_def)

lemmas registry_defs =
  register_tool_def get_tool_def list_all_tools_def
  register_checker_def get_checker_def list_all_checkers_def

interpretation tools: name_registry st_name register_tool get_tool list_all_tools
  "named_wf st_name"
proof (unfold_locales, goal_cases)
  case 4
  then show ?case by (simp add: get_tool_def named_wf_lookup)
next
  case 5
  then show ?case by (simp add: registry_defs named_wf_entries [simplified])
qed (auto simp: registry_defs fun_eq_iff named_wf_dset split: option.splits)

interpretation checkers: name_registry dc_name register_checker get_checker list_all_checkers
  "named_wf dc_name"
proof (unfold_locales, goal_cases)
  case 4
  then show ?case by (simp add: get_checker_def named_wf_lookup)
next
  case 5
  then show ?case by (simp add: registry_defs named_wf_entries [simplified])
qed (auto simp: registry_defs fun_eq_iff named_wf_dset split: option.splits)

definition source_register ::
  "'l source_registry \<Rightarrow> 'l context_source \<Rightarrow> registry_error + 'l source_registry" where
  "source_register reg source = map_sum id fst (register_context_source reg source)"

definition source_lookup :: "'l source_registry \<Rightarrow> string \<Rightarrow> 'l context_source option" where
  "source_lookup reg name = (case get_context_source reg name of Inl _ \<Rightarrow> None | Inr s \<Rightarrow> Some s)"

lemma source_lookup_map_of [simp]: "source_lookup reg = map_of reg"
  by (auto simp: source_lookup_def get_context_source_def fun_eq_iff split: option.splits)

interpretation sources: name_registry cs_name source_register source_lookup "map snd"
  "named_wf cs_name"
proof (unfold_locales, goal_cases)
  case 4
  then show ?case by (simp add: named_wf_lookup)
next
  case 5
  then show ?case by (simp add: named_wf_entries [simplified])
qed (auto simp: source_register_def register_context_source_def fun_eq_iff named_wf_dset
       split: option.splits if_splits)

text \<open>\<open>register_all\<close> is a host's start-up: registrations one after the other, failed ones ignored.\<close>

definition register_all_tools :: "'h tool_registry \<Rightarrow> 'h system_tool list \<Rightarrow> 'h tool_registry" where
  "register_all_tools =
     foldl (\<lambda>r t. case register_tool r t of Inl _ \<Rightarrow> r | Inr r' \<Rightarrow> r')"

lemma register_all_tools_eq: "register_all_tools = foldl tools.attempt"
  unfolding register_all_tools_def by (intro ext) (simp add: tools.attempt_def [abs_def])

text \<open>
  Starting from the empty registry, whatever registrations are attempted,
  looking a name up gives the first tool that was registered under it: a later registration
  of the same name never replaces or removes a tool, and a tool is only found under its own
  name.
\<close>

theorem register_tools_first_wins:
  "get_tool (register_all_tools [] ts) n = List.find (\<lambda>t. st_name t = n) ts"
  using tools.attempts_lookup_first [of "[]" n ts]
  by (simp add: get_tool_def register_all_tools_eq)

end
