(* ===== verification/FlowSchema.thy ===== *)
theory FlowSchema
  imports Actions Registries
begin

text \<open>
  Flow definitions (luna_core/schemas/flow.py) and the checks that need no database
  (luna_core/services/flow.py): validation of a trigger's inputs against the declared ones,
  ownership of schedule rules, and validation of the graph.

  Node types and operators are the texts the schema stores.
\<close>

record edge_condition =
  ec_field :: string
  ec_operator :: string
  ec_value :: pyval

record flow_node =
  fn_id :: string
  fn_type :: string
  fn_name :: string
  fn_config :: pydict

record flow_edge =
  fe_from :: string
  fe_to :: string
  fe_condition :: "edge_condition option"

record flow_input_def =
  fi_name :: string
  fi_type :: string
  fi_required :: bool
  fi_default :: pyval

record schedule_rule =
  sr_cron :: string
  sr_tz :: string
  sr_user_id :: "string option"
  sr_inputs :: pydict

record flow_trigger =
  ft_type :: string
  ft_cron :: "string option"
  ft_schedules :: "schedule_rule list"

record flow_definition =
  fd_entry_point :: string
  fd_nodes :: "flow_node list"
  fd_edges :: "flow_edge list"
  fd_inputs :: "flow_input_def list"
  fd_layout :: "(string \<times> rat \<times> rat) list"

section \<open>Validators of the schema\<close>

definition normalize_legacy_cron :: "flow_trigger \<Rightarrow> flow_trigger" where
  "normalize_legacy_cron t =
     (case ft_cron t of
        Some cron \<Rightarrow>
          if ft_type t = ''schedule'' \<and> ft_schedules t = [] \<and> cron \<noteq> [] then
            t\<lparr>ft_schedules := [\<lparr>sr_cron = cron, sr_tz = ''UTC'', sr_user_id = None,
                                   sr_inputs = []\<rparr>]\<rparr>
          else t
      | None \<Rightarrow> t)"

fun no_duplicate_input_names ::
  "string list \<Rightarrow> flow_input_def list \<Rightarrow> exn + unit" where
  "no_duplicate_input_names seen [] = Inr ()"
| "no_duplicate_input_names seen (spec # specs) =
     (if fi_name spec \<in> set seen then
        Inl (OtherError ''ValueError'' (''duplicate flow input name: '' @ str_repr (fi_name spec)))
      else no_duplicate_input_names (fi_name spec # seen) specs)"

fun insert_str :: "string \<Rightarrow> string list \<Rightarrow> string list" where
  "insert_str x [] = [x]"
| "insert_str x (y # ys) = (if str_less y x then y # insert_str x ys else x # y # ys)"

definition sort_strs :: "string list \<Rightarrow> string list" where
  "sort_strs xs = foldr insert_str xs []"

definition strs_repr :: "string list \<Rightarrow> string" where
  "strs_repr xs = ''['' @ join_with '', '' (map str_repr xs) @ '']''"

definition layout_keys_reference_nodes :: "flow_definition \<Rightarrow> exn + unit" where
  "layout_keys_reference_nodes d =
     (let stray = filter (\<lambda>nid. nid \<notin> fn_id ` set (fd_nodes d)) (map fst (fd_layout d))
      in if stray \<noteq> [] then
           Inl (OtherError ''ValueError'' (''layout has positions for unknown nodes: ''
             @ strs_repr (sort_strs stray)))
         else Inr ())"

lemma no_duplicate_input_names_iff:
  "no_duplicate_input_names seen specs = Inr () \<longleftrightarrow>
     distinct (map fi_name specs) \<and> set (map fi_name specs) \<inter> set seen = {}"
  by (induction seen specs rule: no_duplicate_input_names.induct) auto

lemma set_sort_strs [simp]: "set (sort_strs xs) = set xs"
proof -
  have "set (insert_str x ys) = insert x (set ys)" for x ys by (induction ys) auto
  then show ?thesis by (induction xs) (auto simp: sort_strs_def)
qed

section \<open>Inputs of a run\<close>

definition coerce_input_value :: "pyval \<Rightarrow> string \<Rightarrow> exn + pyval" where
  "coerce_input_value v target_type =
     (let mismatch = (\<lambda>t. Inl (OtherError ''ValueError''
                        (''expected '' @ t @ '', got '' @ type_name v)))
      in if v = PNone then Inr PNone
         else if target_type = ''string'' then
           (if \<not> is_str v then mismatch ''string'' else Inr v)
         else if target_type = ''integer'' then
           (if is_bool v \<or> \<not> is_int v then mismatch ''integer'' else Inr v)
         else if target_type = ''number'' then
           (if is_bool v \<or> \<not> (is_int v \<or> is_float v) then mismatch ''number'' else Inr v)
         else if target_type = ''boolean'' then
           (if \<not> is_bool v then mismatch ''boolean'' else Inr v)
         else if target_type = ''object'' then
           (if \<not> is_dict v then mismatch ''object'' else Inr v)
         else if target_type = ''array'' then
           (if \<not> is_list v then mismatch ''array'' else Inr v)
         else Inl (OtherError ''ValueError'' (''unsupported input type: '' @ target_type)))"

definition unknown_inputs :: "flow_input_def list \<Rightarrow> pydict \<Rightarrow> (string \<times> string) list" where
  "unknown_inputs inputs payload =
     map (\<lambda>key. (key, ''unknown input''))
       (filter (\<lambda>key. key \<notin> fi_name ` set inputs) (map fst payload))"

fun resolve_specs ::
  "flow_input_def list \<Rightarrow> pydict \<Rightarrow> (string \<times> string) list \<Rightarrow> pydict
   \<Rightarrow> (string \<times> string) list \<times> pydict" where
  "resolve_specs [] payload errors resolved = (errors, resolved)"
| "resolve_specs (spec # specs) payload errors resolved =
     (case map_of payload (fi_name spec) of
        Some v \<Rightarrow>
          (case coerce_input_value v (fi_type spec) of
             Inl e \<Rightarrow> resolve_specs specs payload (dset errors (fi_name spec) (exn_text e)) resolved
           | Inr c \<Rightarrow> resolve_specs specs payload errors (dset resolved (fi_name spec) c))
      | None \<Rightarrow>
          if fi_required spec then
            resolve_specs specs payload
              (dset errors (fi_name spec) ''required input is missing'') resolved
          else if fi_default spec \<noteq> PNone then
            resolve_specs specs payload errors (dset resolved (fi_name spec) (fi_default spec))
          else resolve_specs specs payload errors resolved)"

text \<open>\<open>Inl\<close> is \<open>FlowInputValidationError\<close> with its map from fields to messages.\<close>

definition validate_flow_inputs ::
  "flow_input_def list \<Rightarrow> pydict \<Rightarrow> (string \<times> string) list + pydict" where
  "validate_flow_inputs inputs payload =
     (let (errors, resolved) = resolve_specs inputs payload (unknown_inputs inputs payload) []
      in if errors \<noteq> [] then Inl errors else Inr resolved)"

section \<open>Ownership of schedule rules\<close>

text \<open>
  Stored definitions are JSON: \<open>definition.get("trigger") or {}\<close> and \<open>.get("schedules") or []\<close>.
  A trigger or a list of rules of another shape is an exception of the source, which does
  not arise for definitions that passed the schema; they read as empty here.
\<close>

definition sub_dict :: "pydict \<Rightarrow> string \<Rightarrow> pydict" where
  "sub_dict d k = (case dget d k of PDict t \<Rightarrow> t | _ \<Rightarrow> [])"

definition sub_list :: "pydict \<Rightarrow> string \<Rightarrow> pyval list" where
  "sub_list d k = (case dget d k of PList xs \<Rightarrow> xs | _ \<Rightarrow> [])"

definition rule_list :: "pydict \<Rightarrow> pyval list" where
  "rule_list def = sub_list (sub_dict def ''trigger'') ''schedules''"

definition stamp_rule :: "string \<Rightarrow> pyval \<Rightarrow> pyval" where
  "stamp_rule user r =
     (case r of PDict d \<Rightarrow> PDict (dset d ''user_id'' (PStr user)) | v \<Rightarrow> v)"

definition stamp_schedule_owner :: "pydict \<Rightarrow> string \<Rightarrow> pydict" where
  "stamp_schedule_owner def user =
     (if rule_list def = [] then def
      else dset def ''trigger'' (PDict (dset (sub_dict def ''trigger'') ''schedules''
             (PList (map (stamp_rule user) (rule_list def))))))"

definition owned_by :: "string \<Rightarrow> pyval \<Rightarrow> bool" where
  "owned_by user r = (case r of PDict d \<Rightarrow> dget d ''user_id'' = PStr user | _ \<Rightarrow> False)"

definition foreign_to :: "string \<Rightarrow> pyval \<Rightarrow> bool" where
  "foreign_to user r =
     (case r of
        PDict d \<Rightarrow> truthy (dget d ''user_id'') \<and> \<not> py_eq (dget d ''user_id'') (PStr user)
      | _ \<Rightarrow> False)"

definition definition_for_user :: "pydict \<Rightarrow> string \<Rightarrow> pydict" where
  "definition_for_user def user =
     (case dget def ''trigger'' of
        PDict t \<Rightarrow>
          dset def ''trigger'' (PDict (dset t ''schedules''
            (PList (filter (owned_by user) (sub_list t ''schedules'')))))
      | _ \<Rightarrow> def)"

definition merge_user_schedules :: "pydict \<Rightarrow> pydict \<Rightarrow> string \<Rightarrow> pydict" where
  "merge_user_schedules existing incoming user =
     dset incoming ''trigger'' (PDict (dset (sub_dict incoming ''trigger'') ''schedules''
       (PList (rule_list incoming @ filter (foreign_to user) (rule_list existing)))))"

text \<open>The definition that \<open>update_flow\<close> stores.\<close>

definition updated_definition :: "pydict \<Rightarrow> pydict \<Rightarrow> string \<Rightarrow> pydict" where
  "updated_definition existing incoming user =
     merge_user_schedules existing (stamp_schedule_owner incoming user) user"

section \<open>Validation of the graph\<close>

fun duplicate_ids :: "string list \<Rightarrow> flow_node list \<Rightarrow> string list" where
  "duplicate_ids seen [] = []"
| "duplicate_ids seen (n # ns) =
     (if fn_id n \<in> set seen then fn_id n # duplicate_ids seen ns
      else duplicate_ids (fn_id n # seen) ns)"

definition edge_errors :: "string set \<Rightarrow> nat \<times> flow_edge \<Rightarrow> string list" where
  "edge_errors node_ids entry =
     (case entry of (i, edge) \<Rightarrow>
        (if fe_from edge \<notin> node_ids then
           [''edge['' @ nat_str i @ ''].from '' @ str_repr (fe_from edge)
              @ '' references unknown node''] else [])
        @ (if fe_to edge \<notin> node_ids then
           [''edge['' @ nat_str i @ ''].to '' @ str_repr (fe_to edge)
              @ '' references unknown node''] else []))"

definition str_items :: "pyval list \<Rightarrow> string list" where
  "str_items xs = List.map_filter (\<lambda>v. case v of PStr s \<Rightarrow> Some s | _ \<Rightarrow> None) xs"

definition inherit_ref_errors :: "string set \<Rightarrow> flow_node \<Rightarrow> string \<Rightarrow> string list" where
  "inherit_ref_errors node_ids node ref =
     (if ref = fn_id node then
        [''node '' @ str_repr (fn_id node) @ '': cannot inherit from itself'']
      else if ref \<notin> node_ids then
        [''node '' @ str_repr (fn_id node)
           @ '': inherit_history_from references unknown node '' @ str_repr ref]
      else [])"

definition inherit_errors :: "string set \<Rightarrow> flow_node \<Rightarrow> string list" where
  "inherit_errors node_ids node =
     (case dget (fn_config node) ''inherit_history_from'' of
        PNone \<Rightarrow> []
      | PList xs \<Rightarrow>
          if \<not> list_all is_str xs then
            [''node '' @ str_repr (fn_id node)
               @ '': inherit_history_from must be a list of node ids'']
          else concat (map (inherit_ref_errors node_ids node) (str_items xs))
      | _ \<Rightarrow> [''node '' @ str_repr (fn_id node)
               @ '': inherit_history_from must be a list of node ids''])"

definition node_errors :: "string set \<Rightarrow> flow_node \<Rightarrow> string list" where
  "node_errors node_ids node =
     (if fn_type node = ''action'' then
        (if \<not> truthy (dget (fn_config node) ''operation_id'') then
           [''node '' @ str_repr (fn_id node) @ '' (action) missing config.operation_id''] else [])
      else if fn_type node = ''ai_agent'' then
        (if \<not> truthy (dget (fn_config node) ''agent_id'') then
           [''node '' @ str_repr (fn_id node) @ '' (ai_agent) missing config.agent_id''] else [])
        @ inherit_errors node_ids node
      else [])"

definition definition_errors :: "flow_definition \<Rightarrow> string list" where
  "definition_errors d =
     (let node_ids = fn_id ` set (fd_nodes d);
          duplicates = duplicate_ids [] (fd_nodes d)
      in (if duplicates \<noteq> [] then
            [''duplicate node ids: '' @ strs_repr (sort_strs (remdups duplicates))] else [])
         @ (if fd_entry_point d \<notin> node_ids then
              [''entry_point '' @ str_repr (fd_entry_point d) @ '' does not match any node id'']
            else [])
         @ concat (map (edge_errors node_ids) (zip [0..<length (fd_edges d)] (fd_edges d)))
         @ concat (map (node_errors node_ids) (fd_nodes d)))"

definition validate_definition :: "flow_definition \<Rightarrow> string list + unit" where
  "validate_definition d =
     (let errors = definition_errors d in if errors \<noteq> [] then Inl errors else Inr ())"

section \<open>Which inputs are accepted\<close>

text \<open>The input types a value has; \<open>None\<close> is accepted for every type.\<close>

fun has_input_type :: "pyval \<Rightarrow> string \<Rightarrow> bool" where
  "has_input_type PNone t = True"
| "has_input_type (PBool _) t = (t = ''boolean'')"
| "has_input_type (PInt _) t = (t = ''integer'' \<or> t = ''number'')"
| "has_input_type (PFloat _) t = (t = ''number'')"
| "has_input_type (PStr _) t = (t = ''string'')"
| "has_input_type (PList _) t = (t = ''array'')"
| "has_input_type (PDict _) t = (t = ''object'')"
| "has_input_type (PObj _) t = False"

definition spec_accepts :: "pydict \<Rightarrow> flow_input_def \<Rightarrow> bool" where
  "spec_accepts payload spec =
     (case map_of payload (fi_name spec) of
        Some v \<Rightarrow> has_input_type v (fi_type spec)
      | None \<Rightarrow> \<not> fi_required spec)"

definition spec_value :: "pydict \<Rightarrow> flow_input_def \<Rightarrow> (string \<times> pyval) option" where
  "spec_value payload spec =
     (case map_of payload (fi_name spec) of
        Some v \<Rightarrow> Some (fi_name spec, v)
      | None \<Rightarrow> if fi_default spec \<noteq> PNone then Some (fi_name spec, fi_default spec) else None)"

lemma coerce_input_value_Inr:
  "coerce_input_value v t = Inr c \<longleftrightarrow> has_input_type v t \<and> c = v"
  by (cases v; simp add: coerce_input_value_def Let_def eq_commute) 

lemma coerce_input_value_Inl:
  "(\<exists>e. coerce_input_value v t = Inl e) \<longleftrightarrow> \<not> has_input_type v t"
  by (metis coerce_input_value_Inr sum.exhaust sum.distinct(1))

lemma dset_not_Nil [simp]: "dset d k v \<noteq> []"
  by (cases d) (auto split: prod.splits)

lemma resolve_specs_errors:
  "errors \<noteq> [] \<Longrightarrow> fst (resolve_specs specs payload errors resolved) \<noteq> []"
  by (induction specs payload errors resolved rule: resolve_specs.induct)
    (auto split: option.splits sum.splits)

lemma resolve_specs_ok:
  assumes "distinct (map fi_name specs)" and "\<forall>spec \<in> set specs. \<not> dhas resolved (fi_name spec)"
  shows "resolve_specs specs payload [] resolved = ([], out) \<longleftrightarrow>
    (\<forall>spec \<in> set specs. spec_accepts payload spec) \<and>
    out = resolved @ List.map_filter (spec_value payload) specs"
  using assms
proof (induction specs arbitrary: resolved)
  case Nil
  then show ?case by (auto simp: map_filter_simps)
next
  case (Cons spec specs)
  note no_errors = resolve_specs_errors [of _ specs payload resolved, OF dset_not_Nil]
  have fresh: "dset resolved (fi_name spec) v = resolved @ [(fi_name spec, v)]" for v
    using Cons.prems(2) by (simp add: dset_fresh dhas_def)
  have rest: "\<forall>s \<in> set specs. \<not> dhas (dset resolved (fi_name spec) v) (fi_name s)" for v
    using Cons.prems by (auto simp: image_iff)
  have IH: "resolve_specs specs payload [] (dset resolved (fi_name spec) v) = ([], out) \<longleftrightarrow>
      (\<forall>s \<in> set specs. spec_accepts payload s) \<and>
      out = (resolved @ [(fi_name spec, v)]) @ List.map_filter (spec_value payload) specs" for v
    using Cons.IH [OF _ rest] Cons.prems(1) fresh by simp
  have IH0: "resolve_specs specs payload [] resolved = ([], out) \<longleftrightarrow>
      (\<forall>s \<in> set specs. spec_accepts payload s) \<and>
      out = resolved @ List.map_filter (spec_value payload) specs"
    using Cons by simp
  show ?case
  proof (cases "map_of payload (fi_name spec)")
    case None
    show ?thesis
    proof (cases "fi_required spec")
      case True
      have "fst (resolve_specs specs payload
          (dset [] (fi_name spec) ''required input is missing'') resolved) \<noteq> []"
        by (rule no_errors)
      with None True show ?thesis by (auto simp: spec_accepts_def)
    next
      case False
      with None have "spec_accepts payload spec"
        "spec_value payload spec =
          (if fi_default spec \<noteq> PNone then Some (fi_name spec, fi_default spec) else None)"
        by (simp_all add: spec_accepts_def spec_value_def)
      with None False IH IH0 show ?thesis by (simp add: map_filter_simps(1))
    qed
  next
    case (Some v)
    show ?thesis
    proof (cases "has_input_type v (fi_type spec)")
      case True
      then have "coerce_input_value v (fi_type spec) = Inr v" by (simp add: coerce_input_value_Inr)
      moreover from Some True have "spec_accepts payload spec"
        "spec_value payload spec = Some (fi_name spec, v)"
        by (simp_all add: spec_accepts_def spec_value_def)
      ultimately show ?thesis using Some IH by (simp add: map_filter_simps(1))
    next
      case False
      then obtain e where e: "coerce_input_value v (fi_type spec) = Inl e"
        using coerce_input_value_Inl by blast
      have "fst (resolve_specs specs payload (dset [] (fi_name spec) (exn_text e)) resolved) \<noteq> []"
        by (rule no_errors)
      with Some False e show ?thesis by (auto simp: spec_accepts_def)
    qed
  qed
qed

text \<open>
  Validating the inputs of a run succeeds exactly when every supplied input
  is declared, every supplied value has the declared type (a boolean is no number) and no
  required input is missing; the result holds, in declaration order, the supplied values
  unchanged and the defaults of the others.
\<close>

theorem validate_flow_inputs_iff:
  assumes "distinct (map fi_name inputs)"
  shows "validate_flow_inputs inputs payload = Inr resolved \<longleftrightarrow>
    fst ` set payload \<subseteq> fi_name ` set inputs \<and>
    list_all (spec_accepts payload) inputs \<and>
    resolved = List.map_filter (spec_value payload) inputs"
proof (cases "fst ` set payload \<subseteq> fi_name ` set inputs")
  case True
  then have "unknown_inputs inputs payload = []" by (auto simp: unknown_inputs_def filter_empty_conv)
  with True resolve_specs_ok [OF assms, of "[]" payload] show ?thesis
    by (cases "resolve_specs inputs payload [] []")
      (auto simp: validate_flow_inputs_def Let_def dhas_def list_all_iff)
next
  case False
  then have "unknown_inputs inputs payload \<noteq> []"
    by (auto simp: unknown_inputs_def filter_empty_conv)
  then have "fst (resolve_specs inputs payload (unknown_inputs inputs payload) []) \<noteq> []"
    by (rule resolve_specs_errors)
  with False show ?thesis by (auto simp: validate_flow_inputs_def split_beta Let_def)
qed

definition sample_inputs :: "flow_input_def list" where
  "sample_inputs =
     [\<lparr>fi_name = ''count'', fi_type = ''integer'', fi_required = True, fi_default = PNone\<rparr>,
      \<lparr>fi_name = ''lang'', fi_type = ''string'', fi_required = False, fi_default = PStr ''en''\<rparr>]"

theorem validate_flow_inputs_iff_witness:
  "validate_flow_inputs sample_inputs [(''count'', PInt 3)]
     = Inr [(''count'', PInt 3), (''lang'', PStr ''en'')]"
proof -
  have ok: "distinct (map fi_name sample_inputs)"
    "fst ` set [(''count'', PInt 3)] \<subseteq> fi_name ` set sample_inputs"
    by (simp_all add: sample_inputs_def)
  have vals: "list_all (spec_accepts [(''count'', PInt 3)]) sample_inputs"
    "[(''count'', PInt 3), (''lang'', PStr ''en'')]
       = List.map_filter (spec_value [(''count'', PInt 3)]) sample_inputs"
    by (simp_all add: sample_inputs_def spec_accepts_def spec_value_def map_filter_simps)
  show ?thesis
    by (rule iffD2 [OF validate_flow_inputs_iff [OF ok(1)] conjI [OF ok(2) conjI [OF vals]]])
qed

section \<open>Schedules of several users\<close>

lemma rule_list_updated:
  "rule_list (updated_definition existing incoming user) =
     map (stamp_rule user) (rule_list incoming) @ filter (foreign_to user) (rule_list existing)"
  by (auto simp: rule_list_def updated_definition_def merge_user_schedules_def
      stamp_schedule_owner_def sub_dict_def sub_list_def)

lemma owned_stamped: "owned_by v (stamp_rule u r) \<longleftrightarrow> is_dict r \<and> v = u"
  by (cases r) (auto simp: owned_by_def stamp_rule_def)

lemma rule_list_for_user:
  "rule_list (definition_for_user def user) = filter (owned_by user) (rule_list def)"
  by (cases "dget def ''trigger''")
    (simp_all add: rule_list_def definition_for_user_def sub_dict_def sub_list_def [of "[]"]
      sub_list_def [of "dset _ _ _"] dget_def [of "[]"])

lemma owned_foreign: "owned_by v r \<Longrightarrow> v \<noteq> [] \<Longrightarrow> foreign_to u r \<longleftrightarrow> v \<noteq> u"
  by (cases r) (auto simp: owned_by_def foreign_to_def)

text \<open>
  When a user saves a flow, the schedule rules every other user sees are the
  ones they saw before, whatever the saved definition claims about owners, and the user sees
  exactly the saved rules, stamped as theirs.
\<close>

theorem update_keeps_other_schedules:
  assumes "other \<noteq> []" and "other \<noteq> user" and "user \<noteq> []"
  shows "rule_list (definition_for_user (updated_definition existing incoming user) other) =
      rule_list (definition_for_user existing other) \<and>
    rule_list (definition_for_user (updated_definition existing incoming user) user) =
      map (stamp_rule user) (filter is_dict (rule_list incoming))"
proof -
  have "filter (owned_by other) (filter (foreign_to user) rs) = filter (owned_by other) rs" for rs
    using owned_foreign [OF _ assms(1), of _ user] assms(2) by (induction rs) auto
  moreover have "filter (owned_by user) (filter (foreign_to user) rs) = []" for rs
    using owned_foreign [OF _ assms(3), of _ user] by (induction rs) auto
  ultimately show ?thesis using assms(2)
    by (simp add: rule_list_for_user rule_list_updated filter_map comp_def owned_stamped
        del: is_dict_iff)
qed

theorem update_keeps_other_schedules_witness:
  "rule_list (definition_for_user (updated_definition
       [(''trigger'', PDict [(''schedules'', PList [PDict [(''cron'', PStr ''a''),
          (''user_id'', PStr ''u2'')]])])]
       [(''trigger'', PDict [(''schedules'', PList [PDict [(''cron'', PStr ''b''),
          (''user_id'', PStr ''u2'')]])])] ''u1'') ''u2'')
     = [PDict [(''cron'', PStr ''a''), (''user_id'', PStr ''u2'')]]"
  (is "rule_list (definition_for_user (updated_definition ?old ?new _) _) = _")
proof -
  have "rule_list (definition_for_user (updated_definition ?old ?new ''u1'') ''u2'')
      = rule_list (definition_for_user ?old ''u2'')"
    by (rule update_keeps_other_schedules [THEN conjunct1]) simp_all
  also have "\<dots> = [PDict [(''cron'', PStr ''a''), (''user_id'', PStr ''u2'')]]" by code_simp
  finally show ?thesis .
qed

section \<open>What a valid definition guarantees\<close>

lemma duplicate_ids_Nil:
  "duplicate_ids seen ns = [] \<longleftrightarrow>
     distinct (map fn_id ns) \<and> fn_id ` set ns \<inter> set seen = {}"
  by (induction seen ns rule: duplicate_ids.induct) auto

definition inherit_ok :: "string set \<Rightarrow> flow_node \<Rightarrow> bool" where
  "inherit_ok node_ids node =
     (case dget (fn_config node) ''inherit_history_from'' of
        PNone \<Rightarrow> True
      | PList xs \<Rightarrow>
          list_all is_str xs \<and> list_all (\<lambda>r. r \<noteq> fn_id node \<and> r \<in> node_ids) (str_items xs)
      | _ \<Rightarrow> False)"

definition node_ok :: "string set \<Rightarrow> flow_node \<Rightarrow> bool" where
  "node_ok node_ids node =
     ((fn_type node = ''action'' \<longrightarrow> truthy (dget (fn_config node) ''operation_id'')) \<and>
      (fn_type node = ''ai_agent'' \<longrightarrow>
         truthy (dget (fn_config node) ''agent_id'') \<and> inherit_ok node_ids node))"

lemma inherit_ref_errors_Nil:
  "inherit_ref_errors node_ids node ref = [] \<longleftrightarrow> ref \<noteq> fn_id node \<and> ref \<in> node_ids"
  by (simp add: inherit_ref_errors_def)

lemma inherit_errors_Nil: "inherit_errors node_ids node = [] \<longleftrightarrow> inherit_ok node_ids node"
proof (cases "dget (fn_config node) ''inherit_history_from''")
  case (PList xs)
  show ?thesis
  proof (cases "list_all is_str xs")
    case True
    then show ?thesis
      by (simp add: inherit_errors_def inherit_ok_def PList list_all_iff inherit_ref_errors_Nil
          del: is_str_iff)
  next
    case False
    then show ?thesis by (simp add: inherit_errors_def inherit_ok_def PList del: is_str_iff)
  qed
qed (simp_all add: inherit_errors_def inherit_ok_def)

lemma edge_errors_Nil:
  "edge_errors ids (i, e) = [] \<longleftrightarrow> fe_from e \<in> ids \<and> fe_to e \<in> ids"
  by (auto simp: edge_errors_def)

lemma node_errors_Nil: "node_errors node_ids node = [] \<longleftrightarrow> node_ok node_ids node"
  by (auto simp: node_errors_def node_ok_def inherit_errors_Nil)

lemma validate_definition_Inr:
  "validate_definition d = Inr () \<longleftrightarrow>
     distinct (map fn_id (fd_nodes d)) \<and>
     fd_entry_point d \<in> fn_id ` set (fd_nodes d) \<and>
     list_all (\<lambda>e. fe_from e \<in> fn_id ` set (fd_nodes d) \<and> fe_to e \<in> fn_id ` set (fd_nodes d))
       (fd_edges d) \<and>
     list_all (node_ok (fn_id ` set (fd_nodes d))) (fd_nodes d)"
proof -
  let ?es = "fd_edges d" and ?ids = "fn_id ` set (fd_nodes d)"
  have "concat (map (edge_errors ?ids) (zip [0..<length ?es] ?es)) = [] \<longleftrightarrow>
      (\<forall>p \<in> set (zip [0..<length ?es] ?es). edge_errors ?ids p = [])"
    by simp
  also have "\<dots> \<longleftrightarrow> list_all (\<lambda>e. fe_from e \<in> ?ids \<and> fe_to e \<in> ?ids) ?es"
    by (simp add: all_set_conv_all_nth list_all_length edge_errors_Nil)
  finally show ?thesis
    by (simp add: validate_definition_def definition_errors_def Let_def duplicate_ids_Nil
        node_errors_Nil list_all_iff del: concat_eq_Nil_conv) (auto simp: node_errors_Nil)
qed

text \<open>
  A definition passes validation exactly when its node ids are distinct, its
  entry point is a node, both ends of every edge are nodes, every action names an operation,
  every agent node names an agent, and what an agent inherits from are other nodes.
\<close>

theorem validate_definition_iff:
  "validate_definition d = Inr () \<longleftrightarrow>
     distinct (map fn_id (fd_nodes d)) \<and>
     fd_entry_point d \<in> fn_id ` set (fd_nodes d) \<and>
     list_all (\<lambda>e. fe_from e \<in> fn_id ` set (fd_nodes d) \<and> fe_to e \<in> fn_id ` set (fd_nodes d))
       (fd_edges d) \<and>
     list_all (node_ok (fn_id ` set (fd_nodes d))) (fd_nodes d)"
  by (rule validate_definition_Inr)

end
