(* ===== verification/NodeHistory.thy ===== *)
theory NodeHistory
  imports FlowSchema
begin

text \<open>
  The message history an agent node starts from (\<open>_load_history\<close> in
  luna_core/engine/nodes.py): which stored messages it sees, and the removal of tool calls
  without a result and results without a call.  Also the check of the nodes a node may
  inherit history from.

  Content blocks are JSON objects; a block that is no object is an \<open>AttributeError\<close> of the
  source that stored messages do not cause, and is passed through here.
\<close>

record agent_message =
  am_id :: string
  am_run :: string
  am_node_id :: string
  am_sequence :: int
  am_role :: string
  am_content :: "pyval list"
  am_partial :: bool
  am_thinking :: "string option"

section \<open>Tool pairs\<close>

definition block_type :: "pyval \<Rightarrow> pyval" where
  "block_type block = (case block of PDict d \<Rightarrow> dget d ''type'' | _ \<Rightarrow> PNone)"

definition block_field :: "pyval \<Rightarrow> string \<Rightarrow> pyval" where
  "block_field block k = (case block of PDict d \<Rightarrow> dget d k | _ \<Rightarrow> PNone)"

definition is_use :: "pyval \<Rightarrow> bool" where
  "is_use block = (block_type block = PStr ''tool_use'')"

definition is_result :: "pyval \<Rightarrow> bool" where
  "is_result block = (block_type block = PStr ''tool_result'')"

definition use_id :: "pyval \<Rightarrow> pyval" where
  "use_id block = block_field block ''id''"

definition result_id :: "pyval \<Rightarrow> pyval" where
  "result_id block = block_field block ''tool_use_id''"

definition collect_ids :: "(pyval \<Rightarrow> bool) \<Rightarrow> (pyval \<Rightarrow> pyval) \<Rightarrow> agent_message list \<Rightarrow> pyval list" where
  "collect_ids is_kind id_of rows =
     filter truthy (map id_of (filter is_kind (concat (map am_content rows))))"

definition valid_pair_ids :: "agent_message list \<Rightarrow> pyval list" where
  "valid_pair_ids rows =
     filter (\<lambda>i. i \<in> set (collect_ids is_result result_id rows)) (collect_ids is_use use_id rows)"

definition keep_block :: "pyval list \<Rightarrow> bool \<Rightarrow> bool \<Rightarrow> pyval \<Rightarrow> bool" where
  "keep_block pairs is_own include_tool_interactions block =
     (if is_use block then
        (is_own \<or> include_tool_interactions) \<and> use_id block \<in> set pairs
      else if is_result block then
        (is_own \<or> include_tool_interactions) \<and> result_id block \<in> set pairs
      else True)"

section \<open>Loading\<close>

definition own_partial :: "string \<Rightarrow> agent_message \<Rightarrow> bool" where
  "own_partial own m = (am_node_id m = own \<and> am_partial m)"

definition canonical_message :: "string \<Rightarrow> bool \<Rightarrow> pyval list \<Rightarrow> agent_message \<Rightarrow> pyval option" where
  "canonical_message own include_tool_interactions pairs m =
     (let blocks = filter (keep_block pairs (am_node_id m = own) include_tool_interactions)
                     (am_content m)
      in if blocks = [] then None
         else Some (PDict [(''role'', PStr (am_role m)), (''content'', PList blocks)]))"

definition canonical_history :: "string \<Rightarrow> bool \<Rightarrow> agent_message list \<Rightarrow> pyval list" where
  "canonical_history own include_tool_interactions rows =
     (let rows = filter (\<lambda>m. \<not> own_partial own m) rows
      in List.map_filter
           (canonical_message own include_tool_interactions (valid_pair_ids rows)) rows)"

text \<open>\<open>query\<close> selects the run's messages of the given nodes in sequence order.\<close>

definition load_history ::
  "(string list \<Rightarrow> ('w, agent_message list) act) \<Rightarrow> string \<Rightarrow> string list \<Rightarrow> bool \<Rightarrow> bool
   \<Rightarrow> ('w, pyval list) act" where
  "load_history query own inherited include_tool_interactions include_own =
     (let node_ids = (if include_own then own # inherited else inherited)
      in if node_ids = [] then returnA []
         else bindA (query node_ids) (\<lambda>rows.
                returnA (canonical_history own include_tool_interactions rows)))"

section \<open>Nodes to inherit from\<close>

definition index_of :: "string \<Rightarrow> flow_node list \<Rightarrow> nat option" where
  "index_of nid nodes =
     (case filter (\<lambda>i. fn_id (nodes ! i) = nid) [0..<length nodes] of
        [] \<Rightarrow> None | is \<Rightarrow> Some (last is))"

definition node_by_id :: "string \<Rightarrow> flow_node list \<Rightarrow> flow_node option" where
  "node_by_id nid nodes = map_option (\<lambda>i. nodes ! i) (index_of nid nodes)"

fun check_inheritable :: "flow_definition \<Rightarrow> string \<Rightarrow> string list \<Rightarrow> exn + unit" where
  "check_inheritable d own [] = Inr ()"
| "check_inheritable d own (nid # nids) =
     (let fail = (\<lambda>m. Inl (NodeExecutionError (''ai_agent node '' @ own @ '': '' @ m)))
      in if nid = own then fail ''cannot inherit from itself''
         else (case node_by_id nid (fd_nodes d) of
           None \<Rightarrow> fail (''inherit_history_from references unknown node '' @ str_repr nid)
         | Some ref \<Rightarrow>
             if fn_type ref \<noteq> ''ai_agent'' then
               fail (''inherit_history_from references '' @ str_repr nid @ '' which is type ''
                 @ str_repr (fn_type ref) @ '', expected ai_agent'')
             else (case (index_of own (fd_nodes d), index_of nid (fd_nodes d)) of
               (Some own_order, Some order) \<Rightarrow>
                 if order \<ge> own_order then
                   fail (''inherit_history_from references '' @ str_repr nid
                     @ '' which is not declared before this node'')
                 else check_inheritable d own nids
             | _ \<Rightarrow> check_inheritable d own nids)))"

definition validate_inheritable_nodes ::
  "flow_definition option \<Rightarrow> string \<Rightarrow> string list \<Rightarrow> exn + unit" where
  "validate_inheritable_nodes flow own inherited =
     (case flow of
        None \<Rightarrow> Inl (NodeExecutionError (''ai_agent node '' @ own
          @ '': inherit_history_from set but ''
          @ ''NodeExecutor was constructed without a flow_definition''))
      | Some d \<Rightarrow> check_inheritable d own inherited)"

section \<open>What an agent sees\<close>

definition history_blocks :: "pyval list \<Rightarrow> pyval list" where
  "history_blocks history =
     concat (map (\<lambda>m. case m of
       PDict d \<Rightarrow> (case dget d ''content'' of PList bs \<Rightarrow> bs | _ \<Rightarrow> []) | _ \<Rightarrow> []) history)"

lemma canonical_blocks:
  "history_blocks (List.map_filter (canonical_message own inc pairs) rows) =
     concat (map (\<lambda>m. filter (keep_block pairs (am_node_id m = own) inc) (am_content m)) rows)"
  by (induction rows)
    (auto simp: history_blocks_def map_filter_simps canonical_message_def Let_def dget_def)

lemma valid_pair_ids_iff:
  "i \<in> set (valid_pair_ids rows) \<longleftrightarrow>
     truthy i \<and>
     (\<exists>m \<in> set rows. \<exists>b \<in> set (am_content m). is_use b \<and> use_id b = i) \<and>
     (\<exists>m \<in> set rows. \<exists>b \<in> set (am_content m). is_result b \<and> result_id b = i)"
proof -
  have "i \<in> set (collect_ids k f rows) \<longleftrightarrow>
      truthy i \<and> (\<exists>m \<in> set rows. \<exists>b \<in> set (am_content m). k b \<and> f b = i)" for k f
    unfolding collect_ids_def by (auto simp: image_iff)
  then show ?thesis by (auto simp: valid_pair_ids_def)
qed

lemma use_not_result: "is_use b \<Longrightarrow> \<not> is_result b"
  by (auto simp: is_use_def is_result_def)

text \<open>Every message not stripped of its tools: the call and the result of a pair both stay.\<close>

lemma kept_pair_partner:
  assumes "\<forall>m \<in> set rows. inc \<or> am_node_id m = own"
  shows "\<forall>b \<in> set (history_blocks (List.map_filter
        (canonical_message own inc (valid_pair_ids rows)) rows)).
      (is_use b \<longrightarrow> (\<exists>c \<in> set (history_blocks (List.map_filter
          (canonical_message own inc (valid_pair_ids rows)) rows)).
          is_result c \<and> result_id c = use_id b)) \<and>
      (is_result b \<longrightarrow> (\<exists>c \<in> set (history_blocks (List.map_filter
          (canonical_message own inc (valid_pair_ids rows)) rows)).
          is_use c \<and> use_id c = result_id b))"
    (is "\<forall>b \<in> set ?H. (is_use b \<longrightarrow> ?R b) \<and> (is_result b \<longrightarrow> ?U b)")
proof (intro ballI conjI impI)
  let ?pairs = "valid_pair_ids rows"
  have mem: "c \<in> set ?H" if "m \<in> set rows" "c \<in> set (am_content m)"
    "keep_block ?pairs (am_node_id m = own) inc c" for m c
    using that unfolding canonical_blocks by auto
  fix b
  assume "b \<in> set ?H"
  then obtain m where m: "m \<in> set rows" "b \<in> set (am_content m)"
    "keep_block ?pairs (am_node_id m = own) inc b"
    unfolding canonical_blocks by auto
  show "?R b" if "is_use b"
  proof -
    from m(3) that have i: "use_id b \<in> set ?pairs" by (simp add: keep_block_def)
    then obtain m' c where c: "m' \<in> set rows" "c \<in> set (am_content m')" "is_result c"
      "result_id c = use_id b"
      unfolding valid_pair_ids_iff by blast
    have "keep_block ?pairs (am_node_id m' = own) inc c"
      using c i assms use_not_result by (auto simp: keep_block_def)
    with mem c show ?thesis by blast
  qed
  show "?U b" if "is_result b"
  proof -
    from that use_not_result have "\<not> is_use b" by blast
    with m(3) that have i: "result_id b \<in> set ?pairs" by (simp add: keep_block_def)
    then obtain m' c where c: "m' \<in> set rows" "c \<in> set (am_content m')" "is_use c"
      "use_id c = result_id b"
      unfolding valid_pair_ids_iff by blast
    have "keep_block ?pairs (am_node_id m' = own) inc c"
      using c i assms by (auto simp: keep_block_def)
    with mem c show ?thesis by blast
  qed
qed

text \<open>
  A history loaded with tool interactions has no orphans: every tool call in it
  has its result in it and every result its call, so a provider never rejects the prompt for
  a call that a crash or an interruption left unanswered.
\<close>

theorem history_pairs_complete:
  "\<forall>b \<in> set (history_blocks (canonical_history own True rows)).
     (is_use b \<longrightarrow> (\<exists>c \<in> set (history_blocks (canonical_history own True rows)).
        is_result c \<and> result_id c = use_id b)) \<and>
     (is_result b \<longrightarrow> (\<exists>c \<in> set (history_blocks (canonical_history own True rows)).
        is_use c \<and> use_id c = result_id b))"
  using kept_pair_partner [of "filter (\<lambda>m. \<not> own_partial own m) rows" True own]
  by (simp add: canonical_history_def Let_def)

definition sample_message :: "string \<Rightarrow> int \<Rightarrow> string \<Rightarrow> pyval list \<Rightarrow> agent_message" where
  "sample_message i n role content =
     \<lparr>am_id = i, am_run = ''r1'', am_node_id = ''n'', am_sequence = n, am_role = role,
      am_content = content, am_partial = False, am_thinking = None\<rparr>"

definition sample_rows :: "agent_message list" where
  "sample_rows =
     [sample_message ''m1'' 1 ''assistant''
        [PDict [(''type'', PStr ''tool_use''), (''id'', PStr ''t1'')],
         PDict [(''type'', PStr ''tool_use''), (''id'', PStr ''t2'')]],
      sample_message ''m2'' 2 ''user''
        [PDict [(''type'', PStr ''tool_result''), (''tool_use_id'', PStr ''t1'')]]]"

lemma sample_history_blocks:
  "history_blocks (canonical_history ''n'' True sample_rows) =
     [PDict [(''type'', PStr ''tool_use''), (''id'', PStr ''t1'')],
      PDict [(''type'', PStr ''tool_result''), (''tool_use_id'', PStr ''t1'')]]"
  by code_simp

theorem history_pairs_complete_witness:
  "\<exists>c \<in> set (history_blocks (canonical_history ''n'' True sample_rows)).
     is_result c \<and> result_id c = PStr ''t1''"
proof -
  let ?b = "PDict [(''type'', PStr ''tool_use''), (''id'', PStr ''t1'')]"
  have "?b \<in> set (history_blocks (canonical_history ''n'' True sample_rows))"
    by (simp add: sample_history_blocks)
  moreover have "is_use ?b" "use_id ?b = PStr ''t1''"
    by (simp_all add: is_use_def use_id_def block_type_def block_field_def dget_def)
  ultimately show ?thesis
    using history_pairs_complete [of "''n''" sample_rows] by metis
qed

definition inheritable :: "flow_definition \<Rightarrow> string \<Rightarrow> string \<Rightarrow> bool" where
  "inheritable d own nid =
     (nid \<noteq> own \<and>
      (case index_of nid (fd_nodes d) of
         None \<Rightarrow> False
       | Some i \<Rightarrow> fn_type (fd_nodes d ! i) = ''ai_agent'' \<and>
           (case index_of own (fd_nodes d) of None \<Rightarrow> True | Some j \<Rightarrow> i < j)))"

text \<open>
  The inheritance check of a node passes exactly when every inherited node
  is another agent node of the flow, declared before it when it is declared itself.
\<close>

theorem validate_inheritable_iff:
  "validate_inheritable_nodes (Some d) own nids = Inr () \<longleftrightarrow> list_all (inheritable d own) nids"
proof -
  have "check_inheritable d own nids = Inr () \<longleftrightarrow> list_all (inheritable d own) nids"
    by (induction nids)
      (auto simp: inheritable_def node_by_id_def Let_def split: option.splits)
  then show ?thesis by (simp add: validate_inheritable_nodes_def)
qed

end
