(* ===== verification/FlowGraph.thy ===== *)
theory FlowGraph
  imports FlowSchema
begin

text \<open>
  How a flow definition becomes a graph (luna_core/engine/runner.py): path lookup and edge
  conditions, the router of a node with conditional edges, the reducers of the state's
  channels, and \<open>_build_graph\<close>.  The graph library is outside the repository: a built graph
  is the list of calls made on it, that is its nodes, its plain edges and its branches, each
  branch with its router and the mapping from router results to targets.
\<close>

section \<open>Conditions\<close>

definition END_TOKEN :: string where "END_TOKEN = ''__end__''"

fun get_path_parts :: "pyrt \<Rightarrow> pyval \<Rightarrow> string list \<Rightarrow> pyval" where
  "get_path_parts rt cursor [] = cursor"
| "get_path_parts rt cursor (part # parts) =
     (case cursor of
        PNone \<Rightarrow> PNone
      | PDict d \<Rightarrow> get_path_parts rt (dget d part) parts
      | v \<Rightarrow> get_path_parts rt (rt_getattr rt v part) parts)"

definition get_path :: "pyrt \<Rightarrow> pyval \<Rightarrow> string \<Rightarrow> pyval" where
  "get_path rt data path = get_path_parts rt data (split_on (CHR ''.'') path)"

text \<open>\<open>x in c\<close>; \<open>None\<close> is the \<open>TypeError\<close> of a container or item of the wrong kind.\<close>

definition py_in :: "pyval \<Rightarrow> pyval \<Rightarrow> bool option" where
  "py_in x c =
     (case c of
        PList xs \<Rightarrow> Some (list_ex (\<lambda>y. py_eq x y) xs)
      | PStr s \<Rightarrow> (case x of PStr t \<Rightarrow> Some (find_sub t s \<noteq> None) | _ \<Rightarrow> None)
      | PDict d \<Rightarrow>
          (case x of
             PStr k \<Rightarrow> Some (dhas d k)
           | PList _ \<Rightarrow> None
           | PDict _ \<Rightarrow> None
           | _ \<Rightarrow> Some False)
      | _ \<Rightarrow> None)"

definition type_error :: "bool option \<Rightarrow> exn + bool" where
  "type_error r = (case r of None \<Rightarrow> Inl (OtherError ''TypeError'' []) | Some b \<Rightarrow> Inr b)"

definition evaluate_condition :: "pyrt \<Rightarrow> edge_condition \<Rightarrow> pydict \<Rightarrow> exn + bool" where
  "evaluate_condition rt condition state =
     (let actual = get_path rt (PDict state) (ec_field condition);
          expected = ec_value condition;
          guarded = (\<lambda>v r. if v = PNone then Inr False else type_error r)
      in if ec_operator condition = ''eq'' then Inr (py_eq actual expected)
         else if ec_operator condition = ''ne'' then Inr (\<not> py_eq actual expected)
         else if ec_operator condition = ''gt'' then guarded actual (py_less expected actual)
         else if ec_operator condition = ''gte'' then guarded actual (py_less_eq expected actual)
         else if ec_operator condition = ''lt'' then guarded actual (py_less actual expected)
         else if ec_operator condition = ''lte'' then guarded actual (py_less_eq actual expected)
         else if ec_operator condition = ''in'' then guarded expected (py_in actual expected)
         else if ec_operator condition = ''contains'' then guarded actual (py_in expected actual)
         else Inr False)"

section \<open>Reducers\<close>

text \<open>\<open>left or {}\<close> for a channel that may be unset.\<close>

definition merge_dict_channel :: "pydict \<Rightarrow> pydict \<Rightarrow> pydict" where
  "merge_dict_channel left right = dupdate left right"

definition branch_of :: "pydict \<Rightarrow> string \<Rightarrow> pydict" where
  "branch_of d k = (case dget d k of PDict b \<Rightarrow> b | _ \<Rightarrow> [])"

fun merge_state :: "pydict \<Rightarrow> pydict \<Rightarrow> pydict" where
  "merge_state merged [] = merged"
| "merge_state merged ((key, v) # right) =
     (if (key = ''outputs'' \<or> key = ''context'') \<and> is_dict v then
        merge_state
          (dset merged key (PDict (dupdate (branch_of merged key) (branch_of [(key, v)] key))))
          right
      else merge_state (dset merged key v) right)"

section \<open>Routers\<close>

fun first_match :: "pyrt \<Rightarrow> flow_edge list \<Rightarrow> pydict \<Rightarrow> exn + string option" where
  "first_match rt [] state = Inr None"
| "first_match rt (edge # edges) state =
     (case fe_condition edge of
        None \<Rightarrow> first_match rt edges state
      | Some c \<Rightarrow>
          (case evaluate_condition rt c state of
             Inl e \<Rightarrow> Inl e
           | Inr True \<Rightarrow> Inr (Some (fe_to edge))
           | Inr False \<Rightarrow> first_match rt edges state))"

definition router :: "pyrt \<Rightarrow> flow_edge list \<Rightarrow> string \<Rightarrow> pydict \<Rightarrow> exn + string" where
  "router rt edges default_target state =
     (case first_match rt edges state of
        Inl e \<Rightarrow> Inl e
      | Inr (Some t) \<Rightarrow> Inr t
      | Inr None \<Rightarrow>
          (case filter (\<lambda>e. fe_condition e = None) edges of
             [] \<Rightarrow> Inr default_target
           | e # _ \<Rightarrow> Inr (fe_to e)))"

section \<open>Building the graph\<close>

datatype graph_target = GraphEnd | GraphNode string

record graph_branch =
  gb_source :: string
  gb_edges :: "flow_edge list"
  gb_default :: string
  gb_mapping :: "(string \<times> graph_target) list"

record flow_graph =
  fg_nodes :: "flow_node list"
  fg_start :: string
  fg_edges :: "(string \<times> graph_target) list"
  fg_branches :: "graph_branch list"

definition edge_target :: "string \<Rightarrow> graph_target" where
  "edge_target t = (if t = END_TOKEN then GraphEnd else GraphNode t)"

text \<open>\<open>outgoing.setdefault(edge.from_, []).append(edge)\<close>, edge by edge.\<close>

definition add_outgoing ::
  "(string \<times> flow_edge list) list \<Rightarrow> flow_edge \<Rightarrow> (string \<times> flow_edge list) list" where
  "add_outgoing outgoing edge =
     dset outgoing (fe_from edge)
       ((case map_of outgoing (fe_from edge) of None \<Rightarrow> [] | Some es \<Rightarrow> es) @ [edge])"

definition group_edges :: "flow_edge list \<Rightarrow> (string \<times> flow_edge list) list" where
  "group_edges edges = foldl add_outgoing [] edges"

definition branch_mapping :: "flow_edge list \<Rightarrow> (string \<times> graph_target) list" where
  "branch_mapping edges =
     (let mapping = foldl (\<lambda>m e. dset m (fe_to e) (edge_target (fe_to e))) [] edges
      in if list_ex (\<lambda>e. fe_condition e = None) edges \<or> dhas mapping END_TOKEN then mapping
         else dset mapping END_TOKEN GraphEnd)"

definition make_branch :: "string \<Rightarrow> flow_edge list \<Rightarrow> graph_branch" where
  "make_branch source edges =
     \<lparr>gb_source = source, gb_edges = edges,
      gb_default = (case filter (\<lambda>e. fe_condition e = None) edges of
                      [] \<Rightarrow> END_TOKEN | e # _ \<Rightarrow> fe_to e),
      gb_mapping = branch_mapping edges\<rparr>"

fun add_group ::
  "string list \<Rightarrow> string \<times> flow_edge list \<Rightarrow> flow_graph \<Rightarrow> exn + flow_graph" where
  "add_group ids (source, edges) g =
     (if source \<notin> set ids then
        Inl (OtherError ''ValueError'' (''edge.from references unknown node: '' @ source))
      else if list_ex (\<lambda>e. fe_condition e \<noteq> None) edges then
        Inr (g\<lparr>fg_branches := fg_branches g @ [make_branch source edges]\<rparr>)
      else
        Inr (g\<lparr>fg_edges := fg_edges g @ map (\<lambda>e. (source, edge_target (fe_to e))) edges\<rparr>))"

fun add_groups ::
  "string list \<Rightarrow> (string \<times> flow_edge list) list \<Rightarrow> flow_graph \<Rightarrow> exn + flow_graph" where
  "add_groups ids [] g = Inr g"
| "add_groups ids (grp # grps) g = bindR (add_group ids grp g) (add_groups ids grps)"

definition build_graph :: "flow_definition \<Rightarrow> exn + flow_graph" where
  "build_graph d =
     (let ids = remdups (map fn_id (fd_nodes d));
          outgoing = group_edges (fd_edges d)
      in if fd_entry_point d \<notin> set ids then
           Inl (OtherError ''ValueError''
             (''entry_point '' @ str_repr (fd_entry_point d) @ '' is not in nodes''))
         else bindR
           (add_groups ids outgoing
              \<lparr>fg_nodes = fd_nodes d, fg_start = fd_entry_point d, fg_edges = [],
               fg_branches = []\<rparr>)
           (\<lambda>g. Inr (g\<lparr>fg_edges := fg_edges g @
              map (\<lambda>i. (i, GraphEnd)) (filter (\<lambda>i. \<not> dhas outgoing i) ids)\<rparr>)))"

section \<open>Routers stay inside their mapping\<close>

lemma branch_mapping_keys:
  "dhas (branch_mapping edges) t \<longleftrightarrow>
     t \<in> fe_to ` set edges \<or> t = END_TOKEN \<and> (\<forall>e \<in> set edges. fe_condition e \<noteq> None)"
proof -
  have "dhas (foldl (\<lambda>m e. dset m (fe_to e) (edge_target (fe_to e))) m0 edges) t \<longleftrightarrow>
      t \<in> fe_to ` set edges \<or> dhas m0 t" for m0
    by (induction edges arbitrary: m0) auto
  from this [of "[]"] show ?thesis
    by (auto simp: branch_mapping_def Let_def list_ex_iff dhas_def)
qed

lemma first_match_Some:
  "first_match rt edges state = Inr (Some t) \<Longrightarrow> t \<in> fe_to ` set edges"
  by (induction rt edges state rule: first_match.induct)
    (auto split: option.splits sum.splits bool.splits)

lemma case_filter_find:
  "(case filter P xs of [] \<Rightarrow> a | x # _ \<Rightarrow> f x) =
   (case List.find P xs of None \<Rightarrow> a | Some x \<Rightarrow> f x)"
  by (induction xs) auto

lemma router_cases:
  "router rt edges default_target state = Inr t \<Longrightarrow>
   t \<in> fe_to ` set edges \<or>
   t = default_target \<and> List.find (\<lambda>e. fe_condition e = None) edges = None"
  using first_match_Some [of rt edges state]
  by (auto simp: router_def case_filter_find find_Some_iff split: sum.splits option.splits)

lemma router_in_mapping:
  assumes "router rt edges default_target state = Inr t"
    and "default_target = gb_default (make_branch source edges)"
  shows "dhas (branch_mapping edges) t"
proof (cases "t \<in> fe_to ` set edges")
  case True
  then show ?thesis by (simp add: branch_mapping_keys)
next
  case False
  with router_cases [OF assms(1)]
  have none: "t = default_target" "List.find (\<lambda>e. fe_condition e = None) edges = None" by auto
  from none(2) have "\<forall>e \<in> set edges. fe_condition e \<noteq> None" by (simp add: find_None_iff)
  moreover from none assms(2) have "t = END_TOKEN" by (simp add: make_branch_def case_filter_find)
  ultimately show ?thesis by (simp add: branch_mapping_keys)
qed

definition matches :: "pyrt \<Rightarrow> pydict \<Rightarrow> flow_edge \<Rightarrow> bool" where
  "matches rt state e =
     (case fe_condition e of None \<Rightarrow> False | Some c \<Rightarrow> evaluate_condition rt c state = Inr True)"

lemma first_match_find:
  "first_match rt edges state = Inr r \<Longrightarrow> r = map_option fe_to (List.find (matches rt state) edges)"
  by (induction rt edges state rule: first_match.induct)
    (auto simp: matches_def split: option.splits sum.splits bool.splits)

definition made_branches :: "flow_graph \<Rightarrow> bool" where
  "made_branches g = (\<forall>b \<in> set (fg_branches g). \<exists>source edges. b = make_branch source edges)"

lemma add_group_branches:
  "add_group ids grp g0 = Inr g \<Longrightarrow> made_branches g0 \<Longrightarrow> made_branches g"
  by (cases grp) (auto simp: made_branches_def split: if_splits, blast)

lemma add_groups_branches:
  "add_groups ids outgoing g0 = Inr g \<Longrightarrow> made_branches g0 \<Longrightarrow> made_branches g"
proof (induction outgoing arbitrary: g0)
  case Nil
  then show ?case by simp
next
  case (Cons grp grps)
  from Cons.prems(1) obtain g1 where g1: "add_group ids grp g0 = Inr g1"
    "add_groups ids grps g1 = Inr g"
    by (cases "add_group ids grp g0") auto
  from Cons.IH [OF g1(2)] add_group_branches [OF g1(1) Cons.prems(2)] show ?case by simp
qed

lemma build_graph_branches:
  assumes "build_graph d = Inr g"
  shows "made_branches g"
proof -
  obtain g' where g': "add_groups (remdups (map fn_id (fd_nodes d))) (group_edges (fd_edges d))
      \<lparr>fg_nodes = fd_nodes d, fg_start = fd_entry_point d, fg_edges = [], fg_branches = []\<rparr> = Inr g'"
    "fg_branches g = fg_branches g'"
    using assms by (auto simp: build_graph_def Let_def result_simps split: if_splits)
  from add_groups_branches [OF g'(1)] have "made_branches g'" by (simp add: made_branches_def)
  with g'(2) show ?thesis by (simp add: made_branches_def)
qed

text \<open>
  Whatever the state is, the router of every branch of a built graph returns
  a key of the branch's mapping: it takes the first conditional edge that holds, then the
  first unconditional edge, then the end, and never leaves the run without a target.
\<close>

theorem router_target_mapped:
  assumes "build_graph d = Inr g" and "b \<in> set (fg_branches g)"
    and "router rt (gb_edges b) (gb_default b) state = Inr t"
  shows "dhas (gb_mapping b) t \<and>
    t = (case List.find (matches rt state) (gb_edges b) of
           Some e \<Rightarrow> fe_to e
         | None \<Rightarrow> (case List.find (\<lambda>e. fe_condition e = None) (gb_edges b) of
               Some e \<Rightarrow> fe_to e | None \<Rightarrow> END_TOKEN))"
proof -
  obtain source edges where b: "b = make_branch source edges"
    using build_graph_branches [OF assms(1)] assms(2) by (auto simp: made_branches_def)
  have "dhas (gb_mapping b) t"
    using assms(3) router_in_mapping [of rt edges _ state t source] b by (simp add: make_branch_def)
  moreover obtain r where r: "first_match rt edges state = Inr r"
    using assms(3) b by (auto simp: router_def make_branch_def split: sum.splits)
  ultimately show ?thesis
    using assms(3) b first_match_find [OF r] r
    by (auto simp: router_def make_branch_def case_filter_find
        split: option.splits list.splits)
qed

theorem router_target_mapped_witness:
  "\<exists>t. dhas [(''b'', GraphNode ''b''), (END_TOKEN, GraphEnd)] t"
proof -
  let ?n = "\<lambda>i. \<lparr>fn_id = i, fn_type = ''condition'', fn_name = [], fn_config = []\<rparr>"
  let ?rt = "\<lparr>rt_getattr = \<lambda>_ _. PNone, rt_float_str = \<lambda>_. []\<rparr>"
  let ?e = "\<lparr>fe_from = ''a'', fe_to = ''b'',
     fe_condition = Some \<lparr>ec_field = ''x'', ec_operator = ''eq'', ec_value = PInt 1\<rparr>\<rparr>"
  let ?d = "\<lparr>fd_entry_point = ''a'', fd_nodes = [?n ''a'', ?n ''b''], fd_edges = [?e],
     fd_inputs = [], fd_layout = []\<rparr>"
  let ?g = "\<lparr>fg_nodes = [?n ''a'', ?n ''b''], fg_start = ''a'', fg_edges = [(''b'', GraphEnd)],
     fg_branches = [make_branch ''a'' [?e]]\<rparr>"
  have g: "build_graph ?d = Inr ?g"
    by (simp add: build_graph_def group_edges_def add_outgoing_def dhas_def)
  have b: "make_branch ''a'' [?e] \<in> set (fg_branches ?g)" by simp
  have m: "gb_mapping (make_branch ''a'' [?e]) = [(''b'', GraphNode ''b''), (END_TOKEN, GraphEnd)]"
    by (simp add: make_branch_def branch_mapping_def edge_target_def END_TOKEN_def dhas_def)
  have "router ?rt (gb_edges (make_branch ''a'' [?e])) (gb_default (make_branch ''a'' [?e]))
      [(''x'', PInt 1)] = Inr ''b''"
    by (simp add: router_def make_branch_def evaluate_condition_def get_path_def dget_def Let_def)
  from router_target_mapped [OF g b this] show ?thesis unfolding m by blast
qed

section \<open>Graphs of valid definitions\<close>

definition target_ok :: "string set \<Rightarrow> graph_target \<Rightarrow> bool" where
  "target_ok ids t = (case t of GraphEnd \<Rightarrow> True | GraphNode n \<Rightarrow> n \<in> ids)"

definition leaves :: "flow_graph \<Rightarrow> string \<Rightarrow> bool" where
  "leaves g n \<longleftrightarrow> n \<in> fst ` set (fg_edges g) \<or> n \<in> gb_source ` set (fg_branches g)"

definition targets_ok :: "string set \<Rightarrow> flow_graph \<Rightarrow> bool" where
  "targets_ok ids g \<longleftrightarrow>
     (\<forall>t \<in> snd ` set (fg_edges g). target_ok ids t) \<and>
     (\<forall>b \<in> set (fg_branches g). \<forall>t \<in> ran (map_of (gb_mapping b)). target_ok ids t)"

lemma ran_branch_mapping:
  "t \<in> ran (map_of (branch_mapping edges)) \<Longrightarrow>
   t = GraphEnd \<or> t \<in> (edge_target \<circ> fe_to) ` set edges"
proof -
  have fold: "map_of (foldl (\<lambda>m e. dset m (fe_to e) (edge_target (fe_to e))) m0 edges) k = Some t \<Longrightarrow>
      map_of m0 k = Some t \<or> t \<in> (edge_target \<circ> fe_to) ` set edges" for m0 k
  proof (induction edges arbitrary: m0)
    case Nil
    then show ?case by simp
  next
    case (Cons e edges)
    from Cons.IH [OF Cons.prems [unfolded foldl_Cons]] show ?case
      by (auto split: if_splits)
  qed
  assume "t \<in> ran (map_of (branch_mapping edges))"
  then obtain k where "map_of (branch_mapping edges) k = Some t" by (auto simp: ran_def)
  then show ?thesis
    using fold [of "[]" k] by (auto simp: branch_mapping_def Let_def split: if_splits)
qed

lemma group_edges_lookup:
  "map_of (group_edges edges) n =
     (case filter (\<lambda>e. fe_from e = n) edges of [] \<Rightarrow> None | es \<Rightarrow> Some es)"
proof (induction edges rule: rev_induct)
  case Nil
  then show ?case by (simp add: group_edges_def)
next
  case (snoc e edges)
  have "group_edges (edges @ [e]) = add_outgoing (group_edges edges) e"
    by (simp add: group_edges_def)
  with snoc show ?case by (auto simp: add_outgoing_def split: list.splits)
qed

lemma group_edges_distinct: "distinct (map fst (group_edges edges))"
proof (induction edges rule: rev_induct)
  case Nil
  then show ?case by (simp add: group_edges_def)
next
  case (snoc e edges)
  have "group_edges (edges @ [e]) = add_outgoing (group_edges edges) e"
    by (simp add: group_edges_def)
  with snoc show ?case by (simp add: add_outgoing_def distinct_update)
qed

lemma group_edges_groups:
  "(n, es) \<in> set (group_edges edges) \<Longrightarrow> es \<noteq> [] \<and> es = filter (\<lambda>e. fe_from e = n) edges"
proof -
  assume "(n, es) \<in> set (group_edges edges)"
  then have "map_of (group_edges edges) n = Some es"
    using group_edges_distinct by (simp add: map_of_is_SomeI)
  then show ?thesis by (auto simp: group_edges_lookup split: list.splits)
qed

lemma add_group_ok:
  assumes "source \<in> set ids" and "es \<noteq> []" and "\<forall>e \<in> set es. fe_to e \<in> set ids"
    and "targets_ok (set ids) g0"
  shows "\<exists>g. add_group ids (source, es) g0 = Inr g \<and> targets_ok (set ids) g \<and> leaves g source \<and>
    (\<forall>n. leaves g0 n \<longrightarrow> leaves g n) \<and> fg_start g = fg_start g0 \<and> fg_nodes g = fg_nodes g0"
proof -
  have ok: "target_ok (set ids) (edge_target (fe_to e))" if "e \<in> set es" for e
    using assms(3) that by (auto simp: target_ok_def edge_target_def)
  then have "\<forall>t \<in> ran (map_of (branch_mapping es)). target_ok (set ids) t"
    by (auto dest!: ran_branch_mapping simp: target_ok_def [of _ GraphEnd])
  with ok assms show ?thesis
    by (auto simp: targets_ok_def leaves_def make_branch_def neq_Nil_conv)
qed

lemma add_groups_ok:
  assumes "\<forall>(s, es) \<in> set groups. s \<in> set ids \<and> es \<noteq> [] \<and> (\<forall>e \<in> set es. fe_to e \<in> set ids)"
    and "targets_ok (set ids) g0"
  shows "\<exists>g. add_groups ids groups g0 = Inr g \<and> targets_ok (set ids) g \<and>
    (\<forall>s \<in> fst ` set groups. leaves g s) \<and> (\<forall>n. leaves g0 n \<longrightarrow> leaves g n) \<and>
    fg_start g = fg_start g0 \<and> fg_nodes g = fg_nodes g0"
  using assms
proof (induction groups arbitrary: g0)
  case Nil
  then show ?case by simp
next
  case (Cons grp groups)
  obtain s es where grp: "grp = (s, es)" by (cases grp)
  with Cons.prems obtain g1 where g1: "add_group ids (s, es) g0 = Inr g1"
    "targets_ok (set ids) g1" "leaves g1 s" "\<forall>n. leaves g0 n \<longrightarrow> leaves g1 n"
    "fg_start g1 = fg_start g0" "fg_nodes g1 = fg_nodes g0"
    using add_group_ok [of s ids es g0] by auto
  from Cons.IH [OF _ g1(2)] Cons.prems(1) obtain g where
    "add_groups ids groups g1 = Inr g" "targets_ok (set ids) g"
    "\<forall>s \<in> fst ` set groups. leaves g s" "\<forall>n. leaves g1 n \<longrightarrow> leaves g n"
    "fg_start g = fg_start g1" "fg_nodes g = fg_nodes g1" by auto
  with g1 grp show ?case by (auto simp del: add_group.simps)
qed

text \<open>
  A definition that passes validation always builds: the start is a node,
  every edge and every branch leads to a node of the definition or to the end, and no node
  is left without a way on.
\<close>

theorem valid_definition_builds:
  assumes "validate_definition d = Inr ()"
  shows "\<exists>g. build_graph d = Inr g \<and> fg_start g \<in> fn_id ` set (fd_nodes d) \<and>
    targets_ok (fn_id ` set (fd_nodes d)) g \<and> list_all (leaves g \<circ> fn_id) (fd_nodes d)"
proof -
  let ?ids = "remdups (map fn_id (fd_nodes d))"
  let ?g0 = "\<lparr>fg_nodes = fd_nodes d, fg_start = fd_entry_point d, fg_edges = [], fg_branches = []\<rparr>"
  let ?groups = "group_edges (fd_edges d)"
  have ids: "set ?ids = fn_id ` set (fd_nodes d)" by simp
  have v: "fd_entry_point d \<in> set ?ids"
    "\<forall>e \<in> set (fd_edges d). fe_from e \<in> set ?ids \<and> fe_to e \<in> set ?ids"
    using assms by (auto simp: validate_definition_Inr list_all_iff)
  have "\<forall>(s, es) \<in> set ?groups. s \<in> set ?ids \<and> es \<noteq> [] \<and> (\<forall>e \<in> set es. fe_to e \<in> set ?ids)"
    using v(2) group_edges_groups by (fastforce simp: filter_eq_Cons_iff neq_Nil_conv)
  moreover have "targets_ok (set ?ids) ?g0" by (simp add: targets_ok_def)
  ultimately obtain g where g: "add_groups ?ids ?groups ?g0 = Inr g" "targets_ok (set ?ids) g"
    "\<forall>s \<in> fst ` set ?groups. leaves g s" "fg_start g = fg_start ?g0"
    using add_groups_ok [of ?groups ?ids ?g0] by blast
  let ?rest = "map (\<lambda>i. (i, GraphEnd)) (filter (\<lambda>i. \<not> dhas ?groups i) ?ids)"
  let ?g = "g\<lparr>fg_edges := fg_edges g @ ?rest\<rparr>"
  have "build_graph d = Inr ?g" using g(1) v(1) by (simp add: build_graph_def Let_def)
  moreover have "targets_ok (set ?ids) ?g"
    using g(2) by (auto simp: targets_ok_def target_ok_def [of _ GraphEnd])
  moreover have "leaves ?g n" if "n \<in> set ?ids" for n
  proof (cases "dhas ?groups n")
    case True
    with g(3) show ?thesis by (auto simp: dhas_iff_fst leaves_def)
  next
    case False
    with that show ?thesis by (force simp: leaves_def)
  qed
  ultimately show ?thesis using v(1) g(4) unfolding ids [symmetric]
    by (auto simp: list_all_iff intro!: exI [of _ ?g])
qed

definition sample_definition :: flow_definition where
  "sample_definition =
     \<lparr>fd_entry_point = ''a'',
      fd_nodes = [\<lparr>fn_id = ''a'', fn_type = ''condition'', fn_name = [], fn_config = []\<rparr>,
                  \<lparr>fn_id = ''b'', fn_type = ''output'', fn_name = [], fn_config = []\<rparr>],
      fd_edges = [\<lparr>fe_from = ''a'', fe_to = ''b'', fe_condition = Some
        \<lparr>ec_field = ''x'', ec_operator = ''eq'', ec_value = PInt 1\<rparr>\<rparr>],
      fd_inputs = [], fd_layout = []\<rparr>"

lemma sample_definition_valid: "validate_definition sample_definition = Inr ()"
  by (simp add: validate_definition_Inr sample_definition_def node_ok_def)

theorem valid_definition_builds_witness:
  "\<exists>g. build_graph sample_definition = Inr g \<and>
     list_all (leaves g \<circ> fn_id) (fd_nodes sample_definition)"
  using valid_definition_builds [OF sample_definition_valid] by blast

section \<open>The two reducers agree\<close>

lemma merge_state_lookup:
  assumes "distinct (map fst right)"
  shows "map_of (merge_state left right) k =
    (case map_of right k of
       None \<Rightarrow> map_of left k
     | Some v \<Rightarrow>
         if (k = ''outputs'' \<or> k = ''context'') \<and> is_dict v then
           Some (PDict (merge_dict_channel (branch_of left k) (branch_of right k)))
         else Some v)"
  using assms
proof (induction left right rule: merge_state.induct)
  case (1 merged)
  then show ?case by simp
next
  case (2 merged key v right)
  let ?ch = "(key = ''outputs'' \<or> key = ''context'') \<and> is_dict v"
  let ?m = "if ?ch then dset merged key (PDict (dupdate (branch_of merged key)
      (branch_of [(key, v)] key))) else dset merged key v"
  have step: "merge_state merged ((key, v) # right) = merge_state ?m right" by simp
  have IH: "map_of (merge_state ?m right) k = (case map_of right k of
      None \<Rightarrow> map_of ?m k
    | Some v' \<Rightarrow> if (k = ''outputs'' \<or> k = ''context'') \<and> is_dict v' then
          Some (PDict (merge_dict_channel (branch_of ?m k) (branch_of right k)))
        else Some v')"
  proof (cases ?ch)
    case True
    then have m: "?m = dset merged key (PDict (dupdate (branch_of merged key)
        (branch_of [(key, v)] key)))"
      by (rule if_P)
    show ?thesis unfolding m by (rule "2.IH"(1) [OF True]) (use "2.prems" in simp)
  next
    case False
    then have m: "?m = dset merged key v" by (rule if_not_P)
    show ?thesis unfolding m by (rule "2.IH"(2) [OF False]) (use "2.prems" in simp)
  qed
  show ?case
  proof (cases "k = key")
    case True
    with "2.prems" have "map_of right k = None" by (simp add: map_of_eq_None_iff)
    with IH True show ?thesis
      unfolding step by (simp add: merge_dict_channel_def branch_of_def dget_def del: is_dict_iff)
  next
    case False
    then have same: "branch_of ?m k = branch_of merged k" "map_of ?m k = map_of merged k"
      "branch_of ((key, v) # right) k = branch_of right k"
      by (auto simp: branch_of_def dget_def)
    show ?thesis unfolding step IH unfolding same using False by (simp split: option.splits)
  qed
qed

text \<open>
  The runner's own merge of a node update into the state it persists is,
  channel by channel, what the reducers declared on the state give: \<open>outputs\<close> and
  \<open>context\<close> accumulate key by key, any other channel takes the last value, and channels
  that the update does not mention stay.
\<close>

theorem merge_state_channels:
  assumes "distinct (map fst right)"
  shows "map_of (merge_state left right) k =
    (case map_of right k of
       None \<Rightarrow> map_of left k
     | Some v \<Rightarrow>
         if (k = ''outputs'' \<or> k = ''context'') \<and> is_dict v then
           Some (PDict (merge_dict_channel (branch_of left k) (branch_of right k)))
         else Some v)"
  by (rule merge_state_lookup [OF assms])

theorem merge_state_channels_witness:
  "map_of (merge_state [(''outputs'', PDict [(''a'', PInt 1)]), (''run_id'', PStr ''r'')]
      [(''outputs'', PDict [(''b'', PInt 2)])]) ''outputs''
   = Some (PDict [(''a'', PInt 1), (''b'', PInt 2)])"
  using merge_state_channels [of "[(''outputs'', PDict [(''b'', PInt 2)])]"
      "[(''outputs'', PDict [(''a'', PInt 1)]), (''run_id'', PStr ''r'')]" "''outputs''"]
  by (simp add: merge_dict_channel_def branch_of_def dget_def del: merge_state.simps)

end
