(* ===== verification/Redis.thy ===== *)
theory Redis
  imports Prelude
begin

text \<open>
  The Redis commands the program uses, as an interface.  Redis is a service outside the
  repository: the definitions of the other theories take a record of its commands as an
  argument, and what they rely on is the locale \<open>redis_store\<close>, whose laws state the
  documented effect of each command on the strings and sets of the keyspace at one moment
  (no key expires between two commands of the statement).

  \<open>keyspace_ops\<close> is the keyspace with expiry deadlines that the documentation describes; the
  laws hold for it, and it is what witnesses run on.
\<close>

record ('r, 'v) redis =
  r_get :: "string \<Rightarrow> 'r \<Rightarrow> 'v option"
  r_set :: "string \<Rightarrow> 'v \<Rightarrow> nat \<Rightarrow> 'r \<Rightarrow> 'r"
  r_set_nx :: "string \<Rightarrow> 'v \<Rightarrow> nat \<Rightarrow> 'r \<Rightarrow> bool \<times> 'r"
  r_delete :: "string list \<Rightarrow> 'r \<Rightarrow> nat \<times> 'r"
  r_exists :: "string \<Rightarrow> 'r \<Rightarrow> bool"
  r_sadd :: "string \<Rightarrow> string list \<Rightarrow> 'r \<Rightarrow> 'r"
  r_srem :: "string \<Rightarrow> string \<Rightarrow> 'r \<Rightarrow> 'r"
  r_smembers :: "string \<Rightarrow> 'r \<Rightarrow> string list"
  r_scard :: "string \<Rightarrow> 'r \<Rightarrow> nat"
  r_expire :: "string \<Rightarrow> nat \<Rightarrow> 'r \<Rightarrow> 'r"

locale redis_store =
  fixes R :: "('r, 'v) redis"
  assumes get_set: "ttl > 0 \<Longrightarrow> r_get R k' (r_set R k v ttl s) = (if k' = k then Some v else r_get R k' s)"
    and members_set:
      "ttl > 0 \<Longrightarrow> set (r_smembers R k' (r_set R k v ttl s)) =
         (if k' = k then {} else set (r_smembers R k' s))"
    and set_nx: "r_set_nx R k v ttl s =
      (if r_exists R k s then (False, s) else (True, r_set R k v ttl s))"
    and get_delete: "r_get R k' (snd (r_delete R ks s)) = (if k' \<in> set ks then None else r_get R k' s)"
    and members_delete:
      "set (r_smembers R k' (snd (r_delete R ks s))) =
         (if k' \<in> set ks then {} else set (r_smembers R k' s))"
    and delete_count: "fst (r_delete R ks s) = card {k \<in> set ks. r_exists R k s}"
    and exists_iff: "r_exists R k s \<longleftrightarrow> r_get R k s \<noteq> None \<or> r_smembers R k s \<noteq> []"
    and get_sadd: "r_get R k s = None \<Longrightarrow> r_get R k' (r_sadd R k xs s) = r_get R k' s"
    and members_sadd:
      "r_get R k s = None \<Longrightarrow>
       set (r_smembers R k' (r_sadd R k xs s)) =
         (if k' = k then set (r_smembers R k' s) \<union> set xs else set (r_smembers R k' s))"
    and get_srem: "r_get R k s = None \<Longrightarrow> r_get R k' (r_srem R k x s) = r_get R k' s"
    and members_srem:
      "r_get R k s = None \<Longrightarrow>
       set (r_smembers R k' (r_srem R k x s)) =
         (if k' = k then set (r_smembers R k' s) - {x} else set (r_smembers R k' s))"
    and members_distinct: "distinct (r_smembers R k s)"
    and scard: "r_scard R k s = length (r_smembers R k s)"
    and get_expire: "ttl > 0 \<Longrightarrow> r_get R k' (r_expire R k ttl s) = r_get R k' s"
    and members_expire: "ttl > 0 \<Longrightarrow> set (r_smembers R k' (r_expire R k ttl s)) = set (r_smembers R k' s)"
begin

lemmas get_simps = get_set get_delete get_expire
lemmas members_simps = members_set members_delete members_expire

lemma exists_set: "ttl > 0 \<Longrightarrow> r_exists R k' (r_set R k v ttl s) \<longleftrightarrow> k' = k \<or> r_exists R k' s"
  using members_set [of ttl k' k v s] by (auto simp: exists_iff get_set split: if_splits)

lemma exists_delete: "r_exists R k' (snd (r_delete R ks s)) \<longleftrightarrow> k' \<notin> set ks \<and> r_exists R k' s"
  using members_delete [of k' ks s] by (auto simp: exists_iff get_delete split: if_splits)

end

section \<open>The keyspace of the documentation\<close>

record 'v keyspace =
  ks_now :: nat
  ks_strings :: "(string \<times> 'v \<times> nat) list"
  ks_sets :: "(string \<times> string list \<times> nat option) list"

definition ks_get :: "string \<Rightarrow> 'v keyspace \<Rightarrow> 'v option" where
  "ks_get k s =
     (case map_of (ks_strings s) k of
        Some (v, deadline) \<Rightarrow> if ks_now s < deadline then Some v else None
      | None \<Rightarrow> None)"

definition ks_alive :: "'v keyspace \<Rightarrow> nat option \<Rightarrow> bool" where
  "ks_alive s deadline = (case deadline of None \<Rightarrow> True | Some d \<Rightarrow> ks_now s < d)"

definition ks_smembers :: "string \<Rightarrow> 'v keyspace \<Rightarrow> string list" where
  "ks_smembers k s =
     (case map_of (ks_sets s) k of
        Some (xs, deadline) \<Rightarrow> if ks_alive s deadline then remdups xs else []
      | None \<Rightarrow> [])"

definition ks_set :: "string \<Rightarrow> 'v \<Rightarrow> nat \<Rightarrow> 'v keyspace \<Rightarrow> 'v keyspace" where
  "ks_set k v ttl s =
     s\<lparr>ks_strings := dset (ks_strings s) k (v, ks_now s + ttl), ks_sets := dpop (ks_sets s) k\<rparr>"

definition ks_exists :: "string \<Rightarrow> 'v keyspace \<Rightarrow> bool" where
  "ks_exists k s = (ks_get k s \<noteq> None \<or> ks_smembers k s \<noteq> [])"

definition ks_set_nx :: "string \<Rightarrow> 'v \<Rightarrow> nat \<Rightarrow> 'v keyspace \<Rightarrow> bool \<times> 'v keyspace" where
  "ks_set_nx k v ttl s = (if ks_exists k s then (False, s) else (True, ks_set k v ttl s))"

definition ks_delete :: "string list \<Rightarrow> 'v keyspace \<Rightarrow> nat \<times> 'v keyspace" where
  "ks_delete ks s =
     (length (filter (\<lambda>k. ks_exists k s) (remdups ks)),
      s\<lparr>ks_strings := filter (\<lambda>p. fst p \<notin> set ks) (ks_strings s),
        ks_sets := filter (\<lambda>p. fst p \<notin> set ks) (ks_sets s)\<rparr>)"

definition ks_sadd :: "string \<Rightarrow> string list \<Rightarrow> 'v keyspace \<Rightarrow> 'v keyspace" where
  "ks_sadd k xs s =
     (let deadline = (case map_of (ks_sets s) k of
            Some (_, d) \<Rightarrow> if ks_alive s d then d else None | None \<Rightarrow> None)
      in s\<lparr>ks_sets := dset (ks_sets s) k (ks_smembers k s @ xs, deadline)\<rparr>)"

definition ks_srem :: "string \<Rightarrow> string \<Rightarrow> 'v keyspace \<Rightarrow> 'v keyspace" where
  "ks_srem k x s =
     (case map_of (ks_sets s) k of
        Some (xs, d) \<Rightarrow> s\<lparr>ks_sets := dset (ks_sets s) k (filter (\<lambda>y. y \<noteq> x) xs, d)\<rparr>
      | None \<Rightarrow> s)"

definition ks_expire :: "string \<Rightarrow> nat \<Rightarrow> 'v keyspace \<Rightarrow> 'v keyspace" where
  "ks_expire k ttl s =
     s\<lparr>ks_strings := map (\<lambda>(k', v, d). if k' = k \<and> ks_now s < d then (k', v, ks_now s + ttl)
                                        else (k', v, d)) (ks_strings s),
       ks_sets := map (\<lambda>(k', xs, d). if k' = k \<and> ks_alive s d then (k', xs, Some (ks_now s + ttl))
                                      else (k', xs, d)) (ks_sets s)\<rparr>"

definition keyspace_ops :: "('v keyspace, 'v) redis" where
  "keyspace_ops = \<lparr>r_get = ks_get, r_set = ks_set, r_set_nx = ks_set_nx, r_delete = ks_delete,
     r_exists = ks_exists, r_sadd = ks_sadd, r_srem = ks_srem, r_smembers = ks_smembers,
     r_scard = (\<lambda>k s. length (ks_smembers k s)), r_expire = ks_expire\<rparr>"

definition empty_keyspace :: "'v keyspace" where
  "empty_keyspace = \<lparr>ks_now = 0, ks_strings = [], ks_sets = []\<rparr>"

definition ks_advance :: "nat \<Rightarrow> 'v keyspace \<Rightarrow> 'v keyspace" where
  "ks_advance n s = s\<lparr>ks_now := ks_now s + n\<rparr>"

lemma map_of_filter_key:
  "map_of (filter (\<lambda>p. fst p \<notin> K) xs) k = (if k \<in> K then None else map_of xs k)"
  by (induction xs) auto

lemma map_of_expire_strings:
  "map_of (map (\<lambda>(k', v, d). if k' = k \<and> n < d then (k', v, e) else (k', v, d)) xs) k' =
     map_option (\<lambda>(v, d). if k' = k \<and> n < d then (v, e) else (v, d)) (map_of xs k')"
  by (induction xs) auto

lemma map_of_expire_sets:
  "map_of (map (\<lambda>(k', v, d). if k' = k \<and> P d then (k', v, e) else (k', v, d)) xs) k' =
     map_option (\<lambda>(v, d). if k' = k \<and> P d then (v, e) else (v, d)) (map_of xs k')"
  by (induction xs) auto

lemmas ks_defs = ks_get_def ks_set_def ks_smembers_def ks_delete_def ks_sadd_def ks_srem_def
  ks_expire_def

interpretation keyspace: redis_store keyspace_ops
proof (unfold_locales, goal_cases)
  case (6 ks s)
  have "{k \<in> set ks. ks_exists k s} = set (filter (\<lambda>k. ks_exists k s) (remdups ks))" by auto
  then have "card {k \<in> set ks. ks_exists k s} = length (filter (\<lambda>k. ks_exists k s) (remdups ks))"
    by (simp only: distinct_card distinct_filter distinct_remdups)
  then show ?case by (simp add: keyspace_ops_def ks_delete_def)
next
  case (15 ttl k' k s)
  show ?case
  proof (cases "map_of (ks_sets s) k'")
    case None
    then show ?thesis
      by (simp add: keyspace_ops_def ks_smembers_def ks_expire_def map_of_expire_sets)
  next
    case (Some p)
    with 15 show ?thesis
      by (cases p) (auto simp: keyspace_ops_def ks_smembers_def ks_expire_def map_of_expire_sets
          ks_alive_def split: option.splits)
  qed
qed (auto simp: keyspace_ops_def ks_defs ks_alive_def ks_exists_def ks_set_nx_def dpop_conv
       map_of_filter_key map_of_expire_strings map_of_expire_sets Let_def
       split: option.splits if_splits)

section \<open>A keyspace inside a larger world\<close>

definition lift_redis ::
  "('w \<Rightarrow> 'r) \<Rightarrow> ('r \<Rightarrow> 'w \<Rightarrow> 'w) \<Rightarrow> ('r, 'v) redis \<Rightarrow> ('w, 'v) redis" where
  "lift_redis get put R =
     \<lparr>r_get = (\<lambda>k w. r_get R k (get w)),
      r_set = (\<lambda>k v ttl w. put (r_set R k v ttl (get w)) w),
      r_set_nx = (\<lambda>k v ttl w. let (b, r) = r_set_nx R k v ttl (get w) in (b, put r w)),
      r_delete = (\<lambda>ks w. let (n, r) = r_delete R ks (get w) in (n, put r w)),
      r_exists = (\<lambda>k w. r_exists R k (get w)),
      r_sadd = (\<lambda>k xs w. put (r_sadd R k xs (get w)) w),
      r_srem = (\<lambda>k x w. put (r_srem R k x (get w)) w),
      r_smembers = (\<lambda>k w. r_smembers R k (get w)),
      r_scard = (\<lambda>k w. r_scard R k (get w)),
      r_expire = (\<lambda>k ttl w. put (r_expire R k ttl (get w)) w)\<rparr>"

lemma lift_redis_store:
  assumes "redis_store R" and "\<And>r w. get (put r w) = r" and "\<And>w. put (get w) w = w"
  shows "redis_store (lift_redis get put R)"
  using assms
  unfolding redis_store_def lift_redis_def
  by (simp add: split_beta)

end
