(* ===== verification/Scratchpad.thy ===== *)
theory Scratchpad
  imports Redis
begin

text \<open>
  The run-scoped record store (luna_core/services/scratchpad.py).  Every operation takes the
  Redis commands, the run, the collection and the keyspace; records are stored as JSON text.
  The digest of a record (\<open>hashlib.blake2b\<close>) is an argument.
\<close>

datatype scratchpad_error = ScratchpadError string

type_synonym 'r store = "('r, jtext) redis"

section \<open>Keys and collection names\<close>

definition record_key :: "string \<Rightarrow> string \<Rightarrow> string \<Rightarrow> string" where
  "record_key run collection record_id =
     ''scratchpad:'' @ run @ '':records:'' @ collection @ '':'' @ record_id"

definition index_key :: "string \<Rightarrow> string \<Rightarrow> string" where
  "index_key run collection = ''scratchpad:'' @ run @ '':index:'' @ collection"

definition collections_key :: "string \<Rightarrow> string" where
  "collections_key run = ''scratchpad:'' @ run @ '':collections''"

text \<open>
  The pattern \<open>^[a-z_][a-z0-9_]*$\<close>; \<open>$\<close> also matches before a newline that ends the text.
\<close>

definition name_start :: "char \<Rightarrow> bool" where
  "name_start c = (let n = (of_char c :: nat) in (97 \<le> n \<and> n \<le> 122) \<or> n = 95)"

definition name_char :: "char \<Rightarrow> bool" where
  "name_char c = (name_start c \<or> (let n = (of_char c :: nat) in 48 \<le> n \<and> n \<le> 57))"

definition strip_final_newline :: "string \<Rightarrow> string" where
  "strip_final_newline s = (if s \<noteq> [] \<and> last s = CHR 0x0A then butlast s else s)"

definition valid_collection_name :: "string \<Rightarrow> bool" where
  "valid_collection_name name =
     (case strip_final_newline name of
        [] \<Rightarrow> False
      | c # cs \<Rightarrow> name_start c \<and> list_all name_char cs)"

definition validate_collection_name :: "string \<Rightarrow> scratchpad_error + unit" where
  "validate_collection_name name =
     (if valid_collection_name name then Inr ()
      else Inl (ScratchpadError (''invalid collection name '' @ str_repr name
             @ '': must match ^[a-z_][a-z0-9_]*$'')))"

section \<open>Ids\<close>

definition hash_record :: "pyrt \<Rightarrow> (string \<Rightarrow> string) \<Rightarrow> pydict \<Rightarrow> string" where
  "hash_record rt blake2b rec = blake2b (json_canonical rt (PDict rec))"

definition target_id ::
  "pyrt \<Rightarrow> (string \<Rightarrow> string) \<Rightarrow> nat \<times> pyval \<times> pyval \<Rightarrow> scratchpad_error + string \<times> pydict" where
  "target_id rt blake2b entry =
     (case entry of (index, rec, explicit) \<Rightarrow>
        (case rec of
           PDict d \<Rightarrow>
             (case explicit of
                PNone \<Rightarrow> Inr (hash_record rt blake2b d, d)
              | PStr e \<Rightarrow> Inr (if e \<noteq> [] then e else hash_record rt blake2b d, d)
              | v \<Rightarrow> Inl (ScratchpadError (''record_id at index '' @ nat_str index @ '' is ''
                       @ type_name v @ '', expected str'')))
         | v \<Rightarrow> Inl (ScratchpadError (''record at index '' @ nat_str index @ '' is ''
                  @ type_name v @ '', expected dict''))))"

definition explicit_ids :: "pyval list option \<Rightarrow> nat \<Rightarrow> pyval list" where
  "explicit_ids record_ids n =
     (case record_ids of None \<Rightarrow> replicate n PNone | Some ids \<Rightarrow> ids)"

definition check_id_count :: "pyval list \<Rightarrow> pyval list option \<Rightarrow> scratchpad_error + unit" where
  "check_id_count records record_ids =
     (case record_ids of
        None \<Rightarrow> Inr ()
      | Some ids \<Rightarrow>
          if length ids \<noteq> length records then
            Inl (ScratchpadError (''record_ids length ('' @ nat_str (length ids)
              @ '') does not match records length ('' @ nat_str (length records) @ '')''))
          else Inr ())"

definition assigned_ids ::
  "pyrt \<Rightarrow> (string \<Rightarrow> string) \<Rightarrow> pyval list \<Rightarrow> pyval list option
   \<Rightarrow> scratchpad_error + (string \<times> pydict) list" where
  "assigned_ids rt blake2b records record_ids =
     mapR (target_id rt blake2b)
       (zip [0..<length records] (zip records (explicit_ids record_ids (length records))))"

definition compute_target_ids ::
  "pyrt \<Rightarrow> (string \<Rightarrow> string) \<Rightarrow> pyval list \<Rightarrow> pyval list option
   \<Rightarrow> scratchpad_error + string list" where
  "compute_target_ids rt blake2b records record_ids =
     bindR (check_id_count records record_ids) (\<lambda>_.
     bindR (assigned_ids rt blake2b records record_ids) (\<lambda>entries. Inr (map fst entries)))"

section \<open>Operations\<close>

definition write_record ::
  "'r store \<Rightarrow> nat \<Rightarrow> string \<Rightarrow> string \<Rightarrow> string \<times> pydict \<Rightarrow> 'r \<Rightarrow> 'r" where
  "write_record R ttl run collection entry r =
     r_set R (record_key run collection (fst entry)) (Json (json_image (PDict (snd entry)))) ttl r"

definition write_batch ::
  "'r store \<Rightarrow> nat \<Rightarrow> string \<Rightarrow> string \<Rightarrow> (string \<times> pydict) list \<Rightarrow> 'r \<Rightarrow> 'r" where
  "write_batch R ttl run collection entries r =
     (let r = fold (write_record R ttl run collection) entries r;
          r = r_sadd R (index_key run collection) (map fst entries) r;
          r = r_expire R (index_key run collection) ttl r;
          r = r_sadd R (collections_key run) [collection] r
      in r_expire R (collections_key run) ttl r)"

definition stash_batch ::
  "'r store \<Rightarrow> nat \<Rightarrow> pyrt \<Rightarrow> (string \<Rightarrow> string) \<Rightarrow> string \<Rightarrow> string \<Rightarrow> pyval list
   \<Rightarrow> pyval list option \<Rightarrow> 'r \<Rightarrow> (scratchpad_error + string list) \<times> 'r" where
  "stash_batch R ttl rt blake2b run collection records record_ids r =
     (case bindR (validate_collection_name collection) (\<lambda>_. check_id_count records record_ids) of
        Inl e \<Rightarrow> (Inl e, r)
      | Inr _ \<Rightarrow>
          if records = [] then (Inr [], r)
          else (case assigned_ids rt blake2b records record_ids of
                  Inl e \<Rightarrow> (Inl e, r)
                | Inr entries \<Rightarrow>
                    (Inr (map fst entries), write_batch R ttl run collection entries r)))"

definition stash ::
  "'r store \<Rightarrow> nat \<Rightarrow> pyrt \<Rightarrow> (string \<Rightarrow> string) \<Rightarrow> string \<Rightarrow> string \<Rightarrow> pyval
   \<Rightarrow> pyval \<Rightarrow> 'r \<Rightarrow> (scratchpad_error + string) \<times> 'r" where
  "stash R ttl rt blake2b run collection rec record_id r =
     (case stash_batch R ttl rt blake2b run collection [rec] (Some [record_id]) r of
        (Inl e, r') \<Rightarrow> (Inl e, r')
      | (Inr ids, r') \<Rightarrow> (Inr (ids ! 0), r'))"

definition read_record :: "'r store \<Rightarrow> string \<Rightarrow> string \<Rightarrow> string \<Rightarrow> 'r \<Rightarrow> pydict option" where
  "read_record R run collection record_id r =
     (case r_get R (record_key run collection record_id) r of
        None \<Rightarrow> None
      | Some raw \<Rightarrow>
          (case json_loads raw of
             Some (PDict d) \<Rightarrow> Some d
           | _ \<Rightarrow> None))"

definition scratchpad_get ::
  "'r store \<Rightarrow> string \<Rightarrow> string \<Rightarrow> string \<Rightarrow> 'r \<Rightarrow> scratchpad_error + pydict option" where
  "scratchpad_get R run collection record_id r =
     bindR (validate_collection_name collection)
       (\<lambda>_. Inr (read_record R run collection record_id r))"

definition list_ids ::
  "'r store \<Rightarrow> string \<Rightarrow> string \<Rightarrow> 'r \<Rightarrow> scratchpad_error + string list" where
  "list_ids R run collection r =
     bindR (validate_collection_name collection)
       (\<lambda>_. Inr (r_smembers R (index_key run collection) r))"

definition list_records ::
  "'r store \<Rightarrow> string \<Rightarrow> string \<Rightarrow> 'r \<Rightarrow> scratchpad_error + (string \<times> pydict) list" where
  "list_records R run collection r =
     bindR (list_ids R run collection r) (\<lambda>ids.
       Inr (List.map_filter
         (\<lambda>i. map_option (Pair i) (read_record R run collection i r)) ids))"

definition drop_record ::
  "'r store \<Rightarrow> string \<Rightarrow> string \<Rightarrow> string \<Rightarrow> 'r \<Rightarrow> bool \<times> 'r" where
  "drop_record R run collection record_id r =
     (let (removed, r) = r_delete R [record_key run collection record_id] r
      in (removed \<noteq> 0, r_srem R (index_key run collection) record_id r))"

definition scratchpad_drop ::
  "'r store \<Rightarrow> string \<Rightarrow> string \<Rightarrow> string \<Rightarrow> 'r \<Rightarrow> (scratchpad_error + bool) \<times> 'r" where
  "scratchpad_drop R run collection record_id r =
     (case validate_collection_name collection of
        Inl e \<Rightarrow> (Inl e, r)
      | Inr _ \<Rightarrow> (case drop_record R run collection record_id r of (b, r') \<Rightarrow> (Inr b, r')))"

definition scratchpad_count ::
  "'r store \<Rightarrow> string \<Rightarrow> string \<Rightarrow> 'r \<Rightarrow> scratchpad_error + nat" where
  "scratchpad_count R run collection r =
     bindR (validate_collection_name collection)
       (\<lambda>_. Inr (r_scard R (index_key run collection) r))"

definition clear_collection ::
  "'r store \<Rightarrow> string \<Rightarrow> string \<Rightarrow> 'r \<Rightarrow> (scratchpad_error + nat) \<times> 'r" where
  "clear_collection R run collection r =
     (case list_ids R run collection r of
        Inl e \<Rightarrow> (Inl e, r)
      | Inr ids \<Rightarrow>
          if ids = [] then (Inr 0, r)
          else (let r = snd (r_delete R (map (record_key run collection) ids) r);
                    r = snd (r_delete R [index_key run collection] r);
                    r = r_srem R (collections_key run) collection r
                in (Inr (length ids), r)))"

fun clear_collections ::
  "'r store \<Rightarrow> string \<Rightarrow> string list \<Rightarrow> nat \<Rightarrow> 'r \<Rightarrow> (scratchpad_error + nat) \<times> 'r" where
  "clear_collections R run [] removed_sum r = (Inr removed_sum, r)"
| "clear_collections R run (c # cs) removed_sum r =
     (case clear_collection R run c r of
        (Inl e, r') \<Rightarrow> (Inl e, r')
      | (Inr n, r') \<Rightarrow> clear_collections R run cs (removed_sum + n) r')"

definition clear_run :: "'r store \<Rightarrow> string \<Rightarrow> 'r \<Rightarrow> (scratchpad_error + nat) \<times> 'r" where
  "clear_run R run r =
     (case clear_collections R run (r_smembers R (collections_key run) r) 0 r of
        (Inl e, r') \<Rightarrow> (Inl e, r')
      | (Inr removed_sum, r') \<Rightarrow> (Inr removed_sum, snd (r_delete R [collections_key run] r')))"

section \<open>Keys never collide\<close>

lemma name_char_not_colon: "name_char c \<Longrightarrow> c \<noteq> CHR '':''"
  by (auto simp: name_char_def name_start_def Let_def)

lemma append_colon_cancel:
  assumes "CHR '':'' \<notin> set a" and "CHR '':'' \<notin> set b"
  shows "a @ CHR '':'' # x = b @ CHR '':'' # y \<longleftrightarrow> a = b \<and> x = y"
proof -
  have "find_char (CHR '':'') (a @ CHR '':'' # x) = Some (length a)"
    "find_char (CHR '':'') (b @ CHR '':'' # y) = Some (length b)"
    using assms by (auto simp: find_char_append)
  then show ?thesis by (auto simp: append_eq_append_conv)
qed

lemma valid_collection_no_colon:
  assumes "valid_collection_name c"
  shows "CHR '':'' \<notin> set c"
proof -
  from assms have "\<forall>x \<in> set (strip_final_newline c). name_char x"
    by (auto simp: valid_collection_name_def name_char_def list_all_iff split: list.splits)
  then have "CHR '':'' \<notin> set (strip_final_newline c)" using name_char_not_colon by blast
  moreover have "set c \<subseteq> insert (CHR 0x0A) (set (strip_final_newline c))"
    by (cases c rule: rev_cases) (auto simp: strip_final_newline_def)
  ultimately show ?thesis by auto
qed

text \<open>
  The keys of two records are equal only when run, collection and id are all
  equal, and no record key is an index key or the key of a run's collection set, for runs
  named by ids without a colon (UUIDs) and collections that pass the name check; record ids
  may contain anything, colons included.
\<close>

theorem scratchpad_keys_injective:
  assumes "CHR '':'' \<notin> set run" and "CHR '':'' \<notin> set run'"
    and "valid_collection_name c" and "valid_collection_name c'"
  shows "(record_key run c i = record_key run' c' i' \<longleftrightarrow> run = run' \<and> c = c' \<and> i = i') \<and>
    (index_key run c = index_key run' c' \<longleftrightarrow> run = run' \<and> c = c') \<and>
    record_key run c i \<noteq> index_key run' c' \<and>
    record_key run c i \<noteq> collections_key run' \<and>
    index_key run c \<noteq> collections_key run'"
  using valid_collection_no_colon [OF assms(3)] valid_collection_no_colon [OF assms(4)] assms(1,2)
  by (auto simp: record_key_def index_key_def collections_key_def append_colon_cancel)

theorem scratchpad_keys_injective_witness:
  "record_key ''r1'' ''jobs'' ''a:b'' \<noteq> record_key ''r2'' ''jobs'' ''a:b''"
  using scratchpad_keys_injective [of "''r1''" "''r2''" "''jobs''" "''jobs''" "''a:b''" "''a:b''"]
  by (simp add: valid_collection_name_def strip_final_newline_def name_start_def name_char_def)

end
