(* ===== verification/ScratchpadSpec.thy ===== *)
theory ScratchpadSpec
  imports Scratchpad
begin

text \<open>
  What a scratchpad collection is to its clients: a finite map from ids to records.  The
  laws of one collection are the locale \<open>record_collection\<close>; every store whose commands obey
  \<open>redis_store\<close> provides it for each run and collection.
\<close>

section \<open>The interface of one collection\<close>

locale record_collection =
  fixes ids :: "'r \<Rightarrow> string set"
    and read :: "string \<Rightarrow> 'r \<Rightarrow> pydict option"
    and remove :: "string \<Rightarrow> 'r \<Rightarrow> 'r"
    and ok :: "'r \<Rightarrow> bool"
  assumes ids_remove: "ok r \<Longrightarrow> ids (remove i r) = ids r - {i}"
    and read_remove: "ok r \<Longrightarrow> read j (remove i r) = (if j = i then None else read j r)"
    and ok_remove: "ok r \<Longrightarrow> ok (remove i r)"
begin

text \<open>Every listed id has a record.\<close>

definition coherent :: "'r \<Rightarrow> bool" where
  "coherent r = (\<forall>i \<in> ids r. read i r \<noteq> None)"

lemma coherent_remove: "ok r \<Longrightarrow> coherent r \<Longrightarrow> coherent (remove i r)"
  by (auto simp: coherent_def ids_remove read_remove)

lemma remove_all:
  "ok r \<Longrightarrow> ok (fold remove js r) \<and> ids (fold remove js r) = ids r - set js \<and>
   read j (fold remove js r) = (if j \<in> set js then None else read j r)"
  by (induction js arbitrary: r) (auto simp: ids_remove read_remove ok_remove)

end

section \<open>Redis provides it\<close>

definition typed_ok :: "'r store \<Rightarrow> string \<Rightarrow> string \<Rightarrow> 'r \<Rightarrow> bool" where
  "typed_ok R run c r \<longleftrightarrow>
     r_get R (index_key run c) r = None \<and> r_get R (collections_key run) r = None"

abbreviation collection_ids :: "'r store \<Rightarrow> string \<Rightarrow> string \<Rightarrow> 'r \<Rightarrow> string set" where
  "collection_ids R run c r \<equiv> set (r_smembers R (index_key run c) r)"

lemma same_run_keys [simp]:
  "record_key run c i = record_key run c j \<longleftrightarrow> i = j"
  "record_key run c i \<noteq> index_key run d"
  "index_key run d \<noteq> record_key run c i"
  "record_key run c i \<noteq> collections_key run"
  "collections_key run \<noteq> record_key run c i"
  "index_key run c \<noteq> collections_key run"
  "collections_key run \<noteq> index_key run c"
  "index_key run c = index_key run d \<longleftrightarrow> c = d"
  by (auto simp: record_key_def index_key_def collections_key_def)

locale json_redis = redis_store R for R :: "('r, jtext) redis"

lemma json_redisI: "redis_store R \<Longrightarrow> json_redis R"
  by (simp add: json_redis_def)

sublocale json_redis \<subseteq> collection: record_collection
  "collection_ids R run c" "read_record R run c" "\<lambda>i r. snd (drop_record R run c i r)"
  "typed_ok R run c" for run c
proof (unfold_locales, goal_cases)
  case (1 r i)
  then show ?case
    by (auto simp: typed_ok_def drop_record_def split_beta get_delete members_srem members_delete)
next
  case (2 r j i)
  then show ?case
    by (auto simp: typed_ok_def drop_record_def split_beta get_delete get_srem read_record_def)
next
  case (3 r i)
  then show ?case
    by (auto simp: typed_ok_def drop_record_def split_beta get_delete get_srem)
qed

lemma stash_batch_Inr:
  assumes "stash_batch R ttl rt h run c records record_ids r = (Inr ids, r')"
  shows "\<exists>entries. (records = [] \<and> entries = [] \<and> r' = r \<or>
      records \<noteq> [] \<and> assigned_ids rt h records record_ids = Inr entries \<and>
      r' = write_batch R ttl run c entries r) \<and> ids = map fst entries"
  using assms by (auto simp: stash_batch_def split: sum.splits if_splits)

lemma assigned_ids_records:
  assumes "assigned_ids rt h records record_ids = Inr entries"
    and "check_id_count records record_ids = Inr ()"
  shows "records = map (\<lambda>e. PDict (snd e)) entries"
proof -
  let ?in = "zip [0..<length records] (zip records (explicit_ids record_ids (length records)))"
  have len: "length (explicit_ids record_ids (length records)) = length records"
    using assms(2) by (auto simp: explicit_ids_def check_id_count_def split: option.splits if_splits)
  have el: "length entries = length records"
    using mapR_length [OF assms(1) [unfolded assigned_ids_def]] len by simp
  show ?thesis
  proof (rule nth_equalityI)
    fix i assume i: "i < length records"
    then have "target_id rt h (?in ! i) = Inr (entries ! i)"
      using mapR_nth [OF assms(1) [unfolded assigned_ids_def], of i] len by simp
    with i len el show "records ! i = map (\<lambda>e. PDict (snd e)) entries ! i"
      by (cases "entries ! i") (auto simp: target_id_def split: pyval.splits if_splits)
  qed (simp add: el)
qed

context json_redis
begin

lemma get_fold_write:
  assumes "ttl > 0"
  shows "r_get R k (fold (write_record R ttl run c) entries r) =
    (case List.find (\<lambda>e. record_key run c (fst e) = k) (rev entries) of
       Some e \<Rightarrow> Some (Json (json_image (PDict (snd e))))
     | None \<Rightarrow> r_get R k r)"
  using assms
  by (induction entries arbitrary: r rule: rev_induct)
    (auto simp: write_record_def get_set split: option.splits)

lemma members_fold_write:
  assumes "ttl > 0" and "\<forall>e \<in> set entries. record_key run c (fst e) \<noteq> k"
  shows "set (r_smembers R k (fold (write_record R ttl run c) entries r)) = set (r_smembers R k r)"
  using assms(2)
  by (induction entries arbitrary: r) (auto simp: write_record_def members_set assms(1))

lemma get_write_batch:
  assumes "ttl > 0" and "typed_ok R run c r"
  shows "r_get R k (write_batch R ttl run c entries r) =
    r_get R k (fold (write_record R ttl run c) entries r)"
proof -
  let ?r = "fold (write_record R ttl run c) entries r"
  have "r_get R (index_key run c) ?r = None" "r_get R (collections_key run) ?r = None"
    using assms by (auto simp: get_fold_write typed_ok_def find_None_iff split: option.splits
        dest!: find_Some_iff [THEN iffD1])
  then show ?thesis by (simp add: write_batch_def Let_def get_sadd get_expire assms(1))
qed

lemma members_write_batch:
  assumes "ttl > 0" and "typed_ok R run c r" and "\<forall>i. k \<noteq> record_key run c i"
  shows "set (r_smembers R k (write_batch R ttl run c entries r)) =
    set (r_smembers R k r) \<union>
    (if k = index_key run c then fst ` set entries else {}) \<union>
    (if k = collections_key run then {c} else {})"
proof -
  let ?r = "fold (write_record R ttl run c) entries r"
  have n: "r_get R (index_key run c) ?r = None" "r_get R (collections_key run) ?r = None"
    using assms(1,2) by (auto simp: get_fold_write typed_ok_def find_None_iff split: option.splits
        dest!: find_Some_iff [THEN iffD1])
  have "set (r_smembers R k ?r) = set (r_smembers R k r)"
    by (rule members_fold_write [OF assms(1)]) (use assms(3) in metis)
  with n show ?thesis
    by (auto simp: write_batch_def Let_def get_sadd get_expire members_expire members_sadd assms(1)
        split: if_splits)
qed

lemma write_batch_typed:
  "ttl > 0 \<Longrightarrow> typed_ok R run c r \<Longrightarrow> typed_ok R run c (write_batch R ttl run c entries r)"
  by (auto simp: typed_ok_def get_write_batch get_fold_write find_None_iff split: option.splits
        dest!: find_Some_iff [THEN iffD1])

lemma read_write_batch:
  assumes "ttl > 0" and "typed_ok R run c r"
  shows "read_record R run c i (write_batch R ttl run c entries r) =
    (case map_of (rev entries) i of
       Some d \<Rightarrow> Some (map (\<lambda>p. (fst p, json_image (snd p))) d)
     | None \<Rightarrow> read_record R run c i r)"
proof -
  have "List.find (\<lambda>e. fst e = i) es = map_option (Pair i) (map_of es i)"
    for es :: "(string \<times> pydict) list"
    by (induction es) auto
  then show ?thesis
    by (auto simp: read_record_def get_write_batch get_fold_write assms split: option.splits)
qed

lemma coherent_write_batch:
  assumes "ttl > 0" and "typed_ok R run c r" and "collection.coherent run c r"
  shows "collection.coherent run c (write_batch R ttl run c entries r)"
proof -
  have "read_record R run c i (write_batch R ttl run c entries r) \<noteq> None"
    if "i \<in> fst ` set entries \<or> read_record R run c i r \<noteq> None" for i
    using that assms(1,2)
    by (auto simp: read_write_batch map_of_eq_None_iff image_iff split: option.splits)
  with assms show ?thesis
    unfolding collection.coherent_def by (auto simp: members_write_batch)
qed

lemma clear_collection_effect:
  assumes "typed_ok R run c r" and "clear_collection R run c r = (Inr n, r')"
  shows "n = card (collection_ids R run c r) \<and> collection_ids R run c r' = {} \<and>
    (\<forall>i. read_record R run c i r' =
       (if i \<in> collection_ids R run c r then None else read_record R run c i r))"
proof (cases "r_smembers R (index_key run c) r = []")
  case True
  with assms show ?thesis
    by (auto simp: clear_collection_def list_ids_def bindR_def split: sum.splits)
next
  case False
  with assms show ?thesis
    by (auto simp: clear_collection_def list_ids_def bindR_def Let_def get_delete members_delete
        members_srem get_srem typed_ok_def read_record_def distinct_card members_distinct
        set_empty [symmetric] split: sum.splits simp del: set_empty)
qed

lemma stash_read_back:
  assumes "ttl > 0" and "typed_ok R run c r"
    and "stash_batch R ttl rt h run c records record_ids r = (Inr ids, r')" and "distinct ids"
  shows "length ids = length records \<and>
    (\<forall>i < length records. map_option PDict (read_record R run c (ids ! i) r')
       = Some (json_image (records ! i))) \<and>
    collection_ids R run c r' = collection_ids R run c r \<union> set ids"
proof -
  have chk: "check_id_count records record_ids = Inr ()"
    using assms(3) by (auto simp: stash_batch_def bindR_def split: sum.splits)
  obtain entries where e: "records = [] \<and> entries = [] \<and> r' = r \<or>
      records \<noteq> [] \<and> assigned_ids rt h records record_ids = Inr entries \<and>
      r' = write_batch R ttl run c entries r" "ids = map fst entries"
    using stash_batch_Inr [OF assms(3)] by blast
  show ?thesis
  proof (cases "records = []")
    case True
    with e show ?thesis by auto
  next
    case False
    with e have r': "r' = write_batch R ttl run c entries r"
      and recs: "records = map (\<lambda>e. PDict (snd e)) entries"
      using assigned_ids_records [OF _ chk] by auto
    have "map_of (rev entries) (fst (entries ! i)) = Some (snd (entries ! i))"
      if "i < length entries" for i
      using assms(4) that unfolding e(2) by (intro map_of_is_SomeI) (auto simp: rev_map [symmetric])
    then show ?thesis
      by (auto simp: r' recs e(2) read_write_batch members_write_batch assms(1,2))
  qed
qed

end

section \<open>Properties of the store\<close>

text \<open>
  After a batch has been stashed under distinct ids, reading each returned
  id gives the record that was stashed at its position, as JSON carries it, and the ids
  listed for the collection are the old ones and the returned ones.
\<close>

theorem stash_batch_read_back:
  assumes "redis_store R" and "ttl > 0" and "typed_ok R run c r"
    and "stash_batch R ttl rt h run c records record_ids r = (Inr ids, r')" and "distinct ids"
  shows "length ids = length records \<and>
    (\<forall>i < length records. map_option PDict (read_record R run c (ids ! i) r')
       = Some (json_image (records ! i))) \<and>
    collection_ids R run c r' = collection_ids R run c r \<union> set ids"
  by (rule json_redis.stash_read_back [OF json_redisI [OF assms(1)] assms(2-5)])

interpretation keyspace_json: json_redis keyspace_ops
  by (rule json_redisI) (rule keyspace.redis_store_axioms)

lemma empty_typed_ok: "typed_ok keyspace_ops run c empty_keyspace"
  by (simp add: typed_ok_def keyspace_ops_def empty_keyspace_def ks_get_def)

theorem stash_batch_read_back_witness:
  "\<exists>ids r'. stash_batch keyspace_ops 60 \<lparr>rt_getattr = \<lambda>_ _. PNone, rt_float_str = \<lambda>_. []\<rparr> id
       ''r1'' ''jobs'' [PDict [(''n'', PInt 1)]] (Some [PStr ''a'']) empty_keyspace = (Inr ids, r')
     \<and> map_option PDict (read_record keyspace_ops ''r1'' ''jobs'' (ids ! 0) r')
         = Some (PDict [(''n'', PInt 1)])"
proof -
  let ?call = "stash_batch keyspace_ops 60 \<lparr>rt_getattr = \<lambda>_ _. PNone, rt_float_str = \<lambda>_. []\<rparr> id
    ''r1'' ''jobs'' [PDict [(''n'', PInt 1)]] (Some [PStr ''a'']) empty_keyspace"
  have ids: "fst ?call = Inr [''a'']" by code_simp
  then have "?call = (Inr [''a''], snd ?call)" by (simp add: prod_eq_iff)
  then show ?thesis
    using stash_batch_read_back [OF keyspace.redis_store_axioms _ empty_typed_ok, of 60]
    by fastforce
qed

text \<open>
  Clearing a collection removes every record listed for it and nothing else
  of the collection, and returns how many ids were listed.
\<close>

theorem clear_collection_removes_listed:
  assumes "redis_store R" and "typed_ok R run c r" and "clear_collection R run c r = (Inr n, r')"
  shows "n = card (collection_ids R run c r) \<and> collection_ids R run c r' = {} \<and>
    (\<forall>i. read_record R run c i r' =
       (if i \<in> collection_ids R run c r then None else read_record R run c i r))"
  by (rule json_redis.clear_collection_effect [OF json_redisI [OF assms(1)] assms(2,3)])

theorem clear_collection_removes_listed_witness:
  "\<exists>r'. clear_collection keyspace_ops ''r1'' ''jobs'' empty_keyspace = (Inr 0, r') \<and>
     collection_ids keyspace_ops ''r1'' ''jobs'' r' = {}"
proof -
  have "fst (clear_collection keyspace_ops ''r1'' ''jobs'' empty_keyspace) = Inr 0" by code_simp
  then have c: "clear_collection keyspace_ops ''r1'' ''jobs'' empty_keyspace
      = (Inr 0, snd (clear_collection keyspace_ops ''r1'' ''jobs'' empty_keyspace))"
    by (simp add: prod_eq_iff)
  then show ?thesis
    using clear_collection_removes_listed [OF keyspace.redis_store_axioms empty_typed_ok c] by blast
qed

end
