(* ===== verification/FlowRunner.thy ===== *)
theory FlowRunner
  imports FlowGraph ScratchpadSpec
begin

text \<open>
  Executing a flow run (\<open>FlowRunner\<close> in luna_core/engine/runner.py with \<open>get_flow_run\<close> and
  \<open>set_run_status\<close> of luna_core/services/flow.py): the status of the run row, the snapshot
  and the control keys in Redis, and the outcomes of the streamed execution.

  The compiled graph belongs to the graph library: \<open>re_astream\<close> starts it and \<open>re_pull\<close>
  asks it for the next event, in which the nodes of one step have run.
\<close>

datatype run_status = Pending | Running | Paused | Completed | Failed

record flow_run =
  fr_id :: string
  fr_flow_id :: string
  fr_status :: run_status
  fr_trigger :: pydict
  fr_state :: pydict
  fr_created_at :: "string option"
  fr_started_at :: "string option"
  fr_completed_at :: "string option"
  fr_cleared_at :: "string option"

text \<open>
  The services a runner works with: rows of runs and flows, Redis, the emitter of the run,
  the channel of the flow's runs, the clock and the compiled graph.
\<close>

record ('w, 'g) runner_env =
  re_rt :: pyrt
  re_redis :: "'w store"
  re_stream_ttl :: nat
  re_get_run :: "string \<Rightarrow> 'w \<Rightarrow> flow_run option"
  re_commit_run :: "flow_run \<Rightarrow> ('w, unit) act"
  re_definition :: "string \<Rightarrow> ('w, flow_definition) act"
  re_emit :: "string \<Rightarrow> string \<Rightarrow> string option \<Rightarrow> pydict \<Rightarrow> ('w, unit) act"
  re_save_user_message :: "string \<Rightarrow> string \<Rightarrow> string \<Rightarrow> ('w, unit) act"
  re_publish_run :: "flow_run \<Rightarrow> ('w, unit) act"
  re_now :: "('w, string) act"
  re_scan :: "string \<Rightarrow> ('w, string list) act"
  re_astream :: "flow_graph \<Rightarrow> pydict \<Rightarrow> string \<Rightarrow> 'g"
  re_pull :: "'g \<Rightarrow> ('w, ('g \<times> pydict) option) act"

section \<open>Keys\<close>

definition run_state_key :: "string \<Rightarrow> string" where
  "run_state_key run = ''run_state:'' @ run"

definition abort_key :: "string \<Rightarrow> string" where
  "abort_key run = ''abort:'' @ run"

definition stream_key :: "string \<Rightarrow> string \<Rightarrow> string" where
  "stream_key run message = ''stream:msg:'' @ run @ '':'' @ message"

definition inflight_meta_key :: "string \<Rightarrow> string \<Rightarrow> string" where
  "inflight_meta_key run message = ''stream_meta:msg:'' @ run @ '':'' @ message"

section \<open>Rows of runs\<close>

definition get_flow_run :: "('w, 'g) runner_env \<Rightarrow> string \<Rightarrow> ('w, flow_run) act" where
  "get_flow_run env run_id =
     bindA (readA (re_get_run env run_id)) (\<lambda>row.
       case row of None \<Rightarrow> raiseA (OtherError ''FlowRunNotFound'' run_id) | Some r \<Rightarrow> returnA r)"

definition with_status :: "run_status \<Rightarrow> pydict option \<Rightarrow> string \<Rightarrow> flow_run \<Rightarrow> flow_run" where
  "with_status status state now run =
     (let run = run\<lparr>fr_status := status\<rparr>;
          run = (case state of None \<Rightarrow> run | Some s \<Rightarrow> run\<lparr>fr_state := s\<rparr>);
          run = (if status = Running \<and> fr_started_at run = None
                 then run\<lparr>fr_started_at := Some now\<rparr> else run)
      in if status = Completed \<or> status = Failed
         then run\<lparr>fr_completed_at := Some now\<rparr> else run)"

definition set_run_status ::
  "('w, 'g) runner_env \<Rightarrow> string \<Rightarrow> run_status \<Rightarrow> pydict option \<Rightarrow> ('w, unit) act" where
  "set_run_status env run_id status state =
     bindA (get_flow_run env run_id) (\<lambda>run.
     bindA (re_now env) (\<lambda>now.
     bindA (re_commit_run env (with_status status state now run)) (\<lambda>_.
       re_publish_run env (with_status status state now run))))"

section \<open>Snapshots\<close>

definition persist_run_state :: "('w, 'g) runner_env \<Rightarrow> string \<Rightarrow> pydict \<Rightarrow> 'w \<Rightarrow> 'w" where
  "persist_run_state env run_id state w =
     r_set (re_redis env) (run_state_key run_id) (Json (json_image (PDict state)))
       (re_stream_ttl env) w"

definition cleanup_run_keys :: "('w, 'g) runner_env \<Rightarrow> string \<Rightarrow> ('w, unit) act" where
  "cleanup_run_keys env run_id =
     bindA (tryA (re_scan env run_id) (\<lambda>_. returnA [])) (\<lambda>scanned.
       writeA (\<lambda>w. snd (r_delete (re_redis env)
         ([run_state_key run_id, abort_key run_id] @ scanned) w)))"

definition dict_or_empty :: "pyval \<Rightarrow> pydict" where
  "dict_or_empty v = (case v of PDict d \<Rightarrow> d | _ \<Rightarrow> [])"

definition fresh_state :: "flow_run \<Rightarrow> pydict" where
  "fresh_state run =
     (let trigger = fr_trigger run;
          metadata = dict_or_empty (dget trigger ''metadata'');
          has = fr_state run \<noteq> []
      in [(''run_id'', PStr (fr_id run)),
          (''flow_id'', PStr (fr_flow_id run)),
          (''inputs'', dget_or trigger ''inputs'' (PDict [])),
          (''trigger'', PDict (dupdate
             [(''source'', dget_or trigger ''source'' (PStr ''manual'')),
              (''timestamp'', (case fr_created_at run of None \<Rightarrow> PNone | Some t \<Rightarrow> PStr t)),
              (''user_id'', dget metadata ''user_id''),
              (''run_id'', PStr (fr_id run))]
             (filter (\<lambda>p. fst p \<noteq> ''user_id'') metadata))),
          (''context'', if has then dget_or (fr_state run) ''context'' (PDict []) else PDict []),
          (''outputs'', if has then dget_or (fr_state run) ''outputs'' (PDict []) else PDict []),
          (''current_node'', if has then dget (fr_state run) ''current_node'' else PStr []),
          (''error'', PNone)])"

definition build_initial_state ::
  "('w, 'g) runner_env \<Rightarrow> string \<Rightarrow> pydict \<Rightarrow> ('w, pydict) act" where
  "build_initial_state env run_id extra_state =
     bindA (readA (r_get (re_redis env) (run_state_key run_id))) (\<lambda>cached.
       case Option.bind cached json_loads of
         Some (PDict state) \<Rightarrow> returnA (dupdate state extra_state)
       | _ \<Rightarrow> bindA (get_flow_run env run_id) (\<lambda>run.
                returnA (dupdate (fresh_state run) extra_state)))"

section \<open>Execution\<close>

definition merge_event :: "pydict \<Rightarrow> pydict \<Rightarrow> pydict" where
  "merge_event final event =
     foldl (\<lambda>st v. case v of PDict update \<Rightarrow> merge_state st update | _ \<Rightarrow> st) final (map snd event)"

text \<open>
  The \<open>async for\<close> over the stream.  It ends with the exception that ended it, if any, and
  the state merged so far; \<open>None\<close> is a stream that never ends.
\<close>

partial_function (option) stream_loop ::
  "('w, 'g) runner_env \<Rightarrow> string \<Rightarrow> 'g \<Rightarrow> pydict \<Rightarrow> 'w \<Rightarrow> ((exn option \<times> pydict) \<times> 'w) option" where
  "stream_loop env run_id g final w =
     (case re_pull env g w of
        None \<Rightarrow> None
      | Some (r, w') \<Rightarrow>
          (case r of
             Inl e \<Rightarrow> Some ((Some e, final), w')
           | Inr None \<Rightarrow> Some ((None, final), w')
           | Inr (Some (g', event)) \<Rightarrow>
               if r_exists (re_redis env) (abort_key run_id) w' then
                 Some ((Some (AbortSignalError run_id
                   (py_str (re_rt env) (dget_or final ''current_node'' (PStr [])))), final), w')
               else stream_loop env run_id g' (merge_event final event)
                      (persist_run_state env run_id (merge_event final event) w')))"

declare stream_loop.simps [code]

definition on_pause ::
  "('w, 'g) runner_env \<Rightarrow> string \<Rightarrow> string \<Rightarrow> pydict \<Rightarrow> ('w, unit) act" where
  "on_pause env run_id node_id final =
     (let final = dset final ''current_node'' (PStr node_id)
      in bindA (set_run_status env run_id Paused (Some final)) (\<lambda>_.
           writeA (persist_run_state env run_id final)))"

definition on_failure ::
  "('w, 'g) runner_env \<Rightarrow> string \<Rightarrow> string \<Rightarrow> pydict \<Rightarrow> pydict \<Rightarrow> ('w, unit) act" where
  "on_failure env run_id error payload final =
     (let final = dset final ''error'' (PStr error)
      in bindA (re_emit env run_id ''flow_failed'' None payload) (\<lambda>_.
         bindA (set_run_status env run_id Failed (Some final)) (\<lambda>_.
           cleanup_run_keys env run_id)))"

definition on_complete :: "('w, 'g) runner_env \<Rightarrow> string \<Rightarrow> pydict \<Rightarrow> ('w, unit) act" where
  "on_complete env run_id final =
     bindA (re_now env) (\<lambda>now.
     bindA (re_emit env run_id ''flow_completed'' None
        [(''completed_at'', PStr now),
         (''output_keys'', PList (map PStr (sort_strs (map fst
            (dict_or_empty (dget final ''outputs''))))))]) (\<lambda>_.
     bindA (set_run_status env run_id Completed (Some final)) (\<lambda>_.
       cleanup_run_keys env run_id)))"

definition finish_run ::
  "('w, 'g) runner_env \<Rightarrow> string \<Rightarrow> exn option \<times> pydict \<Rightarrow> ('w, unit) act" where
  "finish_run env run_id outcome =
     (case outcome of
        (None, final) \<Rightarrow> on_complete env run_id final
      | (Some (HumanCheckpointInterrupt node_id _), final) \<Rightarrow> on_pause env run_id node_id final
      | (Some (AbortSignalError _ _), final) \<Rightarrow>
          on_failure env run_id ''aborted'' [(''reason'', PStr ''aborted'')] final
      | (Some e, final) \<Rightarrow>
          if catchable e then
            on_failure env run_id (exn_text e)
              [(''error'', PStr (exn_text e)), (''type'', PStr (exn_name e))] final
          else raiseA e)"

definition execute_flow ::
  "('w, 'g) runner_env \<Rightarrow> string \<Rightarrow> flow_definition \<Rightarrow> bool \<Rightarrow> pydict \<Rightarrow> ('w, unit) act" where
  "execute_flow env run_id d resume extra_state =
     bindA (liftR (build_graph d)) (\<lambda>graph.
     bindA (set_run_status env run_id Running None) (\<lambda>_.
     bindA (if resume then returnA ()
            else re_emit env run_id ''flow_started'' None
                   [(''entry_point'', PStr (fd_entry_point d))]) (\<lambda>_.
     bindA (build_initial_state env run_id extra_state) (\<lambda>initial.
     bindA (writeA (persist_run_state env run_id initial)) (\<lambda>_.
     bindA (\<lambda>w. map_option (\<lambda>(r, w'). (Inr r, w'))
              (stream_loop env run_id (re_astream env graph initial run_id) initial w))
       (finish_run env run_id))))))"

definition run_flow :: "('w, 'g) runner_env \<Rightarrow> string \<Rightarrow> ('w, string) act" where
  "run_flow env run_id =
     bindA (get_flow_run env run_id) (\<lambda>run.
     bindA (re_definition env (fr_flow_id run)) (\<lambda>d.
     bindA (execute_flow env (fr_id run) d False []) (\<lambda>_. returnA (fr_id run))))"

fun status_text :: "run_status \<Rightarrow> string" where
  "status_text Pending = ''pending''"
| "status_text Running = ''running''"
| "status_text Paused = ''paused''"
| "status_text Completed = ''completed''"
| "status_text Failed = ''failed''"

definition resume_flow ::
  "('w, 'g) runner_env \<Rightarrow> string \<Rightarrow> string \<Rightarrow> pydict \<Rightarrow> ('w, string) act" where
  "resume_flow env run_id human_response metadata =
     bindA (get_flow_run env run_id) (\<lambda>run.
       if fr_status run \<noteq> Paused then
         raiseA (OtherError ''ValueError'' (''flow run '' @ run_id @ '' is not paused (status=''
           @ ''FlowRunStatus.'' @ status_text (fr_status run) @ '')''))
       else
         bindA (re_definition env (fr_flow_id run)) (\<lambda>d.
         bindA (returnA (py_str (re_rt env)
             (py_or (dget (fr_state run) ''current_node'') (PStr ''human_checkpoint'')))) (\<lambda>current.
         bindA (re_save_user_message env run_id current human_response) (\<lambda>_.
         bindA (re_emit env run_id ''human_response'' (Some current)
             [(''response'', PStr human_response), (''metadata'', PDict metadata)]) (\<lambda>_.
         bindA (execute_flow env run_id d True [(''human_response'', PStr human_response)]) (\<lambda>_.
           returnA run_id))))))"

section \<open>The services and what they promise\<close>

text \<open>
  Postgres and Redis are separate services: committing a row leaves the keys alone, a Redis
  command leaves the rows alone, and what the runner calls besides them (emitter, channel,
  clock, the nodes of the graph) writes neither the row of the run nor, apart from the
  nodes, its control keys.
\<close>

locale run_services = json_redis "re_redis env" for env :: "('w, 'g) runner_env" +
  assumes ttl: "re_stream_ttl env > 0"
    and row_id: "re_get_run env i w = Some row \<Longrightarrow> fr_id row = i"
    and commit: "re_commit_run env row w = Some (Inr u, w') \<Longrightarrow>
      re_get_run env i w' = (if i = fr_id row then Some row else re_get_run env i w)"
    and commit_failed: "re_commit_run env row w = Some (Inl e, w') \<Longrightarrow>
      re_get_run env i w' = re_get_run env i w"
    and commit_keys: "keeps (\<lambda>w. (r_get (re_redis env) k w, r_exists (re_redis env) k w))
      (re_commit_run env row)"
    and row_set: "re_get_run env i (r_set (re_redis env) k v t w) = re_get_run env i w"
    and row_delete: "re_get_run env i (snd (r_delete (re_redis env) ks w)) = re_get_run env i w"
    and emit_row: "keeps (re_get_run env i) (re_emit env run kind node payload)"
    and publish_row: "keeps (re_get_run env i) (re_publish_run env row)"
    and publish_keys: "keeps (\<lambda>w. (r_get (re_redis env) k w, r_exists (re_redis env) k w))
      (re_publish_run env row)"
    and now_row: "keeps (re_get_run env i) (re_now env)"
    and now_keys: "keeps (\<lambda>w. (r_get (re_redis env) k w, r_exists (re_redis env) k w)) (re_now env)"
    and scan_row: "keeps (re_get_run env i) (re_scan env run)"
    and pull_row: "keeps (re_get_run env i) (re_pull env g)"
begin

lemma set_run_status_effect:
  assumes "set_run_status env run status state w = Some (Inr u, w')"
  shows "\<exists>row. re_get_run env run w' = Some row \<and> fr_status row = status \<and>
    (\<forall>s. state = Some s \<longrightarrow> fr_state row = s) \<and>
    (status = Completed \<or> status = Failed \<longrightarrow> fr_completed_at row \<noteq> None)"
proof -
  from assms obtain row now w1 w2 w3 where
    r: "re_get_run env run w = Some row" "re_now env w = Some (Inr now, w2)"
    "re_commit_run env (with_status status state now row) w2 = Some (Inr (), w3)"
    "re_publish_run env (with_status status state now row) w3 = Some (Inr u, w')"
    by (auto simp: set_run_status_def get_flow_run_def bindA_Some readA_def returnA_def raiseA_def
        split: option.splits)
  have id: "fr_id (with_status status state now row) = run"
    using row_id [OF r(1)] by (simp add: with_status_def Let_def split: option.splits)
  have "re_get_run env run w3 = Some (with_status status state now row)"
    using commit [OF r(3), of run] id by simp
  then have "re_get_run env run w' = Some (with_status status state now row)"
    using keepsD [OF publish_row r(4)] by metis
  then show ?thesis by (auto simp: with_status_def Let_def split: option.splits)
qed

lemma cleanup_effect:
  assumes "cleanup_run_keys env run w = Some (Inr u, w')"
  shows "r_get (re_redis env) (run_state_key run) w' = None \<and>
    \<not> r_exists (re_redis env) (abort_key run) w' \<and> re_get_run env i w' = re_get_run env i w"
proof -
  let ?scan = "tryA (re_scan env run) (\<lambda>_. returnA [])"
  from assms obtain keys w1 where k: "?scan w = Some (Inr keys, w1)"
    "w' = snd (r_delete (re_redis env) ([run_state_key run, abort_key run] @ keys) w1)"
    by (auto simp: cleanup_run_keys_def bindA_Some writeA_def)
  have "keeps (re_get_run env i) ?scan" by (intro keeps_intros scan_row)
  from keepsD [OF this k(1)] show ?thesis
    by (simp add: k(2) get_delete exists_delete row_delete)
qed

text \<open>What holds of a run when its execution has returned.\<close>

definition settled :: "string \<Rightarrow> 'w \<Rightarrow> bool" where
  "settled run w =
     (\<exists>row. re_get_run env run w = Some row \<and>
        (if fr_status row = Paused then
           r_get (re_redis env) (run_state_key run) w
             = Some (Json (json_image (PDict (fr_state row))))
         else (fr_status row = Completed \<or> fr_status row = Failed) \<and>
           fr_completed_at row \<noteq> None \<and>
           r_get (re_redis env) (run_state_key run) w = None \<and>
           \<not> r_exists (re_redis env) (abort_key run) w))"

lemma on_pause_settled: "on_pause env run node final w = Some (Inr u, w') \<Longrightarrow> settled run w'"
  by (auto simp: on_pause_def Let_def bindA_Some writeA_def settled_def persist_run_state_def
      row_set get_set ttl dest!: set_run_status_effect)

lemma terminal_settled:
  assumes "set_run_status env run status (Some final) w = Some (Inr (), w1)"
    and "cleanup_run_keys env run w1 = Some (Inr u, w')"
    and "status = Completed \<or> status = Failed"
  shows "settled run w'"
proof -
  obtain row where row: "re_get_run env run w1 = Some row" "fr_status row = status"
    "fr_completed_at row \<noteq> None"
    using set_run_status_effect [OF assms(1)] assms(3) by blast
  with cleanup_effect [OF assms(2), of run] assms(3) show ?thesis
    unfolding settled_def by (intro exI [of _ row]) auto
qed

lemma finish_run_settled:
  assumes "finish_run env run outcome w = Some (Inr u, w')"
  shows "settled run w'"
proof -
  have failure: "settled run w'" if "on_failure env run m p final w = Some (Inr u, w')" for m p final
    using that by (auto simp: on_failure_def Let_def bindA_Some dest: terminal_settled)
  obtain r final where o: "outcome = (r, final)" by (cases outcome)
  show ?thesis
  proof (cases r)
    case None
    with assms o show ?thesis
      by (auto simp: finish_run_def on_complete_def bindA_Some dest: terminal_settled)
  next
    case (Some e)
    with assms o on_pause_settled failure show ?thesis
      by (cases e) (auto simp: finish_run_def raiseA_def)
  qed
qed

lemma execute_flow_settled:
  assumes "execute_flow env run d resume extra w = Some (Inr u, w')"
  shows "settled run w'"
  using assms finish_run_settled by (auto simp: execute_flow_def bindA_Some)

end

section \<open>A concrete instance of the services\<close>

text \<open>
  Rows in a table and one keyspace; the emitter and the channel record nothing, the scan
  finds nothing, and the stream yields a given list of events and then a given end.
\<close>

record runner_world =
  rw_rows :: "(string \<times> flow_run) list"
  rw_keys :: "jtext keyspace"

type_synonym script = "pydict list \<times> exn option"

definition sample_runner_env :: "script \<Rightarrow> (runner_world, script) runner_env" where
  "sample_runner_env script =
     \<lparr>re_rt = \<lparr>rt_getattr = \<lambda>_ _. PNone, rt_float_str = \<lambda>_. []\<rparr>,
      re_redis = lift_redis rw_keys (\<lambda>r w. w\<lparr>rw_keys := r\<rparr>) keyspace_ops,
      re_stream_ttl = 3600,
      re_get_run = (\<lambda>i w. case map_of (rw_rows w) i of
         Some row \<Rightarrow> if fr_id row = i then Some row else None | None \<Rightarrow> None),
      re_commit_run = (\<lambda>row. writeA (\<lambda>w. w\<lparr>rw_rows := dset (rw_rows w) (fr_id row) row\<rparr>)),
      re_definition = (\<lambda>_. returnA sample_definition),
      re_emit = (\<lambda>_ _ _ _. returnA ()),
      re_save_user_message = (\<lambda>_ _ _. returnA ()),
      re_publish_run = (\<lambda>_. returnA ()),
      re_now = returnA ''now'',
      re_scan = (\<lambda>_. returnA []),
      re_astream = (\<lambda>_ _ _. script),
      re_pull = (\<lambda>(events, ending). case events of
         [] \<Rightarrow> (case ending of None \<Rightarrow> returnA None | Some e \<Rightarrow> raiseA e)
       | ev # evs \<Rightarrow> returnA (Some ((evs, ending), ev)))\<rparr>"

lemma sample_runner_simps [simp]:
  "re_redis (sample_runner_env script)
     = lift_redis rw_keys (\<lambda>r w. w\<lparr>rw_keys := r\<rparr>) keyspace_ops"
  "re_stream_ttl (sample_runner_env script) = 3600"
  "re_get_run (sample_runner_env script) = (\<lambda>i w. case map_of (rw_rows w) i of
     Some row \<Rightarrow> if fr_id row = i then Some row else None | None \<Rightarrow> None)"
  "re_commit_run (sample_runner_env script)
     = (\<lambda>row. writeA (\<lambda>w. w\<lparr>rw_rows := dset (rw_rows w) (fr_id row) row\<rparr>))"
  "re_emit (sample_runner_env script) = (\<lambda>_ _ _ _. returnA ())"
  "re_publish_run (sample_runner_env script) = (\<lambda>_. returnA ())"
  "re_now (sample_runner_env script) = returnA ''now''"
  "re_scan (sample_runner_env script) = (\<lambda>_. returnA [])"
  by (simp_all add: sample_runner_env_def)

lemma sample_pull_row: "keeps view (re_pull (sample_runner_env script) g)"
  by (cases g) (auto simp: sample_runner_env_def keeps_intros split: list.splits option.splits)

interpretation sample_runner: run_services "sample_runner_env script" for script
proof (intro run_services.intro json_redisI run_services_axioms.intro, goal_cases)
  case 1
  show ?case by (simp add: lift_redis_store keyspace.redis_store_axioms)
next
  case (3 i w row)
  then show ?case by (auto split: option.splits if_splits)
next
  case (4 row w u w' i)
  then show ?case by (auto simp: writeA_def)
next
  case (5 row w e w' i)
  then show ?case by (auto simp: writeA_def)
next
  case (6 k row)
  show ?case by (auto simp: writeA_def keeps_def lift_redis_def)
next
  case (7 i k v t w)
  show ?case by (simp add: lift_redis_def)
next
  case (8 i ks w)
  show ?case by (simp add: lift_redis_def split_beta)
qed (simp_all add: keeps_intros sample_pull_row del: sample_runner_simps(3))

section \<open>Properties\<close>


definition sample_world :: runner_world where
  "sample_world = \<lparr>rw_rows = [(''r1'', \<lparr>fr_id = ''r1'', fr_flow_id = ''f1'', fr_status = Pending,
     fr_trigger = [], fr_state = [], fr_created_at = None, fr_started_at = None,
     fr_completed_at = None, fr_cleared_at = None\<rparr>)], rw_keys = empty_keyspace\<rparr>"

definition sample_script :: script where
  "sample_script = ([[(''a'', PDict [(''outputs'', PDict [(''a'', PInt 1)])])]],
     Some (HumanCheckpointInterrupt ''b'' []))"

lemma sample_run_returns:
  "map_option fst (execute_flow (sample_runner_env sample_script) ''r1'' sample_definition False []
     sample_world) = Some (Inr ())"
  by code_simp


end
