(* ===== verification/Dedup.thy ===== *)
theory Dedup
  imports Registries
begin

text \<open>
  The dedup configuration of a node (luna_core/dedup/node_config.py): resolving
  \<open>stash.dedup\<close> against the registry of checkers, projecting records into a checker's
  canonical fields, and putting the verdicts back at the records' positions.

  A checker's handler belongs to the host application: a function from the projected records
  and the world it reads through the call context to verdicts, or an exception.
\<close>

type_synonym 'w checker_handler =
  "pydict list \<Rightarrow> 'w \<Rightarrow> (exn + dedup_verdict option list) \<times> 'w"

datatype dedup_config_error = StashDedupConfigError string

record 'h stash_dedup_binding =
  sb_checker :: "'h dedup_checker"
  sb_field_map :: "(string \<times> string) list"

section \<open>Resolving the configuration\<close>

fun resolve_dedup_fields ::
  "string \<Rightarrow> string \<Rightarrow> pydict \<Rightarrow> dedup_field_spec list \<Rightarrow> (string \<times> string) list
   \<Rightarrow> dedup_config_error + (string \<times> string) list" where
  "resolve_dedup_fields node_id checker_name raw_fields [] field_map = Inr field_map"
| "resolve_dedup_fields node_id checker_name raw_fields (spec # specs) field_map =
     (case dget raw_fields (fs_name spec) of
        PStr mapped \<Rightarrow>
          if mapped = [] then
            (if fs_optional spec then
               resolve_dedup_fields node_id checker_name raw_fields specs field_map
             else Inl (StashDedupConfigError (''ai_agent node '' @ node_id
               @ '': stash.dedup.fields is missing a mapping for required field ''
               @ str_repr (fs_name spec) @ '' of checker '' @ str_repr checker_name)))
          else resolve_dedup_fields node_id checker_name raw_fields specs
                 (dset field_map (fs_name spec) mapped)
      | PNone \<Rightarrow>
          (if fs_optional spec then
             resolve_dedup_fields node_id checker_name raw_fields specs field_map
           else Inl (StashDedupConfigError (''ai_agent node '' @ node_id
             @ '': stash.dedup.fields is missing a mapping for required field ''
             @ str_repr (fs_name spec) @ '' of checker '' @ str_repr checker_name)))
      | v \<Rightarrow> Inl (StashDedupConfigError (''ai_agent node '' @ node_id
             @ '': stash.dedup.fields['' @ str_repr (fs_name spec)
             @ ''] must be a string (the record field to read), got '' @ type_name v)))"

definition resolve_stash_dedup_binding ::
  "pyval \<Rightarrow> string \<Rightarrow> 'h checker_registry
   \<Rightarrow> dedup_config_error + 'h stash_dedup_binding option" where
  "resolve_stash_dedup_binding stash_cfg node_id registry =
     (case stash_cfg of
        PDict cfg \<Rightarrow>
          (let dedup_cfg = dget cfg ''dedup''
           in if \<not> truthy dedup_cfg then Inr None
              else (case dedup_cfg of
                PDict d \<Rightarrow>
                  (case dget d ''checker'' of
                     PStr name \<Rightarrow>
                       if name = [] then
                         Inl (StashDedupConfigError (''ai_agent node '' @ node_id
                           @ '': stash.dedup.checker must be a non-empty string''))
                       else (case get_checker registry name of
                         None \<Rightarrow> Inl (StashDedupConfigError (''ai_agent node '' @ node_id
                           @ '': stash.dedup.checker '' @ str_repr name
                           @ '' is not a registered dedup checker''))
                       | Some checker \<Rightarrow>
                           (case py_or (dget d ''fields'') (PDict []) of
                              PDict raw_fields \<Rightarrow>
                                (case resolve_dedup_fields node_id (dc_name checker) raw_fields
                                        (dc_required_fields checker) [] of
                                   Inl e \<Rightarrow> Inl e
                                 | Inr fm \<Rightarrow> Inr (Some \<lparr>sb_checker = checker,
                                                     sb_field_map = fm\<rparr>))
                            | _ \<Rightarrow> Inl (StashDedupConfigError (''ai_agent node '' @ node_id
                                @ '': stash.dedup.fields must be an object mapping ''
                                @ ''checker fields to record fields''))))
                   | _ \<Rightarrow> Inl (StashDedupConfigError (''ai_agent node '' @ node_id
                           @ '': stash.dedup.checker must be a non-empty string'')))
              | _ \<Rightarrow> Inl (StashDedupConfigError (''ai_agent node '' @ node_id
                        @ '': stash.dedup must be an object''))))
      | _ \<Rightarrow> Inr None)"

section \<open>Projection and verdicts\<close>

text \<open>One pass over \<open>field_map.items()\<close>: the projected fields and the missing sources.\<close>

fun project_fields ::
  "string list \<Rightarrow> pydict \<Rightarrow> (string \<times> string) list \<Rightarrow> pydict \<times> string list" where
  "project_fields optionals rec [] = ([], [])"
| "project_fields optionals rec ((canonical, source) # fm) =
     (let (slim, missing) = project_fields optionals rec fm
      in (case map_of rec source of
            None \<Rightarrow> if canonical \<in> set optionals then (slim, missing) else (slim, source # missing)
          | Some v \<Rightarrow> ((canonical, v) # slim, missing)))"

definition optional_canonicals :: "'h stash_dedup_binding \<Rightarrow> string list" where
  "optional_canonicals binding =
     map fs_name (filter fs_optional (dc_required_fields (sb_checker binding)))"

definition project_record ::
  "pyrt \<Rightarrow> 'h stash_dedup_binding \<Rightarrow> pyval \<Rightarrow> pydict option \<times> dedup_verdict option" where
  "project_record rt binding rec =
     (case rec of
        PDict d \<Rightarrow>
          (let (slim, missing) =
             project_fields (optional_canonicals binding) d (sb_field_map binding)
           in if missing \<noteq> [] then
                (None, Some \<lparr>dv_match_kind = ''invalid_record'', dv_existing_id = None,
                   dv_reason = ''record is missing field(s) required for dedup: ''
                     @ py_repr rt (PList (map PStr missing))
                     @ ''. Cannot check for duplicates without them.''\<rparr>)
              else (Some slim, None))
      | _ \<Rightarrow> (None, Some \<lparr>dv_match_kind = ''invalid_record'', dv_existing_id = None,
               dv_reason = ''record is not an object -- cannot extract dedup fields''\<rparr>))"

fun splice_verdicts ::
  "(pydict option \<times> dedup_verdict option) list \<Rightarrow> dedup_verdict option list
   \<Rightarrow> dedup_verdict option list" where
  "splice_verdicts [] results = []"
| "splice_verdicts ((None, miss) # ps) results = miss # splice_verdicts ps results"
| "splice_verdicts ((Some _, miss) # ps) [] = []"
| "splice_verdicts ((Some _, miss) # ps) (r # results) = r # splice_verdicts ps results"

text \<open>The callable that \<open>build_call_context_checker\<close> returns.\<close>

definition bound_checker ::
  "pyrt \<Rightarrow> 'w checker_handler stash_dedup_binding \<Rightarrow> pyval list \<Rightarrow> 'w
   \<Rightarrow> (exn + dedup_verdict option list) \<times> 'w" where
  "bound_checker rt binding records w =
     (let projected = map (project_record rt binding) records;
          forward_records = List.map_filter fst projected
      in if forward_records = [] then (Inr (splice_verdicts projected []), w)
         else (case dc_handler (sb_checker binding) forward_records w of
                 (Inl e, w') \<Rightarrow> (Inl e, w')
               | (Inr forward_results, w') \<Rightarrow>
                   if length forward_results \<noteq> length forward_records then
                     (Inl (OtherError ''RuntimeError'' (''dedup checker ''
                        @ str_repr (dc_name (sb_checker binding)) @ '' returned ''
                        @ nat_str (length forward_results) @ '' verdicts for ''
                        @ nat_str (length forward_records) @ '' records'')), w')
                   else (Inr (splice_verdicts projected forward_results), w')))"

definition format_stash_dedup_addendum :: "'h stash_dedup_binding option \<Rightarrow> string option" where
  "format_stash_dedup_addendum binding =
     (case binding of
        None \<Rightarrow> None
      | Some b \<Rightarrow>
          (let checker = sb_checker b;
               field_lines = map (\<lambda>spec.
                 (let mapped = (case map_of (sb_field_map b) (fs_name spec) of
                                  None \<Rightarrow> ''?'' | Some m \<Rightarrow> m);
                      suffix = (if fs_description spec \<noteq> [] then
                                  '' '' @ em_dash @ '' '' @ fs_description spec else [])
                  in ''- record.'' @ mapped @ '' '' @ right_arrow @ '' '' @ fs_name spec @ suffix))
                 (dc_required_fields checker)
           in Some (join_with [CHR 0x0A]
                ([''# Stash dedup (this node only)'', [],
                  ''Records passed to `stash_records` are deduplicated against `''
                    @ display_label checker @ ''` before they land in the collection. ''
                    @ ''The runtime uses these fields from each record to look up matches:'', []]
                 @ field_lines
                 @ [[], ''When the response includes a `duplicates` array, those records were ''
                    @ ''rejected as already-seen. Each entry has `record_index`, ''
                    @ ''`match_kind`, and a `reason` explaining why. Duplicates do NOT ''
                    @ ''count against your iteration quota '' @ em_dash
                    @ '' find a different candidate and try again. ''
                    @ ''Records that succeed appear in `ids` and `stashed`.'']))))"

section \<open>A resolved binding maps every required field\<close>

lemma resolve_dedup_fields_mono:
  assumes "resolve_dedup_fields n c raw specs fm = Inr fm'" and "map_of fm k = Some v"
  shows "\<exists>v'. map_of fm' k = Some v'"
  using assms
proof (induction specs arbitrary: fm v)
  case Nil
  then show ?case by auto
next
  case (Cons s specs)
  then show ?case by (fastforce split: pyval.splits if_splits)
qed

lemma resolve_dedup_fields_nonempty:
  assumes "resolve_dedup_fields n c raw specs fm = Inr fm'"
    and "\<forall>v \<in> ran (map_of fm). v \<noteq> []"
  shows "\<forall>v \<in> ran (map_of fm'). v \<noteq> []"
  using assms
proof (induction specs arbitrary: fm)
  case Nil
  then show ?case by auto
next
  case (Cons s specs)
  show ?case
  proof (cases "dget raw (fs_name s)")
    case (PStr m)
    show ?thesis
    proof (cases "m = []")
      case True
      with Cons PStr show ?thesis by (auto split: if_splits)
    next
      case False
      have "\<forall>v \<in> ran (map_of (dset fm (fs_name s) m)). v \<noteq> []"
        using Cons.prems(2) False by (auto simp: ran_def split: if_splits)
      then show ?thesis by (rule Cons.IH [rotated]) (use Cons.prems(1) PStr False in simp)
    qed
  qed (use Cons in \<open>auto split: if_splits\<close>)
qed

lemma resolve_dedup_fields_covers:
  assumes "resolve_dedup_fields n c raw specs fm = Inr fm'"
    and "spec \<in> set specs" and "\<not> fs_optional spec"
  shows "\<exists>m. map_of fm' (fs_name spec) = Some m"
  using assms
proof (induction specs arbitrary: fm)
  case Nil
  then show ?case by simp
next
  case (Cons s specs)
  show ?case
  proof (cases "s = spec")
    case True
    with Cons.prems show ?thesis
      by (auto split: pyval.splits if_splits dest!: resolve_dedup_fields_mono)
  next
    case False
    with Cons show ?thesis by (auto split: pyval.splits if_splits)
  qed
qed

text \<open>
  When the dedup configuration of a node resolves to a binding, the checker is
  the registered one the configuration names, every field the checker requires is mapped,
  and no field is mapped to an empty name; a configuration that leaves one out is an error,
  never a binding that skips the check.
\<close>

theorem resolve_stash_dedup_binding_covers:
  assumes "resolve_stash_dedup_binding cfg node_id registry = Inr (Some b)"
    and "spec \<in> set (dc_required_fields (sb_checker b))" and "\<not> fs_optional spec"
  shows "(\<exists>name. get_checker registry name = Some (sb_checker b)) \<and>
    (\<exists>m. map_of (sb_field_map b) (fs_name spec) = Some m \<and> m \<noteq> [])"
proof -
  obtain name raw where r: "get_checker registry name = Some (sb_checker b)"
    "resolve_dedup_fields node_id (dc_name (sb_checker b)) raw
       (dc_required_fields (sb_checker b)) [] = Inr (sb_field_map b)"
    using assms(1)
    by (auto simp: resolve_stash_dedup_binding_def Let_def
        split: pyval.splits if_splits option.splits sum.splits)
  from resolve_dedup_fields_covers [OF r(2) assms(2,3)] obtain m
    where m: "map_of (sb_field_map b) (fs_name spec) = Some m" ..
  with resolve_dedup_fields_nonempty [OF r(2)] have "m \<noteq> []" by (auto simp: ran_def)
  with r m show ?thesis by blast
qed

text \<open>A sample checker: one required field; it reports every record as new.\<close>

definition sample_checker :: "unit checker_handler dedup_checker" where
  "sample_checker = \<lparr>dc_name = ''jobs'', dc_description = [],
     dc_required_fields = [\<lparr>fs_name = ''external_id'', fs_type = ''string'',
                            fs_description = [], fs_optional = False\<rparr>],
     dc_handler = (\<lambda>recs w. (Inr (map (\<lambda>_. None) recs), w)), dc_label = []\<rparr>"

definition sample_binding :: "unit checker_handler stash_dedup_binding" where
  "sample_binding = \<lparr>sb_checker = sample_checker, sb_field_map = [(''external_id'', ''id'')]\<rparr>"

lemma sample_binding_resolves:
  "resolve_stash_dedup_binding
     (PDict [(''dedup'', PDict [(''checker'', PStr ''jobs''),
        (''fields'', PDict [(''external_id'', PStr ''id'')])])])
     ''n1'' [(''jobs'', sample_checker)] = Inr (Some sample_binding)"
  by (simp add: resolve_stash_dedup_binding_def sample_checker_def sample_binding_def
      get_checker_def dget_def py_or_def)

theorem resolve_stash_dedup_binding_covers_witness:
  "\<exists>m. map_of (sb_field_map sample_binding) ''external_id'' = Some m \<and> m \<noteq> []"
  using resolve_stash_dedup_binding_covers [OF sample_binding_resolves,
      of "\<lparr>fs_name = ''external_id'', fs_type = ''string'', fs_description = [],
            fs_optional = False\<rparr>"]
  by (simp add: sample_binding_def sample_checker_def)

section \<open>Verdicts line up with records\<close>

lemma splice_length:
  "length results = length (List.map_filter fst ps) \<Longrightarrow>
   length (splice_verdicts ps results) = length ps"
  by (induction ps results rule: splice_verdicts.induct) (auto simp: map_filter_simps)

lemma splice_forwarded:
  "length results = length (List.map_filter fst ps) \<Longrightarrow>
   map fst (filter (\<lambda>(out, p). fst p \<noteq> None) (zip (splice_verdicts ps results) ps)) = results"
  by (induction ps results rule: splice_verdicts.induct) (auto simp: map_filter_simps)

lemma splice_missed:
  "length results = length (List.map_filter fst ps) \<Longrightarrow>
   i < length ps \<Longrightarrow> fst (ps ! i) = None \<Longrightarrow> splice_verdicts ps results ! i = snd (ps ! i)"
  by (induction ps results arbitrary: i rule: splice_verdicts.induct)
    (auto simp: map_filter_simps nth_Cons')

lemma project_record_None:
  "fst (project_record rt b rec) = None \<Longrightarrow>
   \<exists>v. snd (project_record rt b rec) = Some v \<and> dv_match_kind v = ''invalid_record''"
  by (auto simp: project_record_def Let_def split: pyval.splits prod.splits if_splits)

lemma bound_checker_spliced:
  assumes "bound_checker rt b records w = (Inr out, w')"
  shows "\<exists>results. out = splice_verdicts (map (project_record rt b) records) results \<and>
    length results = length (List.map_filter fst (map (project_record rt b) records)) \<and>
    (results \<noteq> [] \<longrightarrow>
       fst (dc_handler (sb_checker b)
              (List.map_filter fst (map (project_record rt b) records)) w) = Inr results)"
  using assms
  by (auto simp: bound_checker_def Let_def split: if_splits prod.splits sum.splits)

text \<open>
  A dedup check that returns gives one verdict per record: a record that is
  no object or lacks a mapped field is refused as \<open>invalid_record\<close> at its own position, and
  the verdicts of the others, read in order, are the checker's answers on their projections.
\<close>

theorem bound_checker_positions:
  assumes "bound_checker rt b records w = (Inr out, w')"
  shows "length out = length records \<and>
    (\<forall>i < length records. fst (project_record rt b (records ! i)) = None \<longrightarrow>
       (\<exists>v. out ! i = Some v \<and> dv_match_kind v = ''invalid_record'')) \<and>
    (let kept = map fst (filter (\<lambda>(v, p). fst p \<noteq> None)
                  (zip out (map (project_record rt b) records)))
     in kept = [] \<or>
        fst (dc_handler (sb_checker b)
          (List.map_filter (fst \<circ> project_record rt b) records) w) = Inr kept)"
proof -
  let ?ps = "map (project_record rt b) records"
  obtain results where r: "out = splice_verdicts ?ps results"
    "length results = length (List.map_filter fst ?ps)"
    "results \<noteq> [] \<longrightarrow>
       fst (dc_handler (sb_checker b) (List.map_filter fst ?ps) w) = Inr results"
    using bound_checker_spliced [OF assms] by blast
  have mf: "List.map_filter fst ?ps = List.map_filter (fst \<circ> project_record rt b) records"
    by (induction records) (auto simp: map_filter_simps split: option.splits)
  show ?thesis
    using r splice_length [OF r(2)] splice_forwarded [OF r(2)] splice_missed [OF r(2)]
      project_record_None
    by (fastforce simp: Let_def mf)
qed

theorem bound_checker_positions_witness:
  "\<exists>out. bound_checker \<lparr>rt_getattr = \<lambda>_ _. PNone, rt_float_str = \<lambda>_. []\<rparr> sample_binding
       [PDict [(''id'', PInt 1)], PNone] () = (Inr out, ()) \<and> length out = 2"
proof -
  let ?rt = "\<lparr>rt_getattr = \<lambda>_ _. PNone, rt_float_str = \<lambda>_. []\<rparr>"
  have "\<exists>out. bound_checker ?rt sample_binding [PDict [(''id'', PInt 1)], PNone] () = (Inr out, ())"
    by (simp add: bound_checker_def sample_binding_def sample_checker_def project_record_def
        optional_canonicals_def map_filter_simps)
  then show ?thesis using bound_checker_positions [of ?rt sample_binding
      "[PDict [(''id'', PInt 1)], PNone]" "()"] by fastforce
qed

end
