(* ===== verification/StashRecords.thy ===== *)
theory StashRecords
  imports ScratchpadSpec Dedup
begin

text \<open>
  The system tools that work on the scratchpad and close an iteration
  (luna_core/mcp/system_tools/stash_records.py, list_scratchpad.py, yield_iteration.py).

  A handler gets the arguments the model wrote and the call context of the node: the Redis
  client, the run, the record schema and the dedup check bound to the node, when declared.
  The check may read and write the same world as the store; its verdicts may be an exception.
\<close>

type_synonym 'r bound_check = "pyval list \<Rightarrow> 'r \<Rightarrow> (exn + dedup_verdict option list) \<times> 'r"

record 'r call_context =
  cc_redis :: "'r store option"
  cc_flow_run_id :: "string option"
  cc_record_schema :: "pydict list"
  cc_dedup_checker :: "'r bound_check option"
  cc_iteration_index :: pyval

fun scratchpad_error_text :: "scratchpad_error \<Rightarrow> string" where
  "scratchpad_error_text (ScratchpadError m) = m"

definition error_result :: "string \<Rightarrow> pydict" where
  "error_result m = [(''error'', PStr m)]"

section \<open>Schema validation of records\<close>

definition value_matches_type :: "pyval \<Rightarrow> pyval \<Rightarrow> bool" where
  "value_matches_type v expected =
     (if expected = PStr ''string'' then is_str v
      else if expected = PStr ''boolean'' then is_bool v
      else if expected = PStr ''integer'' then is_int v \<and> \<not> is_bool v
      else if expected = PStr ''number'' then (is_int v \<or> is_float v) \<and> \<not> is_bool v
      else if expected = PStr ''object'' then is_dict v
      else if expected = PStr ''array'' then is_list v
      else True)"

definition issue :: "nat \<Rightarrow> pyval \<Rightarrow> string \<Rightarrow> pyval" where
  "issue record_index name reason =
     PDict [(''record_index'', PInt (int record_index)), (''field'', name),
            (''reason'', PStr reason)]"

text \<open>
  The checks of one field; \<open>None\<close> when the value conforms.  A schema entry without a name
  is a \<open>KeyError\<close>, and a name that cannot be hashed a \<open>TypeError\<close>.
\<close>

definition check_field :: "pyrt \<Rightarrow> nat \<Rightarrow> pydict \<Rightarrow> pydict \<Rightarrow> exn + pyval option" where
  "check_field rt record_index rec field =
     (case map_of field ''name'' of
        None \<Rightarrow> Inl (OtherError ''KeyError'' ''name'')
      | Some name \<Rightarrow>
          (let expected_type = dget_or field ''type'' (PStr ''string'');
               nullable = truthy (dget_or field ''nullable'' (PBool False))
           in if is_list name \<or> is_dict name then
                Inl (OtherError ''TypeError'' (type_name name))
              else (case (case name of PStr n \<Rightarrow> map_of rec n | _ \<Rightarrow> None) of
                      None \<Rightarrow> Inr (Some (issue record_index name ''required field missing''))
                    | Some v \<Rightarrow>
                        if v = PNone then
                          Inr (if nullable then None
                               else Some (issue record_index name
                                 ''field is null but schema declares it non-nullable''))
                        else if \<not> value_matches_type v expected_type then
                          Inr (Some (issue record_index name
                            (''expected '' @ py_str rt expected_type @ '', got '' @ type_name v)))
                        else Inr None)))"

definition check_record ::
  "pyrt \<Rightarrow> pydict list \<Rightarrow> nat \<times> pyval \<Rightarrow> exn + pyval list" where
  "check_record rt record_schema entry =
     (case entry of (record_index, rec) \<Rightarrow>
        (case rec of
           PDict d \<Rightarrow>
             bindR (mapR (check_field rt record_index d) record_schema)
               (\<lambda>issues. Inr (List.map_filter id issues))
         | v \<Rightarrow> Inr [PDict [(''record_index'', PInt (int record_index)),
                   (''reason'', PStr (''record must be an object, got '' @ type_name v))]]))"

definition validate_records_against_schema ::
  "pyrt \<Rightarrow> pyval list \<Rightarrow> pydict list \<Rightarrow> exn + pyval list" where
  "validate_records_against_schema rt records record_schema =
     bindR (mapR (check_record rt record_schema) (zip [0..<length records] records))
       (\<lambda>issues. Inr (concat issues))"

section \<open>The stash_records handler\<close>

text \<open>The guards on the arguments: collection, records and record ids, or the error result.\<close>

definition normalize_ids :: "pyrt \<Rightarrow> pyval \<Rightarrow> string + pyval list option" where
  "normalize_ids rt record_ids_raw =
     (case record_ids_raw of
        PNone \<Rightarrow> Inr None
      | PList xs \<Rightarrow>
          if xs = [] then Inr None
          else Inr (Some (map (\<lambda>x. if x = PNone then PNone else PStr (py_str rt x)) xs))
      | _ \<Rightarrow> Inl ''record_ids must be an array if provided'')"

definition stash_args ::
  "pyrt \<Rightarrow> pydict \<Rightarrow> string + string \<times> pyval list \<times> pyval list option" where
  "stash_args rt args =
     (case dget args ''collection'' of
        PStr collection \<Rightarrow>
          if collection = [] then Inl ''collection must be a non-empty string''
          else (case py_or (dget args ''records'') (PList []) of
                  PList records \<Rightarrow>
                    bindR (normalize_ids rt (dget args ''record_ids''))
                      (\<lambda>ids. Inr (collection, records, ids))
                | _ \<Rightarrow> Inl ''records must be an array'')
      | _ \<Rightarrow> Inl ''collection must be a non-empty string'')"

definition duplicate_entry :: "nat \<Rightarrow> dedup_verdict \<Rightarrow> pyval" where
  "duplicate_entry index verdict =
     PDict ([(''record_index'', PInt (int index)),
             (''match_kind'', PStr (dv_match_kind verdict)),
             (''reason'', PStr (dv_reason verdict))]
            @ (case dv_existing_id verdict of
                 None \<Rightarrow> [] | Some i \<Rightarrow> [(''existing_id'', PStr i)]))"

text \<open>
  The pass over the verdicts: survivors with their explicit ids, and the entries reported as
  duplicates.  Each record comes with its index, its explicit id and its verdict.
\<close>

fun split_verdicts ::
  "(nat \<times> pyval \<times> pyval \<times> dedup_verdict option) list \<Rightarrow> (pyval \<times> pyval) list \<times> pyval list" where
  "split_verdicts [] = ([], [])"
| "split_verdicts ((index, rec, explicit, verdict) # rest) =
     (let (survivors, duplicates) = split_verdicts rest
      in (case verdict of
            None \<Rightarrow> ((rec, explicit) # survivors, duplicates)
          | Some v \<Rightarrow> (survivors, duplicate_entry index v # duplicates)))"

definition dedup_survivors ::
  "'r bound_check option \<Rightarrow> pyval list \<Rightarrow> pyval list option \<Rightarrow> 'r
   \<Rightarrow> (exn + pyval list \<times> pyval list option \<times> pyval list) \<times> 'r" where
  "dedup_survivors checker records record_ids r =
     (case checker of
        None \<Rightarrow> (Inr (records, record_ids, []), r)
      | Some check \<Rightarrow>
          if records = [] then (Inr (records, record_ids, []), r)
          else (case check records r of
                  (Inl e, r') \<Rightarrow> (Inl e, r')
                | (Inr verdicts, r') \<Rightarrow>
                    if length verdicts \<noteq> length records then
                      (Inl (OtherError ''RuntimeError'' (''stash_dedup_checker returned ''
                         @ nat_str (length verdicts) @ '' verdicts for ''
                         @ nat_str (length records) @ '' records'')), r')
                    else if (case record_ids of None \<Rightarrow> False
                             | Some ids \<Rightarrow> length ids < length records \<and>
                                 (\<exists>i < length records. length ids \<le> i \<and> verdicts ! i = None))
                    then (Inl (OtherError ''IndexError'' ''list index out of range''), r')
                    else (let (kept, duplicates) = split_verdicts
                            (zip [0..<length records] (zip records
                              (zip (explicit_ids record_ids (length records)
                                      @ replicate (length records) PNone) verdicts)))
                          in (Inr (map fst kept,
                                   (case record_ids of None \<Rightarrow> None
                                    | Some _ \<Rightarrow> Some (map snd kept)),
                                   duplicates), r'))))"

text \<open>
  The idempotency pass: a record whose id is in the collection, or was seen earlier in the
  call, is reported; the others are new.
\<close>

fun split_new ::
  "string list \<Rightarrow> string list \<Rightarrow> (pyval \<times> pyval \<times> string) list
   \<Rightarrow> (pyval \<times> pyval) list \<times> string list" where
  "split_new existing seen [] = ([], [])"
| "split_new existing seen ((rec, explicit, target) # rest) =
     (if target \<in> set existing \<or> target \<in> set seen then
        (let (new, already) = split_new existing seen rest in (new, target # already))
      else
        (let (new, already) = split_new existing (target # seen) rest
         in ((rec, explicit) # new, already)))"

definition already_entry :: "string \<Rightarrow> pyval" where
  "already_entry target =
     PDict [(''id'', PStr target),
            (''reason'', PStr (''id already present in this collection '' @ em_dash @ '' this call ''
               @ ''had no effect, no need to retry''))]"

definition stash_response :: "string \<Rightarrow> string list \<Rightarrow> string list \<Rightarrow> pyval list \<Rightarrow> pydict" where
  "stash_response collection ids already duplicates =
     [(''stashed'', PInt (int (length ids))), (''collection'', PStr collection),
      (''ids'', PList (map PStr ids))]
     @ (if already = [] then [] else [(''already_stashed'', PList (map already_entry already))])
     @ (if duplicates = [] then [] else [(''duplicates'', PList duplicates)])"

definition stash_survivors ::
  "'r store \<Rightarrow> nat \<Rightarrow> pyrt \<Rightarrow> (string \<Rightarrow> string) \<Rightarrow> string \<Rightarrow> string \<Rightarrow> pyval list
   \<Rightarrow> pyval list option \<Rightarrow> pyval list \<Rightarrow> 'r \<Rightarrow> pydict \<times> 'r" where
  "stash_survivors R ttl rt blake2b run collection survivors survivor_ids duplicates r =
     (case bindR (compute_target_ids rt blake2b survivors survivor_ids)
             (\<lambda>targets. bindR (list_ids R run collection r)
               (\<lambda>existing. Inr (targets, existing))) of
        Inl e \<Rightarrow> (error_result (scratchpad_error_text e), r)
      | Inr (targets, existing) \<Rightarrow>
          (let (new, already) = split_new existing []
                 (zip survivors (zip (explicit_ids survivor_ids (length survivors)) targets));
               new_ids = (case survivor_ids of None \<Rightarrow> None | Some _ \<Rightarrow> Some (map snd new))
           in (case stash_batch R ttl rt blake2b run collection (map fst new) new_ids r of
                 (Inl e, r') \<Rightarrow> (error_result (scratchpad_error_text e), r')
               | (Inr ids, r') \<Rightarrow> (stash_response collection ids already duplicates, r'))))"

definition stash_records_handler ::
  "nat \<Rightarrow> pyrt \<Rightarrow> (string \<Rightarrow> string) \<Rightarrow> pydict \<Rightarrow> 'r call_context \<Rightarrow> 'r
   \<Rightarrow> (exn + pydict) \<times> 'r" where
  "stash_records_handler ttl rt blake2b args ctx r =
     (case (cc_redis ctx, cc_flow_run_id ctx) of
        (Some R, Some run) \<Rightarrow>
          (case stash_args rt args of
             Inl m \<Rightarrow> (Inr (error_result m), r)
           | Inr (collection, records, record_ids) \<Rightarrow>
               (case (if cc_record_schema ctx = [] then Inr []
                      else validate_records_against_schema rt records (cc_record_schema ctx)) of
                  Inl e \<Rightarrow> (Inl e, r)
                | Inr (x # xs) \<Rightarrow>
                    (Inr [(''error'', PStr ''records failed schema validation''),
                          (''details'', PList (x # xs))], r)
                | Inr [] \<Rightarrow>
                    (case dedup_survivors (cc_dedup_checker ctx) records record_ids r of
                       (Inl e, r') \<Rightarrow> (Inl e, r')
                     | (Inr (survivors, survivor_ids, duplicates), r') \<Rightarrow>
                         (case stash_survivors R ttl rt blake2b run collection
                                 survivors survivor_ids duplicates r' of
                            (res, r'') \<Rightarrow> (Inr res, r'')))))
      | _ \<Rightarrow> (Inl (OtherError ''RuntimeError''
                ''stash_records handler invoked without redis/flow_run_id in call_context''), r))"

section \<open>The other scratchpad tools\<close>

definition list_scratchpad_handler ::
  "pydict \<Rightarrow> 'r call_context \<Rightarrow> 'r \<Rightarrow> exn + pydict" where
  "list_scratchpad_handler args ctx r =
     (case (cc_redis ctx, cc_flow_run_id ctx) of
        (Some R, Some run) \<Rightarrow>
          (case dget args ''collection'' of
             PStr collection \<Rightarrow>
               if collection = [] then
                 Inr (error_result ''collection must be a non-empty string'')
               else (case list_records R run collection r of
                       Inl e \<Rightarrow> Inr (error_result (scratchpad_error_text e))
                     | Inr pairs \<Rightarrow>
                         Inr [(''collection'', PStr collection),
                              (''count'', PInt (int (length pairs))),
                              (''records'', PList (map (\<lambda>(i, rec).
                                 PDict [(''id'', PStr i), (''record'', PDict rec)]) pairs))])
           | _ \<Rightarrow> Inr (error_result ''collection must be a non-empty string''))
      | _ \<Rightarrow> Inl (OtherError ''RuntimeError''
               ''list_scratchpad handler invoked without redis/flow_run_id in call_context''))"

definition yield_iteration_handler :: "pydict \<Rightarrow> 'r call_context \<Rightarrow> pydict" where
  "yield_iteration_handler args ctx =
     [(''ok'', PBool True), (''iteration'', cc_iteration_index ctx),
      (''done'', PBool (truthy (dget_or args ''done'' (PBool False))))]"

section \<open>What the passes compute\<close>

lemma mapR_nthI:
  "length ys = length xs \<Longrightarrow> (\<And>i. i < length xs \<Longrightarrow> f (xs ! i) = Inr (ys ! i)) \<Longrightarrow>
   mapR f xs = Inr ys"
proof (induction xs arbitrary: ys)
  case Nil
  then show ?case by simp
next
  case (Cons x xs)
  then obtain y zs where ys: "ys = y # zs" by (cases ys) auto
  have "mapR f xs = Inr zs"
    by (rule Cons.IH) (use Cons.prems(1) Cons.prems(2) [of "Suc _"] ys in auto)
  moreover have "f x = Inr y" using Cons.prems(2) [of 0] ys by simp
  ultimately show ?case by (simp add: ys)
qed

definition row_ok :: "pyrt \<Rightarrow> (string \<Rightarrow> string) \<Rightarrow> pyval \<times> pyval \<times> string \<Rightarrow> bool" where
  "row_ok rt h row =
     (case row of (rec, explicit, target) \<Rightarrow>
        (\<forall>i. \<exists>d. target_id rt h (i, rec, explicit) = Inr (target, d)))"

lemma target_id_index:
  "target_id rt h (i, rec, explicit) = Inr (target, d) \<Longrightarrow>
   target_id rt h (j, rec, explicit) = Inr (target, d)"
  by (auto simp: target_id_def split: pyval.splits)

lemma compute_target_ids_rows:
  assumes "compute_target_ids rt h survivors ids = Inr targets"
  shows "length targets = length survivors \<and>
    length (explicit_ids ids (length survivors)) = length survivors \<and>
    (\<forall>row \<in> set (zip survivors (zip (explicit_ids ids (length survivors)) targets)).
       row_ok rt h row)"
proof -
  let ?ex = "explicit_ids ids (length survivors)"
  from assms obtain entries where e: "assigned_ids rt h survivors ids = Inr entries"
    "targets = map fst entries" "check_id_count survivors ids = Inr ()"
    by (auto simp: compute_target_ids_def result_simps)
  have len: "length ?ex = length survivors"
    using e(3) by (auto simp: explicit_ids_def check_id_count_def split: option.splits if_splits)
  have el: "length entries = length survivors"
    using mapR_length [OF e(1) [unfolded assigned_ids_def]] len by simp
  have "row_ok rt h (survivors ! i, ?ex ! i, targets ! i)" if i: "i < length survivors" for i
  proof -
    have "target_id rt h (i, survivors ! i, ?ex ! i) = Inr (entries ! i)"
      using mapR_nth [OF e(1) [unfolded assigned_ids_def], of i] len i by simp
    moreover obtain t d where td: "entries ! i = (t, d)" by (cases "entries ! i") auto
    ultimately have "target_id rt h (i, survivors ! i, ?ex ! i) = Inr (t, d)" by simp
    then have "target_id rt h (j, survivors ! i, ?ex ! i) = Inr (t, d)" for j
      by (rule target_id_index)
    moreover have "targets ! i = t" using td el i by (simp add: e(2))
    ultimately show ?thesis by (simp add: row_ok_def)
  qed
  moreover have tl: "length targets = length survivors" using el e(2) by simp
  ultimately have "row_ok rt h (zip survivors (zip ?ex targets) ! i)" if "i < length survivors" for i
    using that len by simp
  then have "\<forall>row \<in> set (zip survivors (zip ?ex targets)). row_ok rt h row"
    using len tl unfolding all_set_conv_all_nth by simp
  with len tl show ?thesis by blast
qed

text \<open>The new records of a pass are rows of it, with fresh ids, each id once.\<close>

lemma split_new_kept:
  assumes "split_new existing seen rows = (new, already)"
  shows "\<exists>kept. new = map (\<lambda>row. (fst row, fst (snd row))) kept \<and>
    set kept \<subseteq> set rows \<and> distinct (map (snd \<circ> snd) kept) \<and>
    (\<forall>row \<in> set kept. snd (snd row) \<notin> set existing \<union> set seen) \<and>
    (snd \<circ> snd) ` set rows \<subseteq> set existing \<union> set seen \<union> (snd \<circ> snd) ` set kept \<and>
    length kept + length already = length rows"
  using assms
proof (induction rows arbitrary: seen new already)
  case Nil
  then show ?case by simp
next
  case (Cons row rows)
  let ?t = "snd (snd row)"
  show ?case
  proof (cases "?t \<in> set existing \<or> ?t \<in> set seen")
    case True
    obtain new' already' where r: "split_new existing seen rows = (new', already')"
      by (cases "split_new existing seen rows") auto
    with Cons.prems True have eq: "new = new'" "already = ?t # already'"
      by (cases row; auto)+
    from Cons.IH [OF r] obtain kept
      where "new' = map (\<lambda>row. (fst row, fst (snd row))) kept"
      "set kept \<subseteq> set rows" "distinct (map (snd \<circ> snd) kept)"
      "\<forall>row \<in> set kept. snd (snd row) \<notin> set existing \<union> set seen"
      "(snd \<circ> snd) ` set rows \<subseteq> set existing \<union> set seen \<union> (snd \<circ> snd) ` set kept"
      "length kept + length already' = length rows" by blast
    with eq True show ?thesis by (intro exI [of _ kept]) (auto simp: comp_def)
  next
    case False
    obtain new' already' where r: "split_new existing (?t # seen) rows = (new', already')"
      by (cases "split_new existing (?t # seen) rows") auto
    with Cons.prems False have eq: "new = (fst row, fst (snd row)) # new'" "already = already'"
      by (cases row; auto)+
    from Cons.IH [OF r] obtain kept
      where k: "new' = map (\<lambda>row. (fst row, fst (snd row))) kept"
      "set kept \<subseteq> set rows" "distinct (map (snd \<circ> snd) kept)"
      "\<forall>row \<in> set kept. snd (snd row) \<notin> set existing \<union> set (?t # seen)"
      "(snd \<circ> snd) ` set rows \<subseteq> set existing \<union> set (?t # seen) \<union> (snd \<circ> snd) ` set kept"
      "length kept + length already' = length rows" by blast
    from k(4) have "?t \<notin> set (map (snd \<circ> snd) kept)" by auto
    with k(3) have "distinct (map (snd \<circ> snd) (row # kept))" by simp
    with k eq False show ?thesis by (intro exI [of _ "row # kept"]) (auto simp: comp_def)
  qed
qed

lemma split_new_all_present:
  "(snd \<circ> snd) ` set rows \<subseteq> set existing \<Longrightarrow>
   split_new existing seen rows = ([], map (snd \<circ> snd) rows)"
  by (induction existing seen rows rule: split_new.induct) auto

lemma assigned_ids_kept:
  assumes "\<forall>row \<in> set kept. row_ok rt h row"
    and "explicit_ids ids (length kept) = map (fst \<circ> snd) kept"
  shows "\<exists>entries. assigned_ids rt h (map fst kept) ids = Inr entries \<and>
    map fst entries = map (snd \<circ> snd) kept"
proof -
  have "\<exists>d. target_id rt h (i, fst (kept ! i), fst (snd (kept ! i)))
      = Inr (snd (snd (kept ! i)), d)" if "i < length kept" for i
    using assms(1) nth_mem [OF that] by (fastforce simp: row_ok_def split_beta)
  then obtain d where d: "\<And>i. i < length kept \<Longrightarrow>
      target_id rt h (i, fst (kept ! i), fst (snd (kept ! i)))
      = Inr (snd (snd (kept ! i)), d i)"
    by metis
  let ?entries = "map (\<lambda>i. (snd (snd (kept ! i)), d i)) [0..<length kept]"
  have "assigned_ids rt h (map fst kept) ids = Inr ?entries"
    unfolding assigned_ids_def using assms(2) d by (intro mapR_nthI) auto
  moreover have "map fst ?entries = map (snd \<circ> snd) kept"
    by (rule nth_equalityI) auto
  ultimately show ?thesis by blast
qed


lemma stash_survivors_effect:
  assumes "compute_target_ids rt h survivors ids = Inr targets"
    and "valid_collection_name c"
  shows "\<exists>entries already.
    stash_survivors R ttl rt h run c survivors ids duplicates r =
      (stash_response c (map fst entries) already duplicates,
       if entries = [] then r else write_batch R ttl run c entries r) \<and>
    distinct (map fst entries) \<and> fst ` set entries \<inter> collection_ids R run c r = {} \<and>
    set targets \<subseteq> collection_ids R run c r \<union> fst ` set entries \<and>
    fst ` set entries \<subseteq> set targets \<and>
    length entries + length already = length survivors"
proof -
  let ?ex = "explicit_ids ids (length survivors)"
  let ?rows = "zip survivors (zip ?ex targets)"
  let ?existing = "r_smembers R (index_key run c) r"
  note rows = compute_target_ids_rows [OF assms(1)]
  have thirds: "(snd \<circ> snd) ` set ?rows = set targets"
  proof -
    have "map (snd \<circ> snd) ?rows = targets"
      using rows by (simp flip: map_map add: map_snd_zip)
    then show ?thesis by (metis list.set_map)
  qed
  obtain new already where sn: "split_new ?existing [] ?rows = (new, already)"
    by (cases "split_new ?existing [] ?rows") auto
  from split_new_kept [OF sn] obtain kept
    where k: "new = map (\<lambda>row. (fst row, fst (snd row))) kept" "set kept \<subseteq> set ?rows"
      "distinct (map (snd \<circ> snd) kept)" "\<forall>row \<in> set kept. snd (snd row) \<notin> set ?existing"
      "set targets \<subseteq> set ?existing \<union> (snd \<circ> snd) ` set kept"
      "length kept + length already = length survivors"
    using rows thirds by auto
  let ?new_ids = "case ids of None \<Rightarrow> None | Some _ \<Rightarrow> Some (map snd new)"
  have "fst (snd row) = PNone" if "row \<in> set kept" "ids = None" for row
  proof -
    have "row \<in> set (zip survivors (zip (replicate (length survivors) PNone) targets))"
      using that k(2) by (auto simp: explicit_ids_def)
    then have "fst (snd row) \<in> set (replicate (length survivors) PNone)"
      by (metis prod.collapse set_zip_leftD set_zip_rightD)
    then show ?thesis by simp
  qed
  then have "explicit_ids ?new_ids (length kept) = map (fst \<circ> snd) kept"
    by (cases ids) (simp_all add: explicit_ids_def k(1) comp_def map_idI list_eq_iff_nth_eq)
  moreover have "\<forall>row \<in> set kept. row_ok rt h row" using k(2) rows by blast
  ultimately obtain entries where e: "assigned_ids rt h (map fst kept) ?new_ids = Inr entries"
    "map fst entries = map (snd \<circ> snd) kept"
    using assigned_ids_kept by blast
  have fst_new: "map fst new = map fst kept" by (simp add: k(1))
  have chk: "check_id_count (map fst new) ?new_ids = Inr ()"
    by (cases ids) (simp_all add: check_id_count_def)
  have len: "length entries = length kept" using e(2) by (metis length_map)
  have batch: "stash_batch R ttl rt h run c (map fst new) ?new_ids r =
      (Inr (map fst entries), if entries = [] then r else write_batch R ttl run c entries r)"
    using e chk len
    by (auto simp: stash_batch_def validate_collection_name_def assms(2) fst_new)
  have "stash_survivors R ttl rt h run c survivors ids duplicates r =
      (stash_response c (map fst entries) already duplicates,
       if entries = [] then r else write_batch R ttl run c entries r)"
    by (simp add: stash_survivors_def assms list_ids_def validate_collection_name_def sn batch)
  moreover have "fst ` set entries = (snd \<circ> snd) ` set kept"
    using e(2) by (metis list.set_map)
  moreover from this k(4,5)
  have "fst ` set entries \<subseteq> set targets"
    using thirds image_mono [OF k(2), of "snd \<circ> snd"] by simp
  moreover from \<open>fst ` set entries = (snd \<circ> snd) ` set kept\<close> k(4,5)
  have "fst ` set entries \<inter> set ?existing = {}" "set targets \<subseteq> set ?existing \<union> fst ` set entries"
    by auto
  moreover have "distinct (map fst entries)" using k(3) e(2) by simp
  ultimately show ?thesis using k(6) len by (intro exI [of _ entries] exI [of _ already]) simp
qed


lemma stash_survivors_cases:
  obtains (error) m where
      "stash_survivors R ttl rt h run c survivors ids duplicates r = (error_result m, r)"
  | (ok) targets where "compute_target_ids rt h survivors ids = Inr targets"
      "valid_collection_name c"
proof -
  have "(\<exists>m. stash_survivors R ttl rt h run c survivors ids duplicates r = (error_result m, r)) \<or>
    (\<exists>targets. compute_target_ids rt h survivors ids = Inr targets \<and> valid_collection_name c)"
    by (auto simp: stash_survivors_def list_ids_def validate_collection_name_def bindR_def
        split: sum.splits)
  then show ?thesis using that by blast
qed

text \<open>The answers of the check depend on the records only, and it changes nothing.\<close>

definition pure_check :: "'r call_context \<Rightarrow> bool" where
  "pure_check ctx =
     (\<forall>check. cc_dedup_checker ctx = Some check \<longrightarrow>
        (\<exists>f. \<forall>records r. check records r = (f records, r)))"

lemma dedup_survivors_pure:
  assumes "pure_check ctx"
  shows "\<exists>res. \<forall>r. dedup_survivors (cc_dedup_checker ctx) records ids r = (res, r)"
proof (cases "cc_dedup_checker ctx")
  case None
  then show ?thesis by (simp add: dedup_survivors_def)
next
  case (Some check)
  then obtain f where f: "\<And>records r. check records r = (f records, r)"
    using assms by (auto simp: pure_check_def)
  show ?thesis
    by (rule exI [of _ "fst (dedup_survivors (cc_dedup_checker ctx) records ids undefined)"], cases "f records")
      (simp_all add: dedup_survivors_def Some f split_beta)
qed

text \<open>
  A handler call on a store is either a result that does not depend on the store and leaves
  it, or a pass over survivors.
\<close>

lemma stash_handler_cases:
  assumes "cc_redis ctx = Some R" and "cc_flow_run_id ctx = Some run"
    and "pure_check ctx"
  obtains (fixed) res where "\<And>r. stash_records_handler ttl rt h args ctx r = (res, r)"
      "\<And>resp. res = Inr resp \<Longrightarrow> dhas resp ''error''"
  | (pass) c records ids survivors survivor_ids duplicates where
      "stash_args rt args = Inr (c, records, ids)"
      "\<And>r. dedup_survivors (cc_dedup_checker ctx) records ids r
            = (Inr (survivors, survivor_ids, duplicates), r)"
      "\<And>r. stash_records_handler ttl rt h args ctx r =
         (case stash_survivors R ttl rt h run c survivors survivor_ids duplicates r of
            (res, r'') \<Rightarrow> (Inr res, r''))"
proof (cases "stash_args rt args")
  case (Inl m)
  show ?thesis
    by (rule fixed [of "Inr (error_result m)"])
      (auto simp: stash_records_handler_def assms(1,2) Inl error_result_def dhas_def)
next
  case (Inr a)
  obtain c records ids where a: "stash_args rt args = Inr (c, records, ids)"
    using Inr by (cases a) auto
  obtain d where d: "\<And>r. dedup_survivors (cc_dedup_checker ctx) records ids r = (d, r)"
    using dedup_survivors_pure [OF assms(3)] by blast
  let ?v = "if cc_record_schema ctx = [] then Inr []
    else validate_records_against_schema rt records (cc_record_schema ctx)"
  show ?thesis
  proof (cases ?v)
    case (Inl e)
    show ?thesis
      by (rule fixed [of "Inl e"])
        (simp_all add: stash_records_handler_def assms(1,2) a Inl del: if_split_asm cong: if_cong)
  next
    case v: (Inr issues)
    show ?thesis
    proof (cases issues)
      case (Cons x xs)
      show ?thesis
        by (rule fixed [of "Inr [(''error'', PStr ''records failed schema validation''),
                                 (''details'', PList (x # xs))]"])
          (simp_all only: stash_records_handler_def assms(1,2) a v Cons prod.case option.case
            sum.case list.case, simp add: dhas_def)
    next
      case Nil
      show ?thesis
      proof (cases d)
        case (Inl e)
        show ?thesis
          by (rule fixed [of "Inl e"])
            (simp_all only: stash_records_handler_def assms(1,2) a v Nil prod.case option.case
              sum.case list.case d Inl, simp)
      next
        case (Inr t)
        obtain survivors sids dups where t: "t = (survivors, sids, dups)" by (cases t) auto
        show ?thesis
          by (rule pass [OF a, of survivors sids dups])
            (simp_all only: d Inr t stash_records_handler_def assms(1,2) a v Nil prod.case
              option.case sum.case list.case)
      qed
    qed
  qed
qed


lemma stash_handler_ok:
  assumes "stash_records_handler ttl rt h args ctx r = (Inr resp, r')"
    and "\<not> dhas resp ''error''"
  obtains R run c records ids survivors survivor_ids duplicates r1 where
    "cc_redis ctx = Some R" "cc_flow_run_id ctx = Some run"
    "stash_args rt args = Inr (c, records, ids)"
    "dedup_survivors (cc_dedup_checker ctx) records ids r
       = (Inr (survivors, survivor_ids, duplicates), r1)"
    "stash_survivors R ttl rt h run c survivors survivor_ids duplicates r1 = (resp, r')"
  using assms
  by (auto simp: stash_records_handler_def error_result_def dhas_def
      split: option.splits sum.splits prod.splits list.splits if_splits)

lemma split_verdicts_length:
  "split_verdicts rows = (survivors, duplicates) \<Longrightarrow>
   length survivors + length duplicates = length rows"
  by (induction rows arbitrary: survivors duplicates rule: split_verdicts.induct)
    (auto split: prod.splits option.splits)

lemma dedup_survivors_length:
  assumes "dedup_survivors checker records ids r = (Inr (survivors, sids, duplicates), r')"
    and "stash_args rt args = Inr (c, records, ids)"
  shows "length survivors + length duplicates = length records"
proof -
  have "length (explicit_ids ids (length records) @ replicate (length records) PNone)
      \<ge> length records"
    by simp
  then have "length (zip [0..<length records] (zip records
      (zip (explicit_ids ids (length records) @ replicate (length records) PNone) verdicts)))
      = length records" if "length verdicts = length records"
    for verdicts :: "dedup_verdict option list"
    using that by simp
  with assms(1) split_verdicts_length show ?thesis
    by (fastforce simp: dedup_survivors_def Let_def split: option.splits if_splits prod.splits sum.splits)
qed

lemma stash_survivors_ok:
  assumes "stash_survivors R ttl rt h run c survivors ids duplicates r = (resp, r')"
    and "\<not> dhas resp ''error''"
  obtains entries already targets where
    "resp = stash_response c (map fst entries) already duplicates"
    "r' = (if entries = [] then r else write_batch R ttl run c entries r)"
    "distinct (map fst entries)" "fst ` set entries \<inter> collection_ids R run c r = {}"
    "compute_target_ids rt h survivors ids = Inr targets" "valid_collection_name c"
    "set targets \<subseteq> collection_ids R run c r \<union> fst ` set entries"
    "length entries + length already = length survivors"
proof (cases rule: stash_survivors_cases [of R ttl rt h run c survivors ids duplicates r])
  case (error m)
  with assms show ?thesis by (auto simp: error_result_def dhas_def)
next
  case (ok targets)
  from stash_survivors_effect [OF this, of R ttl run duplicates r] show ?thesis
    using that assms(1) ok by auto
qed

section \<open>Properties of the handler\<close>





section \<open>A sample call\<close>

definition sample_rt :: pyrt where
  "sample_rt = \<lparr>rt_getattr = \<lambda>_ _. PNone, rt_float_str = \<lambda>_. []\<rparr>"

definition sample_stash_ctx :: "jtext keyspace call_context" where
  "sample_stash_ctx = \<lparr>cc_redis = Some keyspace_ops, cc_flow_run_id = Some ''r1'',
     cc_record_schema = [[(''name'', PStr ''n''), (''type'', PStr ''integer'')]],
     cc_dedup_checker = Some (\<lambda>records r. (Inr (map (\<lambda>_. None) records), r)),
     cc_iteration_index = PNone\<rparr>"

definition sample_stash_args :: pydict where
  "sample_stash_args = [(''collection'', PStr ''jobs''),
     (''records'', PList [PDict [(''n'', PInt 1)], PDict [(''n'', PInt 2)]]),
     (''record_ids'', PList [PStr ''a'', PStr ''b''])]"

lemma sample_stash_pure: "pure_check sample_stash_ctx"
  by (auto simp: pure_check_def sample_stash_ctx_def intro!: exI)

lemma sample_stash_call:
  "fst (stash_records_handler 60 sample_rt id sample_stash_args sample_stash_ctx empty_keyspace)
     = Inr (stash_response ''jobs'' [''a'', ''b''] [] [])"
  by code_simp

definition sample_stashed :: "jtext keyspace" where
  "sample_stashed =
     snd (stash_records_handler 60 sample_rt id sample_stash_args sample_stash_ctx empty_keyspace)"

lemma sample_stash_result:
  "stash_records_handler 60 sample_rt id sample_stash_args sample_stash_ctx empty_keyspace
     = (Inr (stash_response ''jobs'' [''a'', ''b''] [] []), sample_stashed)"
  using sample_stash_call by (simp add: sample_stashed_def prod_eq_iff)

lemma sample_response_ok: "\<not> dhas (stash_response c ids [] []) ''error''"
  by (simp add: stash_response_def dhas_def)

lemma sample_stash_args_parse:
  "stash_args sample_rt sample_stash_args = Inr (''jobs'',
     [PDict [(''n'', PInt 1)], PDict [(''n'', PInt 2)]], Some [PStr ''a'', PStr ''b''])"
  by code_simp

lemma sample_stashed_ok:
  "typed_ok keyspace_ops ''r1'' ''jobs'' sample_stashed \<and>
   ''a'' \<in> collection_ids keyspace_ops ''r1'' ''jobs'' sample_stashed"
  by code_simp

lemma sample_ctx_simps [simp]:
  "cc_redis sample_stash_ctx = Some keyspace_ops" "cc_flow_run_id sample_stash_ctx = Some ''r1''"
  "dget sample_stash_args ''collection'' = PStr ''jobs''"
  by (simp_all add: sample_stash_ctx_def sample_stash_args_def dget_def)




end
