(* ===== verification/NodeAgents.thy ===== *)
theory NodeAgents
  imports NodeHistory FlowRunner StashRecords
begin

text \<open>
  Agent nodes (luna_core/engine/nodes.py): the environment of a node executor, the context
  an agent requires, the prompts of one turn, the single-turn agent node and the loop driven
  by \<open>yield_iteration\<close>.

  One agent run (\<open>AgentRunner.run\<close>) is a call of the environment: it gets the agent, its
  history, the new message, the system prompt and the call context, and gives the run's
  output.
\<close>

record agent =
  ag_id :: string
  ag_name :: string
  ag_role :: string
  ag_instructions :: string
  ag_output_schema :: pydict
  ag_required_sources :: "string list"

text \<open>The iteration tag is the value of the context variable during the call.\<close>

record 'd agent_call =
  ac_agent :: agent
  ac_node_id :: string
  ac_history :: "pyval list"
  ac_new_message :: "string option"
  ac_system_prompt :: string
  ac_context_tools :: "string list"
  ac_extra_context :: "pydict option"
  ac_dedup :: "'d stash_dedup_binding option"
  ac_iteration_tag :: "string option"

record ('w, 'h, 'l, 'd) node_env =
  ne_rt :: pyrt
  ne_redis :: "'w store"
  ne_run_id :: string
  ne_emit :: "string \<Rightarrow> string option \<Rightarrow> pydict \<Rightarrow> ('w, unit) act"
  ne_parse_uuid :: "string \<Rightarrow> exn + string"
  ne_get_agent :: "string \<Rightarrow> ('w, agent option) act"
  ne_run_agent :: "'d agent_call \<Rightarrow> ('w, pyval) act"
  ne_messages :: "string list \<Rightarrow> ('w, agent_message list) act"
  ne_has_llm :: bool
  ne_flow :: "flow_definition option"
  ne_preview_limit :: nat
  ne_tools :: "'h tool_registry"
  ne_call_tool :: "'h \<Rightarrow> pydict \<Rightarrow> pydict \<Rightarrow> ('w, pyval) act"
  ne_sources :: "'l source_registry"
  ne_load_source :: "'l \<Rightarrow> pydict \<Rightarrow> string option \<Rightarrow> ('w, pyval) act"
  ne_checkers :: "'d checker_registry"
  ne_has_connectors :: bool
  ne_operation :: "string \<Rightarrow> (string \<times> pydict) option"
  ne_connector :: "string \<Rightarrow> pydict option"
  ne_execute_operation :: "string \<Rightarrow> pydict \<Rightarrow> ('w, pyval) act"
  ne_uuid :: "('w, string) act"
  ne_monotonic :: "('w, rat) act"
  ne_rollback :: "('w, unit) act"
  ne_concurrency_max :: int
  ne_gather :: "nat \<Rightarrow> ('w, string) act list \<Rightarrow> ('w, (exn + string) list \<times> nat list) act"

definition node_error :: "string \<Rightarrow> string \<Rightarrow> exn" where
  "node_error node_id m = NodeExecutionError (''ai_agent node '' @ node_id @ m)"

section \<open>Context sources of an agent\<close>

definition source_id_for ::
  "('w, 'h, 'l, 'd) node_env \<Rightarrow> flow_node \<Rightarrow> pydict \<Rightarrow> pydict \<Rightarrow> string
   \<Rightarrow> 'l context_source \<Rightarrow> ('w, string option) act" where
  "source_id_for env node bindings state name source =
     (if cs_id_implicit source then returnA None
      else (case dget bindings name of
        PDict binding \<Rightarrow>
          bindA (liftOR (resolve_binding_id (ne_rt env) binding state)) (\<lambda>source_id.
            if source_id = None \<or> source_id = Some [] then
              raiseA (node_error (fn_id node) ('': binding for source '' @ str_repr name
                @ '' resolved to no id (binding='' @ py_repr (ne_rt env) (PDict binding) @ '')''))
            else returnA source_id)
      | _ \<Rightarrow> raiseA (node_error (fn_id node) ('': missing context_bindings entry ''
               @ ''for required source '' @ str_repr name))))"

definition load_one_source ::
  "('w, 'h, 'l, 'd) node_env \<Rightarrow> flow_node \<Rightarrow> pydict \<Rightarrow> pydict \<Rightarrow> string
   \<Rightarrow> ('w, string \<times> pyval) act" where
  "load_one_source env node bindings state name =
     (case get_context_source (ne_sources env) name of
        Inl _ \<Rightarrow> raiseA (node_error (fn_id node) ('': agent requires context source ''
          @ str_repr name @ '' but no such source is registered''))
      | Inr source \<Rightarrow>
          bindA (source_id_for env node bindings state name source) (\<lambda>source_id.
          bindA (tryA (ne_load_source env (cs_loader source) state source_id)
            (\<lambda>e. raiseA (node_error (fn_id node) ('': loader for context source ''
               @ str_repr name @ '' failed: '' @ exn_text e)))) (\<lambda>data.
          case data of
            PDict _ \<Rightarrow> returnA (name, data)
          | v \<Rightarrow> raiseA (node_error (fn_id node) ('': loader for '' @ str_repr name
                  @ '' returned '' @ type_name v @ '', expected dict'')))))"

definition load_agent_context ::
  "('w, 'h, 'l, 'd) node_env \<Rightarrow> agent \<Rightarrow> flow_node \<Rightarrow> pydict \<Rightarrow> ('w, pydict) act" where
  "load_agent_context env ag node state =
     (if ag_required_sources ag = [] then returnA []
      else (case py_or (dget (fn_config node) ''context_bindings'') (PDict []) of
        PDict bindings \<Rightarrow>
          bindA (forA (load_one_source env node bindings state) (ag_required_sources ag))
            (\<lambda>loaded. returnA (dupdate [] loaded))
      | _ \<Rightarrow> raiseA (node_error (fn_id node) '': context_bindings must be an object'')))"

section \<open>The prompts of a turn\<close>

definition blank_line :: string where
  "blank_line = [CHR 0x0A, CHR 0x0A]"

definition build_system_prompt ::
  "pyrt \<Rightarrow> agent \<Rightarrow> string option \<Rightarrow> string option \<Rightarrow> string" where
  "build_system_prompt rt ag role instructions =
     (let actual_role = (case role of None \<Rightarrow> ag_role ag | Some r \<Rightarrow> r);
          actual_instructions = (case instructions of None \<Rightarrow> ag_instructions ag | Some i \<Rightarrow> i)
      in join_with blank_line
           ((if actual_role \<noteq> [] then [''Role: '' @ actual_role] else [])
            @ (if actual_instructions \<noteq> [] then [actual_instructions] else [])
            @ (if ag_output_schema ag \<noteq> [] then
                 [''When you are finished using tools, return ONLY a JSON object ''
                  @ ''matching this schema:'' @ [CHR 0x0A]
                  @ json_dumps rt True (PDict (ag_output_schema ag))] else [])))"

text \<open>\<open>enriched_state\<close>: the loaded context merged into the state's, and the iteration block.\<close>

definition enrich_state :: "pydict \<Rightarrow> pydict \<Rightarrow> pydict option \<Rightarrow> pydict" where
  "enrich_state state loaded iteration =
     (let st = dset state ''context'' (PDict (dupdate (branch_of state ''context'') loaded))
      in (case iteration of None \<Rightarrow> st | Some it \<Rightarrow> dset st ''iteration'' (PDict it)))"

definition formatted :: "pyrt \<Rightarrow> string \<Rightarrow> pydict \<Rightarrow> string option" where
  "formatted rt text state = (if text = [] then Some [] else format_template rt text state)"

fun schema_error :: "config_error \<Rightarrow> exn" where
  "schema_error (UnhashableError t) = OtherError ''TypeError'' t"
| "schema_error e = NodeExecutionError (config_error_text e)"

definition resolve_stash_schema ::
  "('w, 'h, 'l, 'd) node_env \<Rightarrow> flow_node \<Rightarrow> exn + pydict list option" where
  "resolve_stash_schema env node =
     map_sum schema_error id
       (resolve_stash_record_schema (ne_rt env) (dget (fn_config node) ''stash'') (fn_id node))"

definition resolve_stash_dedup ::
  "('w, 'h, 'l, 'd) node_env \<Rightarrow> flow_node \<Rightarrow> exn + 'd stash_dedup_binding option" where
  "resolve_stash_dedup env node =
     map_sum (\<lambda>e. case e of StashDedupConfigError m \<Rightarrow> NodeExecutionError m) id
       (resolve_stash_dedup_binding (dget (fn_config node) ''stash'') (fn_id node)
          (ne_checkers env))"

definition add_addenda :: "string \<Rightarrow> string option list \<Rightarrow> string" where
  "add_addenda prompt addenda =
     foldl (\<lambda>p a. case a of None \<Rightarrow> p | Some t \<Rightarrow> if t = [] then p else p @ blank_line @ t)
       prompt addenda"

text \<open>The call context that the schema, the dedup binding and the triggering user add to.\<close>

definition call_extras ::
  "pydict list option \<Rightarrow> 'd stash_dedup_binding option \<Rightarrow> string option \<Rightarrow> pydict option
   \<Rightarrow> pydict option" where
  "call_extras record_schema dedup trigger_user base =
     with_call_context_extras (map_option (\<lambda>s. PList (map PDict s)) record_schema)
       (map_option (\<lambda>b. PObj (dc_name (sb_checker b))) dedup) trigger_user base"

text \<open>
  One turn: resolve the prompts on the enriched state, load the history, run the agent.
\<close>

definition agent_turn ::
  "('w, 'h, 'l, 'd) node_env \<Rightarrow> flow_node \<Rightarrow> agent \<Rightarrow> pydict \<Rightarrow> pydict \<Rightarrow> pyval list
   \<Rightarrow> string list \<Rightarrow> pydict option \<Rightarrow> string option \<Rightarrow> ('w, pyval list) act \<Rightarrow> ('w, pyval) act" where
  "agent_turn env node ag state enriched history0 context_tools base tag load =
     bindA (liftO (resolve_prompt (ne_rt env) (fn_config node) enriched)) (\<lambda>new_message.
     bindA (liftO (formatted (ne_rt env) (ag_role ag) enriched)) (\<lambda>role.
     bindA (liftO (formatted (ne_rt env) (ag_instructions ag) enriched)) (\<lambda>instructions.
     bindA (liftR (resolve_stash_schema env node)) (\<lambda>record_schema.
     bindA (liftR (resolve_stash_dedup env node)) (\<lambda>dedup.
     bindA load (\<lambda>history.
     bindA (liftR (trigger_user_id_from_state (ne_rt env) state)) (\<lambda>trigger_user.
       ne_run_agent env
         \<lparr>ac_agent = ag, ac_node_id = fn_id node, ac_history = history0 @ history,
          ac_new_message = new_message,
          ac_system_prompt = add_addenda
            (build_system_prompt (ne_rt env) ag (Some role) (Some instructions))
            [format_stash_schema_addendum (ne_rt env) record_schema,
             format_stash_dedup_addendum dedup],
          ac_context_tools = context_tools,
          ac_extra_context = call_extras record_schema dedup trigger_user base,
          ac_dedup = dedup, ac_iteration_tag = tag\<rparr>)))))))"

section \<open>What both kinds of agent node resolve first\<close>

definition inherit_list :: "flow_node \<Rightarrow> exn + string list" where
  "inherit_list node =
     (case py_or (dget (fn_config node) ''inherit_history_from'') (PList []) of
        PList xs \<Rightarrow>
          if list_all is_str xs then Inr (str_items xs)
          else Inl (node_error (fn_id node) '': inherit_history_from must be a list of node ids'')
      | _ \<Rightarrow> Inl (node_error (fn_id node) '': inherit_history_from must be a list of node ids''))"

definition fetch_agent ::
  "('w, 'h, 'l, 'd) node_env \<Rightarrow> flow_node \<Rightarrow> ('w, agent) act" where
  "fetch_agent env node =
     (let raw = dget (fn_config node) ''agent_id''
      in if \<not> truthy raw then
           raiseA (node_error (fn_id node) '' missing config.agent_id'')
         else if \<not> ne_has_llm env then
           raiseA (NodeExecutionError (''ai_agent node requires LLMRouter + MCPClient; host app must ''
             @ ''inject both when constructing NodeExecutor''))
         else bindA (liftR (ne_parse_uuid env (py_str (ne_rt env) raw))) (\<lambda>agent_id.
              bindA (ne_get_agent env agent_id) (\<lambda>found.
                case found of
                  None \<Rightarrow> raiseA (NodeExecutionError (''agent '' @ agent_id @ '' not found''))
                | Some a \<Rightarrow> returnA a)))"

definition checked_inheritance ::
  "('w, 'h, 'l, 'd) node_env \<Rightarrow> flow_node \<Rightarrow> ('w, string list) act" where
  "checked_inheritance env node =
     bindA (liftR (inherit_list node)) (\<lambda>inherit_from.
     bindA (if inherit_from = [] then returnA ()
            else liftR (validate_inheritable_nodes (ne_flow env) (fn_id node) inherit_from))
       (\<lambda>_. returnA inherit_from))"

definition include_tools :: "flow_node \<Rightarrow> bool" where
  "include_tools node = truthy (dget_or (fn_config node) ''inherit_tool_interactions'' (PBool True))"

definition with_loaded :: "string \<Rightarrow> pyval \<Rightarrow> pydict \<Rightarrow> pydict" where
  "with_loaded node_id output loaded =
     (if loaded = [] then [(node_id, output)]
      else dset [(node_id, output)] ''context'' (PDict loaded))"

section \<open>A single-turn agent node\<close>

definition run_ai_agent_once ::
  "('w, 'h, 'l, 'd) node_env \<Rightarrow> flow_node \<Rightarrow> pydict \<Rightarrow> ('w, pydict) act" where
  "run_ai_agent_once env node state =
     bindA (fetch_agent env node) (\<lambda>ag.
     bindA (checked_inheritance env node) (\<lambda>inherit_from.
     bindA (load_history (ne_messages env) (fn_id node) inherit_from (include_tools node) True)
       (\<lambda>history.
     bindA (load_agent_context env ag node state) (\<lambda>loaded.
     bindA (agent_turn env node ag state (enrich_state state loaded None) history [] None None
              (returnA [])) (\<lambda>output.
       returnA (with_loaded (fn_id node) output loaded))))))"

section \<open>Iteration driven by the agent\<close>

text \<open>
  What a turn hands back: \<open>None\<close> is a turn that ended without a usable yield, which is an
  error when the node asks for one.
\<close>

type_synonym yielded = "pydict \<times> pyval list \<times> bool"

definition classify_yield ::
  "pyrt \<Rightarrow> string \<Rightarrow> pydict list \<Rightarrow> string \<Rightarrow> nat \<Rightarrow> pyval \<Rightarrow> exn + yielded option" where
  "classify_yield rt node_id carry_schema on_no_yield index captured =
     (let at_index = '' at iteration '' @ nat_str index;
          no_yield = (\<lambda>m. if on_no_yield = ''error''
             then Inl (node_error node_id ('': '' @ m)) else Inr None);
          unyielded = no_yield (''agent finished iteration '' @ nat_str index
             @ '' without calling yield_iteration'')
      in case captured of
           PDict args \<Rightarrow>
             if \<not> (dhas args ''done'' \<and> dhas args ''next_carry'') then unyielded
             else (case py_or (dget args ''next_carry'') (PDict []) of
                PDict next_carry \<Rightarrow>
                  (let missing = filter (\<lambda>v. case v of PStr k \<Rightarrow> \<not> dhas next_carry k | _ \<Rightarrow> True)
                                   (map (\<lambda>f. dget f ''name'') carry_schema)
                   in if missing \<noteq> [] then
                        no_yield (''yield_iteration next_carry missing fields ''
                          @ py_repr rt (PList missing) @ at_index)
                      else Inr (Some (next_carry,
                        (case py_or (dget args ''append'') (PList []) of PList xs \<Rightarrow> xs | _ \<Rightarrow> []),
                        truthy (dget args ''done''))))
              | _ \<Rightarrow> no_yield (''yield_iteration returned non-object next_carry'' @ at_index))
         | _ \<Rightarrow> unyielded)"

definition yield_payload :: "pyval list \<Rightarrow> pydict \<Rightarrow> nat \<Rightarrow> string \<Rightarrow> pydict" where
  "yield_payload items carry iterations exit_reason =
     [(''items'', PList items), (''carry_final'', PDict carry),
      (''iterations'', PInt (int iterations)), (''exit_reason'', PStr exit_reason)]"

fun yield_loop ::
  "(nat \<Rightarrow> pydict \<Rightarrow> ('w, yielded option) act) \<Rightarrow> nat \<Rightarrow> nat \<Rightarrow> pydict \<Rightarrow> pyval list
   \<Rightarrow> ('w, pydict) act" where
  "yield_loop turn 0 index carry items =
     returnA (yield_payload items carry index ''max_iterations'')"
| "yield_loop turn (Suc n) index carry items =
     bindA (turn index carry) (\<lambda>r. case r of
       None \<Rightarrow> returnA (yield_payload items carry index ''no_yield'')
     | Some (next_carry, appended, fin) \<Rightarrow>
         if fin then
           returnA (yield_payload (items @ appended) next_carry (Suc index) ''done_signal'')
         else yield_loop turn n (Suc index) next_carry (items @ appended))"

definition initial_carry ::
  "pyrt \<Rightarrow> pydict list \<Rightarrow> pyval \<Rightarrow> pydict \<Rightarrow> pydict option" where
  "initial_carry rt carry_schema raw_overrides state =
     (let carry = foldl (\<lambda>c f. case dget f ''name'' of
                           PStr n \<Rightarrow> dset c n (dget f ''default'') | _ \<Rightarrow> c) [] carry_schema
      in case py_or raw_overrides (PDict []) of
           PDict overrides \<Rightarrow>
             foldl (\<lambda>c p. Option.bind c (\<lambda>c.
               if dhas c (fst p) then
                 map_option (\<lambda>v. dset c (fst p) v) (resolve_value rt (snd p) state)
               else Some c)) (Some carry) overrides
         | _ \<Rightarrow> Some carry)"

definition yield_turn ::
  "('w, 'h, 'l, 'd) node_env \<Rightarrow> flow_node \<Rightarrow> agent \<Rightarrow> pydict \<Rightarrow> string list \<Rightarrow> pydict
   \<Rightarrow> pydict list \<Rightarrow> string \<Rightarrow> nat \<Rightarrow> pydict \<Rightarrow> ('w, yielded option) act" where
  "yield_turn env node ag state inherit_from loaded carry_schema on_no_yield index carry =
     bindA (agent_turn env node ag state
              (enrich_state state loaded
                 (Some [(''carry'', PDict carry), (''index'', PInt (int index))]))
              [] [''yield_iteration''] (Some [(''iteration_index'', PInt (int index))]) None
              (load_history (ne_messages env) (fn_id node) inherit_from (include_tools node) False))
       (\<lambda>captured. liftR
          (classify_yield (ne_rt env) (fn_id node) carry_schema on_no_yield index captured))"

definition iterate_with_agent_yield ::
  "('w, 'h, 'l, 'd) node_env \<Rightarrow> flow_node \<Rightarrow> pydict \<Rightarrow> pydict \<Rightarrow> agent \<Rightarrow> string list \<Rightarrow> pydict
   \<Rightarrow> nat \<Rightarrow> ('w, pydict) act" where
  "iterate_with_agent_yield env node state cfg ag inherit_from loaded max_iterations =
     bindA (liftR (map_sum schema_error id (validate_carry_schema (ne_rt env)
              (py_or (dget cfg ''carry_schema'') (PList [])) (fn_id node)))) (\<lambda>carry_schema.
     bindA (liftO (initial_carry (ne_rt env) carry_schema (dget cfg ''initial_carry'') state))
       (\<lambda>carry.
        yield_loop
          (yield_turn env node ag state inherit_from loaded carry_schema
             (resolve_on_no_yield (dget cfg ''on_no_yield'')))
          max_iterations 0 carry []))"

section \<open>What the loop returns\<close>

text \<open>\<open>yield_run\<close>: the turns that yielded, one after the other, with carry and world threaded.\<close>

inductive yield_run ::
  "(nat \<Rightarrow> pydict \<Rightarrow> ('w, yielded option) act) \<Rightarrow> nat \<Rightarrow> pydict \<Rightarrow> 'w \<Rightarrow> yielded list
   \<Rightarrow> pydict \<Rightarrow> 'w \<Rightarrow> bool"
  for turn where
  none: "yield_run turn index carry w [] carry w"
| more: "turn index carry w = Some (Inr (Some (next_carry, appended, fin)), w1) \<Longrightarrow>
    yield_run turn (Suc index) next_carry w1 turns carry' w' \<Longrightarrow>
    yield_run turn index carry w ((next_carry, appended, fin) # turns) carry' w'"

definition finished :: "yielded \<Rightarrow> bool" where
  "finished t = snd (snd t)"

text \<open>
  \<open>yield_outcome\<close>: how a list of at most \<open>n\<close> yields ends.  By the done signal, which is the
  last yield's and no other's; by the bound, after exactly \<open>n\<close> yields without the signal; or
  by a further turn that did not yield.
\<close>

definition yield_outcome :: "nat \<Rightarrow> yielded list \<Rightarrow> string \<Rightarrow> bool" where
  "yield_outcome n turns exit_reason =
     (if exit_reason = ''done_signal'' then
        turns \<noteq> [] \<and> length turns \<le> n \<and> finished (last turns) \<and>
        list_all (\<lambda>t. \<not> finished t) (butlast turns)
      else if exit_reason = ''max_iterations'' then
        length turns = n \<and> list_all (\<lambda>t. \<not> finished t) turns
      else exit_reason = ''no_yield'' \<and> length turns < n \<and> list_all (\<lambda>t. \<not> finished t) turns)"

lemma yield_outcome_Cons:
  "\<not> finished t \<Longrightarrow> yield_outcome n turns reason \<Longrightarrow> yield_outcome (Suc n) (t # turns) reason"
  by (auto simp: yield_outcome_def split: if_splits)

lemma yield_loop_trace:
  assumes "yield_loop turn n index carry items w = Some (Inr payload, w')"
  shows "\<exists>turns carry' w1 reason. yield_run turn index carry w turns carry' w1 \<and>
    yield_outcome n turns reason \<and>
    payload = yield_payload (items @ concat (map (fst \<circ> snd) turns)) carry'
      (index + length turns) reason \<and>
    (if reason = ''no_yield''
     then turn (index + length turns) carry' w1 = Some (Inr None, w') else w1 = w')"
  using assms
proof (induction n arbitrary: index carry items w)
  case 0
  then have "payload = yield_payload items carry index ''max_iterations''" "w' = w"
    by (auto simp: returnA_def)
  then show ?case
    by (intro exI [of _ "[]"] exI [of _ carry] exI [of _ w] exI [of _ "''max_iterations''"])
      (simp add: yield_run.none yield_outcome_def)
next
  case (Suc n)
  from Suc.prems obtain r w1 where r: "turn index carry w = Some (Inr r, w1)"
    by (auto simp: bindA_Some)
  show ?case
  proof (cases r)
    case None
    with Suc.prems r have "payload = yield_payload items carry index ''no_yield''" "w' = w1"
      by (auto simp: bindA_Some returnA_def)
    with r None show ?thesis
      by (intro exI [of _ "[]"] exI [of _ carry] exI [of _ w] exI [of _ "''no_yield''"])
        (simp add: yield_run.none yield_outcome_def)
  next
    case (Some y)
    obtain nc app fin where y: "y = (nc, app, fin)" by (cases y)
    note step = yield_run.more [of turn index carry w nc app fin w1]
    show ?thesis
    proof (cases fin)
      case True
      with Suc.prems r Some y
      have "payload = yield_payload (items @ app) nc (Suc index) ''done_signal''" "w' = w1"
        by (auto simp: bindA_Some returnA_def)
      moreover have "yield_run turn index carry w [(nc, app, True)] nc w1"
        using step [OF _ yield_run.none] r Some y True by simp
      ultimately show ?thesis
        by (intro exI [of _ "[(nc, app, True)]"] exI [of _ nc] exI [of _ w1]
            exI [of _ "''done_signal''"])
          (auto simp: yield_outcome_def finished_def)
    next
      case False
      with Suc.prems r Some y
      have "yield_loop turn n (Suc index) nc (items @ app) w1 = Some (Inr payload, w')"
        by (auto simp: bindA_Some)
      from Suc.IH [OF this] obtain turns carry' w2 reason where
        t: "yield_run turn (Suc index) nc w1 turns carry' w2" "yield_outcome n turns reason"
        "payload = yield_payload ((items @ app) @ concat (map (fst \<circ> snd) turns)) carry'
           (Suc index + length turns) reason"
        "if reason = ''no_yield''
         then turn (Suc index + length turns) carry' w2 = Some (Inr None, w') else w2 = w'"
        by blast
      have "yield_run turn index carry w ((nc, app, fin) # turns) carry' w2"
        using step r Some y t(1) by simp
      moreover have "yield_outcome (Suc n) ((nc, app, fin) # turns) reason"
        using yield_outcome_Cons t(2) False by (simp add: finished_def)
      ultimately show ?thesis using t(3,4)
        by (intro exI [of _ "(nc, app, fin) # turns"] exI [of _ carry'] exI [of _ w2]
            exI [of _ reason]) (auto simp: comp_def split: if_splits)
    qed
  qed
qed

text \<open>
  C37 (refinement). An agent-driven iteration that returns has run a sequence of turns, the
  carry of each being what the previous one handed back.  Its items are what the turns
  appended, in order, its final carry and its count are those of the sequence, and its exit
  reason says how the sequence ended: by the done signal of the last turn, after exactly the
  allowed number of turns, or by one more turn that did not yield.
\<close>

theorem agent_yield_loop_result:
  assumes "yield_loop turn max_iterations 0 carry [] w = Some (Inr payload, w')"
  shows "\<exists>turns carry' w1 reason. yield_run turn 0 carry w turns carry' w1 \<and>
    yield_outcome max_iterations turns reason \<and>
    payload = yield_payload (concat (map (fst \<circ> snd) turns)) carry' (length turns) reason \<and>
    (if reason = ''no_yield''
     then turn (length turns) carry' w1 = Some (Inr None, w') else w1 = w')"
  using yield_loop_trace [OF assms] unfolding add_0 append_Nil .

theorem agent_yield_loop_result_witness:
  "\<exists>turns reason. yield_outcome 3 turns reason \<and>
     yield_payload [PInt 0, PInt 1] [] 2 ''done_signal''
       = yield_payload (concat (map (fst \<circ> snd) turns)) [] (length turns) reason"
proof -
  let ?turn = "\<lambda>i c. returnA (Some (c, [PInt (int i)], i = 1)) :: (unit, yielded option) act"
  have "yield_loop ?turn 3 0 [] [] ()
      = Some (Inr (yield_payload [PInt 0, PInt 1] [] 2 ''done_signal''), ())"
    by (simp add: numeral_eq_Suc) (simp add: returnA_def)
  from agent_yield_loop_result [OF this] show ?thesis by (auto simp: yield_payload_def)
qed

end
