(* ===== verification/ScratchpadLoop.thy ===== *)
theory ScratchpadLoop
  imports NodeAgents
begin

text \<open>
  Iteration over a scratchpad collection (luna_core/engine/nodes.py): one record through the
  agent, the sequential walk, the concurrent execution under a semaphore, and the summary.
\<close>

section \<open>One record\<close>

text \<open>The lifecycle payload of an iteration, and its duration in milliseconds.\<close>

definition iteration_payload :: "string \<Rightarrow> nat \<Rightarrow> string \<Rightarrow> string \<Rightarrow> pydict" where
  "iteration_payload iteration_id index record_id collection =
     [(''iteration_id'', PStr iteration_id), (''iteration_index'', PInt (int index)),
      (''item_id'', PStr record_id), (''collection'', PStr collection)]"

definition duration_ms :: "rat \<Rightarrow> rat \<Rightarrow> int" where
  "duration_ms started now = (let d = (now - started) * 1000 in if d < 0 then \<lceil>d\<rceil> else \<lfloor>d\<rfloor>)"

definition iteration_body ::
  "('w, 'h, 'l, 'd) node_env \<Rightarrow> flow_node \<Rightarrow> pydict \<Rightarrow> agent \<Rightarrow> string list \<Rightarrow> pydict
   \<Rightarrow> string \<Rightarrow> string \<Rightarrow> nat \<Rightarrow> string \<Rightarrow> pydict \<Rightarrow> ('w, unit) act" where
  "iteration_body env node state ag inherit_from loaded collection record_id index iteration_id rec =
     bindA (agent_turn env node ag state
              (enrich_state state loaded
                 (Some [(''item'', PDict rec), (''item_id'', PStr record_id),
                        (''index'', PInt (int index)), (''collection'', PStr collection)]))
              [] []
              (Some [(''iteration_index'', PInt (int index)),
                     (''iteration_item_id'', PStr record_id),
                     (''iteration_collection'', PStr collection),
                     (''iteration_id'', PStr iteration_id)])
              (Some iteration_id)
              (load_history (ne_messages env) (fn_id node) inherit_from (include_tools node) False))
       (\<lambda>_. bindA (stepA (\<lambda>w. map_prod (map_sum
                (\<lambda>e. OtherError ''ScratchpadError'' (scratchpad_error_text e)) id) id
              (scratchpad_drop (ne_redis env) (ne_run_id env) collection record_id w)))
          (\<lambda>_. returnA ()))"

definition iteration_failed ::
  "('w, 'h, 'l, 'd) node_env \<Rightarrow> flow_node \<Rightarrow> pydict \<Rightarrow> rat \<Rightarrow> exn \<Rightarrow> ('w, unit) act" where
  "iteration_failed env node payload started e =
     bindA (ne_monotonic env) (\<lambda>now.
     bindA (ignoreA (ne_rollback env)) (\<lambda>_.
     bindA (ignoreA (ne_emit env ''iteration_failed'' (Some (fn_id node))
        (payload @ [(''duration_ms'', PInt (duration_ms started now)),
                    (''error'', PStr (exn_name e @ '': '' @ exn_text e))]))) (\<lambda>_.
       raiseA e)))"

definition execute_single_iteration ::
  "('w, 'h, 'l, 'd) node_env \<Rightarrow> flow_node \<Rightarrow> pydict \<Rightarrow> agent \<Rightarrow> string list \<Rightarrow> pydict
   \<Rightarrow> string \<Rightarrow> nat \<times> string \<Rightarrow> ('w, string) act" where
  "execute_single_iteration env node state ag inherit_from loaded collection item =
     (let (index, record_id) = item
      in bindA (readA (r_exists (ne_redis env) (abort_key (ne_run_id env)))) (\<lambda>aborted.
         if aborted then returnA ''skipped_aborted''
         else
         bindA (\<lambda>w. Some (map_sum (\<lambda>e. OtherError ''ScratchpadError'' (scratchpad_error_text e)) id
                  (scratchpad_get (ne_redis env) (ne_run_id env) collection record_id w), w))
           (\<lambda>found. case found of
              None \<Rightarrow> returnA ''skipped_missing''
            | Some rec \<Rightarrow>
                bindA (ne_uuid env) (\<lambda>iteration_id.
                let payload = iteration_payload iteration_id index record_id collection
                in bindA (ne_emit env ''iteration_started'' (Some (fn_id node)) payload) (\<lambda>_.
                   bindA (ne_monotonic env) (\<lambda>started.
                   bindA (try_allA
                     (iteration_body env node state ag inherit_from loaded collection record_id
                        index iteration_id rec)
                     (iteration_failed env node payload started)) (\<lambda>_.
                   bindA (ne_monotonic env) (\<lambda>now.
                   bindA (ne_emit env ''iteration_completed'' (Some (fn_id node))
                     (payload @ [(''duration_ms'', PInt (duration_ms started now))])) (\<lambda>_.
                     returnA ''processed'')))))))))"

section \<open>Sequential walk\<close>

definition enumerate_ids :: "string list \<Rightarrow> (nat \<times> string) list" where
  "enumerate_ids ids = zip [0..<length ids] ids"

definition run_sequential ::
  "('w, 'h, 'l, 'd) node_env \<Rightarrow> flow_node \<Rightarrow> pydict \<Rightarrow> agent \<Rightarrow> string list \<Rightarrow> pydict
   \<Rightarrow> string \<Rightarrow> string list \<Rightarrow> ('w, string list) act" where
  "run_sequential env node state ag inherit_from loaded collection bounded_ids =
     forA (execute_single_iteration env node state ag inherit_from loaded collection)
       (enumerate_ids bounded_ids)"

section \<open>Concurrent execution\<close>

text \<open>
  A task waits for the semaphore, runs, and is done with the result of its body.  The event
  loop chooses which task moves; in the drain that follows a failure, tasks that are not
  done are cancelled: their body ends with \<open>CancelledError\<close>, or with what it was raising or
  returning when the cancellation reached it.
\<close>

datatype task = Waiting | InFlight | Settled "exn + string"

definition in_flight :: "task list \<Rightarrow> nat" where
  "in_flight ts = length (filter (\<lambda>t. t = InFlight) ts)"

inductive task_step :: "nat \<Rightarrow> bool \<Rightarrow> task list \<Rightarrow> task list \<Rightarrow> bool"
  for concurrency where
  acquire: "i < length ts \<Longrightarrow> ts ! i = Waiting \<Longrightarrow> in_flight ts < concurrency \<Longrightarrow>
    task_step concurrency draining ts (ts[i := InFlight])"
| settle: "i < length ts \<Longrightarrow> ts ! i = InFlight \<Longrightarrow>
    task_step concurrency draining ts (ts[i := Settled r])"
| cancel: "i < length ts \<Longrightarrow> ts ! i = Waiting \<Longrightarrow>
    task_step concurrency True ts (ts[i := Settled (Inl Cancelled)])"

inductive task_reach :: "nat \<Rightarrow> nat \<Rightarrow> task list \<Rightarrow> bool"
  for concurrency n where
  start: "task_reach concurrency n (replicate n Waiting)"
| step: "task_reach concurrency n ts \<Longrightarrow> task_step concurrency draining ts ts' \<Longrightarrow>
    task_reach concurrency n ts'"

inductive_cases task_stepE: "task_step concurrency draining ts ts'"

text \<open>
  \<open>gather(return_exceptions=True)\<close> gives the results in task order.  In continue mode the
  first abort among them is raised again, and every other exception is a failed item.
\<close>

fun first_abort :: "(exn + string) list \<Rightarrow> exn option" where
  "first_abort [] = None"
| "first_abort (Inl (AbortSignalError r n) # rs) = Some (AbortSignalError r n)"
| "first_abort (_ # rs) = first_abort rs"

definition outcome_tag :: "exn + string \<Rightarrow> string" where
  "outcome_tag r = (case r of Inl _ \<Rightarrow> ''failed'' | Inr tag \<Rightarrow> tag)"

definition continue_outcomes :: "(exn + string) list \<Rightarrow> exn + string list" where
  "continue_outcomes gathered =
     (case first_abort gathered of
        Some e \<Rightarrow> Inl e
      | None \<Rightarrow> Inr (map outcome_tag gathered))"

text \<open>
  Without \<open>return_exceptions\<close> the first exception to be raised surfaces: \<open>order\<close> lists the
  tasks in the order in which they settled.
\<close>

fun failure :: "exn + string \<Rightarrow> exn option" where
  "failure (Inl e) = Some e"
| "failure (Inr _) = None"

definition first_failure :: "(exn + string) list \<Rightarrow> nat list \<Rightarrow> exn option" where
  "first_failure gathered order =
     (case List.map_filter (\<lambda>i. failure (gathered ! i)) order of [] \<Rightarrow> None | e # _ \<Rightarrow> Some e)"

fun sibling_error :: "string \<Rightarrow> exn \<Rightarrow> exn" where
  "sibling_error node_id (AbortSignalError r n) = AbortSignalError r n"
| "sibling_error node_id Cancelled = Cancelled"
| "sibling_error node_id e =
     NodeExecutionError (''ai_agent node '' @ node_id
       @ '': iteration failed in cancel_siblings mode ('' @ exn_name e @ '': '' @ exn_text e @ '')'')"

definition cancel_siblings_outcomes ::
  "string \<Rightarrow> (exn + string) list \<Rightarrow> nat list \<Rightarrow> exn + string list" where
  "cancel_siblings_outcomes node_id gathered order =
     (case first_failure gathered order of
        Some e \<Rightarrow> Inl (sibling_error node_id e)
      | None \<Rightarrow> Inr (map outcome_tag gathered))"

text \<open>
  The tasks are created in order and driven by the event loop (\<open>ne_gather\<close>, with the size
  of the semaphore), and the policy reads their results.
\<close>

definition run_parallel ::
  "('w, 'h, 'l, 'd) node_env \<Rightarrow> flow_node \<Rightarrow> pydict \<Rightarrow> pydict \<Rightarrow> agent \<Rightarrow> string list \<Rightarrow> pydict
   \<Rightarrow> string \<Rightarrow> string list \<Rightarrow> ('w, string list) act" where
  "run_parallel env node state cfg ag inherit_from loaded collection bounded_ids =
     (let concurrency = nat (resolve_iteration_concurrency (ne_concurrency_max env)
                               (dget cfg ''concurrency''));
          on_error = resolve_on_iteration_error (dget cfg ''on_iteration_error'')
      in bindA (ne_gather env concurrency
           (map (execute_single_iteration env node state ag inherit_from loaded collection)
              (enumerate_ids bounded_ids))) (\<lambda>(gathered, order).
         liftR (if on_error = ''cancel_siblings''
                then cancel_siblings_outcomes (fn_id node) gathered order
                else continue_outcomes gathered)))"

section \<open>The summary\<close>

definition count_tag :: "string \<Rightarrow> string list \<Rightarrow> int" where
  "count_tag tag outcomes = int (length (filter (\<lambda>t. t = tag) outcomes))"

definition scratchpad_summary ::
  "string list \<Rightarrow> nat \<Rightarrow> string \<Rightarrow> string \<Rightarrow> string list \<Rightarrow> pydict" where
  "scratchpad_summary outcomes max_iterations collection execution snapshot_ids =
     [(''processed'', PInt (count_tag ''processed'' outcomes)),
      (''skipped_missing'', PInt (count_tag ''skipped_missing'' outcomes)),
      (''skipped_aborted'', PInt (count_tag ''skipped_aborted'' outcomes)),
      (''failed'', PInt (count_tag ''failed'' outcomes)),
      (''snapshot_size'', PInt (int (length snapshot_ids))),
      (''collection'', PStr collection),
      (''exit_reason'', PStr (if length snapshot_ids > max_iterations
                              then ''max_iterations'' else ''exhausted'')),
      (''execution'', PStr execution)]"

definition iterate_with_scratchpad ::
  "('w, 'h, 'l, 'd) node_env \<Rightarrow> flow_node \<Rightarrow> pydict \<Rightarrow> pydict \<Rightarrow> agent \<Rightarrow> string list \<Rightarrow> pydict
   \<Rightarrow> nat \<Rightarrow> ('w, pydict) act" where
  "iterate_with_scratchpad env node state cfg ag inherit_from loaded max_iterations =
     bindA (liftR (map_sum (\<lambda>e. NodeExecutionError (config_error_text e)) id
              (resolve_scratchpad_collection (dget cfg ''source_config'') (fn_id node))))
       (\<lambda>collection.
     bindA (\<lambda>w. Some (map_sum (\<lambda>e. OtherError ''ScratchpadError'' (scratchpad_error_text e)) id
              (list_ids (ne_redis env) (ne_run_id env) collection w), w)) (\<lambda>ids.
     let snapshot_ids = sort_strs ids;
         bounded_ids = take max_iterations snapshot_ids;
         execution = resolve_iteration_execution (dget cfg ''execution'')
     in bindA (if execution = ''parallel''
               then run_parallel env node state cfg ag inherit_from loaded collection bounded_ids
               else run_sequential env node state ag inherit_from loaded collection bounded_ids)
          (\<lambda>outcomes. returnA
             (scratchpad_summary outcomes max_iterations collection execution snapshot_ids))))"

section \<open>The semaphore\<close>

lemma in_flight_update:
  "i < length ts \<Longrightarrow>
   in_flight (ts[i := t]) + (if ts ! i = InFlight then 1 else 0) =
   in_flight ts + (if t = InFlight then 1 else 0)"
proof (induction ts arbitrary: i)
  case Nil
  then show ?case by simp
next
  case (Cons x xs)
  then show ?case by (cases i) (fastforce simp: in_flight_def)+
qed

lemma task_step_in_flight:
  "task_step c draining ts ts' \<Longrightarrow> in_flight ts \<le> c \<Longrightarrow> in_flight ts' \<le> c"
proof (erule task_stepE, goal_cases)
  case (1 i)
  with in_flight_update [of i ts InFlight] show ?case by simp
next
  case (2 i r)
  with in_flight_update [of i ts "Settled r"] show ?case by simp
next
  case (3 i)
  with in_flight_update [of i ts "Settled (Inl Cancelled)"] show ?case by simp
qed



section \<open>Every item has one outcome\<close>

definition outcome_tags :: "string list" where
  "outcome_tags = [''processed'', ''skipped_missing'', ''skipped_aborted'', ''failed'']"

lemma execute_single_tags:
  "execute_single_iteration env node state ag inh loaded c item w = Some (Inr tag, w') \<Longrightarrow>
   tag \<in> set outcome_tags"
  by (auto simp: execute_single_iteration_def outcome_tags_def Let_def bindA_Some returnA_def
      split: prod.splits if_splits option.splits)

lemma count_tags_sum:
  "list_all (\<lambda>t. t \<in> set outcome_tags) outcomes \<Longrightarrow>
   count_tag ''processed'' outcomes + count_tag ''skipped_missing'' outcomes
     + count_tag ''skipped_aborted'' outcomes + count_tag ''failed'' outcomes
   = int (length outcomes)"
  by (induction outcomes) (auto simp: count_tag_def outcome_tags_def)

text \<open>
  \<open>gather_sound\<close>: what \<open>asyncio.gather\<close> returns is one result per task, in task order, and
  a tag among them was returned by that task in some world.
\<close>

definition gather_sound :: "('w, 'h, 'l, 'd) node_env \<Rightarrow> bool" where
  "gather_sound env =
     (\<forall>c tasks w gathered order w'.
        ne_gather env c tasks w = Some (Inr (gathered, order), w') \<longrightarrow>
        length gathered = length tasks \<and>
        (\<forall>i < length tasks. \<forall>tag. gathered ! i = Inr tag \<longrightarrow>
           (\<exists>w1 w2. (tasks ! i) w1 = Some (Inr tag, w2))))"

lemma run_sequential_tags:
  assumes "run_sequential env node state ag inh loaded c ids w = Some (Inr outcomes, w')"
  shows "length outcomes = length ids \<and> list_all (\<lambda>t. t \<in> set outcome_tags) outcomes"
proof -
  let ?f = "execute_single_iteration env node state ag inh loaded c"
  have "list_all (\<lambda>t. t \<in> set outcome_tags) ys"
    if "forA ?f xs w = Some (Inr ys, w')" for xs ys w w'
    using that
    by (induction xs arbitrary: ys w)
      (auto simp: returnA_def bindA_Some dest: execute_single_tags)
  then show ?thesis
    using assms forA_length [OF assms [unfolded run_sequential_def]]
    by (auto simp: run_sequential_def enumerate_ids_def)
qed

lemma gathered_tags:
  assumes "length gathered = length tasks"
    and "\<forall>i < length tasks. \<forall>tag. gathered ! i = Inr tag \<longrightarrow>
           (\<exists>w1 w2. (tasks ! i) w1 = Some (Inr tag, w2))"
    and "\<forall>t \<in> set tasks. \<forall>tag w w'. t w = Some (Inr tag, w') \<longrightarrow> tag \<in> set outcome_tags"
  shows "list_all (\<lambda>t. t \<in> set outcome_tags) (map outcome_tag gathered)"
proof -
  have "outcome_tag (gathered ! i) \<in> set outcome_tags" if i: "i < length gathered" for i
  proof (cases "gathered ! i")
    case (Inl e)
    then show ?thesis by (simp add: outcome_tag_def outcome_tags_def)
  next
    case (Inr tag)
    with assms i nth_mem [of i tasks] have "tag \<in> set outcome_tags" by metis
    with Inr show ?thesis by (simp add: outcome_tag_def)
  qed
  then show ?thesis by (simp add: list_all_length)
qed

lemma run_parallel_tags:
  assumes "gather_sound env"
    and "run_parallel env node state cfg ag inh loaded c ids w = Some (Inr outcomes, w')"
  shows "length outcomes = length ids \<and> list_all (\<lambda>t. t \<in> set outcome_tags) outcomes"
proof -
  let ?tasks = "map (execute_single_iteration env node state ag inh loaded c) (enumerate_ids ids)"
  from assms(2) obtain k gathered order w1 where
    g: "ne_gather env k ?tasks w = Some (Inr (gathered, order), w1)"
    "outcomes = map outcome_tag gathered"
    by (auto simp: run_parallel_def Let_def bindA_Some liftR_def continue_outcomes_def
        cancel_siblings_outcomes_def split: prod.splits if_splits option.splits)
  have "length gathered = length ?tasks"
    "\<forall>i < length ?tasks. \<forall>tag. gathered ! i = Inr tag \<longrightarrow>
       (\<exists>w1 w2. (?tasks ! i) w1 = Some (Inr tag, w2))"
    using assms(1) g(1) unfolding gather_sound_def by blast+
  moreover have "\<forall>t \<in> set ?tasks. \<forall>tag w w'. t w = Some (Inr tag, w') \<longrightarrow> tag \<in> set outcome_tags"
    using execute_single_tags by fastforce
  ultimately show ?thesis using gathered_tags [of gathered ?tasks] g(2)
    by (simp add: enumerate_ids_def)
qed

text \<open>
  The summary of a scratchpad iteration accounts for every record it took
  up: the four counts add up to the number of ids of the snapshot, or to the allowed number
  of iterations when the snapshot is larger, and the exit reason says which, in sequential
  and in parallel mode.
\<close>

theorem scratchpad_summary_accounts:
  assumes "gather_sound env"
    and "iterate_with_scratchpad env node state cfg ag inh loaded max_iterations w
      = Some (Inr payload, w')"
  shows "\<exists>p m a f n. map (dget payload)
      [''processed'', ''skipped_missing'', ''skipped_aborted'', ''failed'', ''snapshot_size'']
      = map PInt [p, m, a, f, n] \<and>
    p + m + a + f = min n (int max_iterations) \<and>
    dget payload ''exit_reason''
      = PStr (if n > int max_iterations then ''max_iterations'' else ''exhausted'')"
proof -
  let ?execution = "resolve_iteration_execution (dget cfg ''execution'')"
  let ?bounded = "\<lambda>ids. take max_iterations (sort_strs ids)"
  from assms(2) obtain collection ids outcomes w1 where
    p: "payload = scratchpad_summary outcomes max_iterations collection ?execution (sort_strs ids)"
    and o: "(if ?execution = ''parallel''
      then run_parallel env node state cfg ag inh loaded collection (?bounded ids)
      else run_sequential env node state ag inh loaded collection (?bounded ids)) w1
      = Some (Inr outcomes, w')"
    by (auto simp only: iterate_with_scratchpad_def Let_def bindA_Some returnA_def option.inject
        prod.inject sum.inject)
  have "length outcomes = length (?bounded ids) \<and>
      list_all (\<lambda>t. t \<in> set outcome_tags) outcomes"
  proof (cases "?execution = ''parallel''")
    case True
    show ?thesis
      by (rule run_parallel_tags [OF assms(1) o [unfolded if_P [OF True]]])
  next
    case False
    show ?thesis by (rule run_sequential_tags [OF o [unfolded if_not_P [OF False]]])
  qed
  then have "count_tag ''processed'' outcomes + count_tag ''skipped_missing'' outcomes
      + count_tag ''skipped_aborted'' outcomes + count_tag ''failed'' outcomes
      = min (int (length (sort_strs ids))) (int max_iterations)"
    using count_tags_sum [of outcomes] by (simp add: min_def split: if_splits)
  then show ?thesis unfolding p
    by (intro exI conjI) (simp_all add: scratchpad_summary_def dget_def, linarith)
qed

section \<open>A record is consumed exactly when it was processed\<close>

text \<open>
  \<open>iteration_services\<close>: what an iteration calls besides the store leaves the records of the
  iterated collection alone.  That is the situation of a consumer whose agent does not write
  into the collection it is iterating over.
\<close>

definition collection_view ::
  "('w, 'h, 'l, 'd) node_env \<Rightarrow> string \<Rightarrow> 'w \<Rightarrow> (string \<Rightarrow> pydict option) \<times> bool" where
  "collection_view env c w =
     (\<lambda>i. read_record (ne_redis env) (ne_run_id env) c i w,
      typed_ok (ne_redis env) (ne_run_id env) c w)"

locale iteration_services = json_redis "ne_redis env"
  for env :: "('w, 'h, 'l, 'd) node_env" +
  fixes c :: string
  assumes emit_keeps: "keeps (collection_view env c) (ne_emit env kind n p)"
    and agent_keeps: "keeps (collection_view env c) (ne_run_agent env call)"
    and messages_keeps: "keeps (collection_view env c) (ne_messages env ids)"
    and uuid_keeps: "keeps (collection_view env c) (ne_uuid env)"
    and monotonic_keeps: "keeps (collection_view env c) (ne_monotonic env)"
    and rollback_keeps: "keeps (collection_view env c) (ne_rollback env)"
begin

lemmas services_keep = emit_keeps agent_keeps messages_keeps uuid_keeps monotonic_keeps
  rollback_keeps

lemma load_history_keeps:
  "keeps (collection_view env c) (load_history (ne_messages env) own inh tools incl)"
  by (simp add: load_history_def Let_def keeps_intros services_keep)

lemma agent_turn_keeps:
  "keeps (collection_view env c) load \<Longrightarrow>
   keeps (collection_view env c) (agent_turn env node ag state enriched h ct base tag load)"
  by (simp add: agent_turn_def keeps_intros services_keep)

lemma keeps_view_hoare:
  "keeps (collection_view env c) m \<Longrightarrow>
   hoare (\<lambda>w. collection_view env c w = v) m (\<lambda>_ w. collection_view env c w = v)
     (\<lambda>_ w. collection_view env c w = v)"
  by (rule hoare_keeps)

lemma drop_view:
  assumes "collection_view env c w = (f, True)"
  shows "case scratchpad_drop (ne_redis env) (ne_run_id env) c i w of
    (r, w') \<Rightarrow> (case r of Inl _ \<Rightarrow> w' = w | Inr _ \<Rightarrow> collection_view env c w' = (f(i := None), True))"
proof -
  have ok: "typed_ok (ne_redis env) (ne_run_id env) c w"
    and f: "f = (\<lambda>i. read_record (ne_redis env) (ne_run_id env) c i w)"
    using assms by (auto simp: collection_view_def)
  have "collection_view env c (snd (drop_record (ne_redis env) (ne_run_id env) c i w))
      = (f(i := None), True)"
    using collection.read_remove [OF ok] collection.ok_remove [OF ok]
    by (auto simp: collection_view_def f fun_eq_iff)
  then show ?thesis by (auto simp: scratchpad_drop_def split: sum.splits prod.splits)
qed

lemma body_hoare:
  "hoare (\<lambda>w. collection_view env c w = (f, True))
     (iteration_body env node state ag inh loaded c i index iid rec)
     (\<lambda>_ w. collection_view env c w = (f(i := None), True))
     (\<lambda>_ w. collection_view env c w = (f, True))"
  unfolding iteration_body_def
proof (rule hoare_bind [OF keeps_view_hoare [OF agent_turn_keeps [OF load_history_keeps]]])
  let ?drop = "stepA (\<lambda>w. map_prod (map_sum
      (\<lambda>e. OtherError ''ScratchpadError'' (scratchpad_error_text e)) id) id
      (scratchpad_drop (ne_redis env) (ne_run_id env) c i w))"
  have "hoare (\<lambda>w. collection_view env c w = (f, True)) ?drop
      (\<lambda>_ w. collection_view env c w = (f(i := None), True))
      (\<lambda>_ w. collection_view env c w = (f, True))"
    using drop_view [of _ f i] by (intro hoare_step) (fastforce split: sum.splits prod.splits)
  then show "hoare (\<lambda>w. collection_view env c w = (f, True)) (bindA ?drop (\<lambda>_. returnA ()))
      (\<lambda>_ w. collection_view env c w = (f(i := None), True))
      (\<lambda>_ w. collection_view env c w = (f, True))"
    by (rule hoare_bind) (simp add: hoare_return)
qed

text \<open>What is left when an iteration fails: the records as they were, or without one.\<close>

definition only_removed :: "(string \<Rightarrow> pydict option) \<Rightarrow> 'w \<Rightarrow> bool" where
  "only_removed f w =
     (\<exists>g. collection_view env c w = (g, True) \<and> (\<forall>j. g j = f j \<or> g j = None))"

lemma view_only_removed:
  "collection_view env c w = (f, True) \<Longrightarrow> only_removed f w"
  "collection_view env c w = (f(i := None), True) \<Longrightarrow> only_removed f w"
  by (auto simp: only_removed_def)

lemma single_hoare:
  "hoare (\<lambda>w. collection_view env c w = (f, True))
     (execute_single_iteration env node state ag inh loaded c (index, i))
     (\<lambda>tag w. collection_view env c w = (if tag = ''processed'' then f(i := None) else f, True))
     (\<lambda>_ w. only_removed f w)"
  (is "hoare ?P _ ?Q ?E")
proof -
  let ?P' = "\<lambda>w. collection_view env c w = (f(i := None), True)"
  have err: "hoare ?P m (\<lambda>_. ?P) ?E" if "keeps (collection_view env c) m" for m :: "('w, 'a) act"
    by (rule hoare_weaken [OF keeps_view_hoare [OF that]]) (auto intro: view_only_removed)
  have err': "hoare ?P' m (\<lambda>_. ?P') ?E" if "keeps (collection_view env c) m" for m :: "('w, 'a) act"
    by (rule hoare_weaken [OF keeps_view_hoare [OF that]]) (auto intro: view_only_removed)
  have failed: "hoare ?P (iteration_failed env node p started e) (\<lambda>_. ?P') ?E" for p started e
    unfolding iteration_failed_def
    by (intro hoare_bind [OF err] hoare_raise keeps_intros services_keep)
      (auto intro: view_only_removed)
  have body: "hoare ?P (try_allA (iteration_body env node state ag inh loaded c i index iid rec)
      (iteration_failed env node p started)) (\<lambda>_. ?P') ?E" for iid rec p started
    by (rule hoare_try_all [OF body_hoare failed])
  have tail: "hoare ?P' (bindA (ne_monotonic env) (\<lambda>now. bindA (ne_emit env kind n (q now))
      (\<lambda>_. returnA ''processed''))) ?Q ?E" for kind n q
    by (intro hoare_bind [OF err'] hoare_return services_keep) auto
  show ?thesis
    unfolding execute_single_iteration_def Let_def prod.case
  proof (rule hoare_bind [where R = "\<lambda>_. ?P"], goal_cases)
    case 1
    show ?case by (rule hoare_read)
  next
    case (2 aborted)
    show ?case
    proof (rule hoare_if, goal_cases)
      case 1
      show ?case by (rule hoare_return) simp
    next
      case 2
      show ?case
      proof (rule hoare_bind [where R = "\<lambda>_. ?P"], goal_cases)
        case 1
        show ?case by (auto simp: hoare_def view_only_removed split: sum.splits)
      next
        case (2 found)
        show ?case
        proof (cases found)
          case None
          then show ?thesis by (simp add: hoare_return)
        next
          case (Some rec)
          show ?thesis unfolding Some option.case
            by (intro hoare_bind [OF err] hoare_bind [OF body tail] services_keep)
        qed
      qed
    qed
  qed
qed

definition after :: "(string \<Rightarrow> pydict option) \<Rightarrow> (nat \<times> string) list \<Rightarrow> string list \<Rightarrow>
    string \<Rightarrow> pydict option" where
  "after f items outcomes j =
     (if (j, ''processed'') \<in> set (zip (map snd items) outcomes) then None else f j)"

lemma after_snoc:
  "length items = length outcomes \<Longrightarrow>
   after f (items @ [(n, i)]) (outcomes @ [tag]) =
     (if tag = ''processed'' then (after f items outcomes)(i := None) else after f items outcomes)"
  by (auto simp: after_def fun_eq_iff)

lemma sequential_hoare:
  "hoare (\<lambda>w. collection_view env c w = (f, True))
     (run_sequential env node state ag inh loaded c ids)
     (\<lambda>outcomes w. collection_view env c w = (after f (enumerate_ids ids) outcomes, True))
     (\<lambda>_ w. only_removed f w)"
proof -
  let ?I = "\<lambda>items outcomes w. length items = length outcomes \<and>
    collection_view env c w = (after f items outcomes, True)"
  have "hoare (?I us ys) (execute_single_iteration env node state ag inh loaded c x)
      (\<lambda>y. ?I (us @ [x]) (ys @ [y])) (\<lambda>_ w. only_removed f w)" for us ys x
  proof (cases "length us = length ys")
    case True
    obtain n i where x: "x = (n, i)" by (cases x)
    have "only_removed f w" if r: "only_removed (after f us ys) w" for w
    proof -
      obtain g where g: "collection_view env c w = (g, True)"
        "\<forall>j. g j = after f us ys j \<or> g j = None"
        using r by (auto simp: only_removed_def)
      have "\<forall>j. g j = f j \<or> g j = None" using g(2) by (metis after_def)
      with g(1) show ?thesis by (auto simp: only_removed_def)
    qed
    then show ?thesis
      unfolding x
      by (intro hoare_weaken [OF single_hoare [of "after f us ys"]])
        (auto simp: True after_snoc split: if_splits)
  next
    case False
    then show ?thesis by (simp add: hoare_def)
  qed
  from hoare_for [of ?I, OF this, of "[]" "[]"] show ?thesis
    unfolding run_sequential_def
    by (rule hoare_weaken) (auto simp: after_def)
qed

end


section \<open>A concrete instance\<close>

definition sample_node_env ::
  "(jtext keyspace, unit, unit, unit) node_env" where
  "sample_node_env =
     \<lparr>ne_rt = sample_rt, ne_redis = keyspace_ops, ne_run_id = ''r1'',
      ne_emit = (\<lambda>_ _ _. returnA ()), ne_parse_uuid = Inr,
      ne_get_agent = (\<lambda>_. returnA None), ne_run_agent = (\<lambda>_. returnA PNone),
      ne_messages = (\<lambda>_. returnA []), ne_has_llm = True, ne_flow = None,
      ne_preview_limit = 480, ne_tools = [], ne_call_tool = (\<lambda>_ _ _. returnA PNone),
      ne_sources = [], ne_load_source = (\<lambda>_ _ _. returnA PNone), ne_checkers = [],
      ne_has_connectors = False, ne_operation = (\<lambda>_. None), ne_connector = (\<lambda>_. None),
      ne_execute_operation = (\<lambda>_ _. returnA PNone), ne_uuid = returnA ''it1'',
      ne_monotonic = returnA 0, ne_rollback = returnA (), ne_concurrency_max = 8,
      ne_gather = (\<lambda>_ tasks. bindA (forA (\<lambda>t. t) tasks)
        (\<lambda>tags. returnA (map Inr tags, [0..<length tags])))\<rparr>"

interpretation sample_iteration: iteration_services sample_node_env c for c
  by (intro iteration_services.intro json_redisI iteration_services_axioms.intro)
    (simp_all add: sample_node_env_def keeps_intros keyspace.redis_store_axioms)

definition sample_agent :: agent where
  "sample_agent = \<lparr>ag_id = ''a1'', ag_name = ''scorer'', ag_role = [], ag_instructions = [],
     ag_output_schema = [], ag_required_sources = []\<rparr>"

definition sample_node :: flow_node where
  "sample_node = \<lparr>fn_id = ''n1'', fn_type = ''ai_agent'', fn_name = [], fn_config = []\<rparr>"

lemma sample_sequential:
  "map_option fst (run_sequential sample_node_env sample_node [] sample_agent [] [] ''jobs''
     [''a''] sample_stashed) = Some (Inr [''processed''])"
  by code_simp


definition sample_iteration_cfg :: pydict where
  "sample_iteration_cfg = [(''source_config'', PDict [(''collection'', PStr ''jobs'')])]"

lemma sample_gather_sound: "gather_sound sample_node_env"
proof -
  have tags: "length tags = length tasks \<and>
      (\<forall>i < length tasks. \<exists>w1 w2. (tasks ! i) w1 = Some (Inr (tags ! i), w2))"
    if "forA (\<lambda>t. t) tasks w = Some (Inr tags, w')"
    for tasks :: "(jtext keyspace, string) act list" and tags w w'
    using that
  proof (induction tasks arbitrary: tags w)
    case Nil
    then show ?case by (simp add: returnA_def)
  next
    case (Cons t ts)
    then obtain tag w1 rest where t: "t w = Some (Inr tag, w1)" "tags = tag # rest"
      "forA (\<lambda>t. t) ts w1 = Some (Inr rest, w')"
      by (auto simp: bindA_Some returnA_def)
    from Cons.IH [OF t(3)] t(1,2) show ?case by (auto simp: nth_Cons split: nat.splits)
  qed
  show ?thesis
    unfolding gather_sound_def
    by (auto simp: sample_node_env_def bindA_Some returnA_def dest!: tags)
qed

lemma sample_iterate:
  "map_option fst (iterate_with_scratchpad sample_node_env sample_node [] sample_iteration_cfg
     sample_agent [] [] 1 sample_stashed)
   = Some (Inr (scratchpad_summary [''processed''] 1 ''jobs'' ''sequential'' [''a'', ''b'']))"
  by code_simp

theorem scratchpad_summary_accounts_witness:
  "dget (scratchpad_summary [''processed''] 1 ''jobs'' ''sequential'' [''a'', ''b'']) ''exit_reason''
     = PStr ''max_iterations''"
proof -
  obtain w' where "iterate_with_scratchpad sample_node_env sample_node [] sample_iteration_cfg
      sample_agent [] [] 1 sample_stashed
      = Some (Inr (scratchpad_summary [''processed''] 1 ''jobs'' ''sequential'' [''a'', ''b'']), w')"
    using sample_iterate by auto
  from scratchpad_summary_accounts [OF sample_gather_sound this] show ?thesis
    by (auto simp: scratchpad_summary_def dget_def)
qed

end
