(* ===== verification/NodeExecutor.thy ===== *)
theory NodeExecutor
  imports ScratchpadLoop
begin

text \<open>
  \<open>NodeExecutor\<close> of luna_core/engine/nodes.py: the handlers of the node types, the dispatch
  on the type, and \<open>execute\<close> with its lifecycle events and its treatment of exceptions.
\<close>

section \<open>Agent nodes that iterate\<close>

definition run_ai_agent_iterative ::
  "('w, 'h, 'l, 'd) node_env \<Rightarrow> flow_node \<Rightarrow> pydict \<Rightarrow> pydict \<Rightarrow> ('w, pydict) act" where
  "run_ai_agent_iterative env node state cfg =
     bindA (fetch_agent env node) (\<lambda>ag.
     bindA (checked_inheritance env node) (\<lambda>inherit_from.
     bindA (load_agent_context env ag node state) (\<lambda>loaded.
     let max_iterations = nat (resolve_max_iterations (dget cfg ''max_iterations''))
     in bindA
          (if resolve_iteration_source (dget cfg ''source'') = ''scratchpad''
           then iterate_with_scratchpad env node state cfg ag inherit_from loaded max_iterations
           else iterate_with_agent_yield env node state cfg ag inherit_from loaded max_iterations)
          (\<lambda>payload. returnA (with_loaded (fn_id node) (PDict payload) loaded)))))"

definition run_ai_agent ::
  "('w, 'h, 'l, 'd) node_env \<Rightarrow> flow_node \<Rightarrow> pydict \<Rightarrow> ('w, pydict) act" where
  "run_ai_agent env node state =
     (case dget (fn_config node) ''iteration'' of
        PDict cfg \<Rightarrow>
          if truthy (dget cfg ''enabled'') then run_ai_agent_iterative env node state cfg
          else run_ai_agent_once env node state
      | _ \<Rightarrow> run_ai_agent_once env node state)"

section \<open>Action nodes\<close>

definition action_error :: "flow_node \<Rightarrow> string \<Rightarrow> exn" where
  "action_error node m = NodeExecutionError (''action node '' @ fn_id node @ m)"

definition tool_payload :: "string \<Rightarrow> pydict" where
  "tool_payload tool_name = [(''system_tool_name'', PStr tool_name), (''name'', PStr tool_name)]"

definition run_action_system_tool ::
  "('w, 'h, 'l, 'd) node_env \<Rightarrow> flow_node \<Rightarrow> pydict \<Rightarrow> string \<Rightarrow> pydict \<Rightarrow> ('w, pydict) act" where
  "run_action_system_tool env node state tool_name input_data =
     (case get_tool (ne_tools env) tool_name of
        None \<Rightarrow> raiseA (action_error node ('': system tool '' @ str_repr tool_name
          @ '' not registered. Hosts register catalog tools at startup; ''
          @ ''ensure install_*_system_tools() has run before triggering the flow.''))
      | Some tool \<Rightarrow>
          if st_scope tool \<noteq> Catalog then
            raiseA (action_error node ('': system tool '' @ str_repr tool_name @ '' has scope=''
              @ str_repr (scope_text (st_scope tool))
              @ ''; only catalog-scope tools may be invoked from a flow node.''))
          else
            bindA (ne_emit env ''tool_called'' (Some (fn_id node))
              (tool_payload tool_name @ [(''input'', PDict input_data),
               (''system_tool'', PDict [(''name'', PStr (st_name tool)),
                  (''description'', PStr (st_description tool)),
                  (''scope'', PStr (scope_text (st_scope tool)))])])) (\<lambda>_.
            bindA (liftR (trigger_user_id_from_state (ne_rt env) state)) (\<lambda>user.
            bindA (ne_call_tool env (st_handler tool) input_data
              (dupdate [(''flow_run_id'', PStr (ne_run_id env)), (''node_id'', PStr (fn_id node))]
                 (case with_call_context_extras None None user None of
                    None \<Rightarrow> [] | Some extras \<Rightarrow> extras))) (\<lambda>result.
            bindA (ne_emit env ''tool_result'' (Some (fn_id node))
              (tool_payload tool_name @ [(''is_error'', PBool False),
               (''output_preview'', PStr (result_preview (ne_rt env) result
                  (ne_preview_limit env)))])) (\<lambda>_.
              returnA [(fn_id node, result)])))))"

text \<open>When either lookup raises \<open>KeyError\<close>, neither the operation nor its connector is known.\<close>

definition operation_metadata ::
  "('w, 'h, 'l, 'd) node_env \<Rightarrow> string \<Rightarrow> ((string \<times> pydict) \<times> pydict) option" where
  "operation_metadata env operation_id =
     (case (ne_operation env operation_id, ne_connector env operation_id) of
        (Some p, Some c) \<Rightarrow> Some (p, c)
      | _ \<Rightarrow> None)"

definition run_action_operation ::
  "('w, 'h, 'l, 'd) node_env \<Rightarrow> flow_node \<Rightarrow> pyval \<Rightarrow> pydict \<Rightarrow> ('w, pydict) act" where
  "run_action_operation env node raw_id input_data =
     (if \<not> ne_has_connectors env then
        raiseA (NodeExecutionError (''action node requires a ConnectorRegistry; host app must ''
          @ ''inject one when constructing NodeExecutor''))
      else
        bindA (liftR (ne_parse_uuid env (py_str (ne_rt env) raw_id))) (\<lambda>operation_id.
        let known = operation_metadata env operation_id;
            name = (case known of None \<Rightarrow> [] | Some ((n, _), _) \<Rightarrow> [(''name'', PStr n)])
        in bindA (ne_emit env ''tool_called'' (Some (fn_id node))
             ([(''operation_id'', PStr operation_id), (''input'', PDict input_data)]
              @ name
              @ (case known of None \<Rightarrow> []
                 | Some ((_, d), c) \<Rightarrow> [(''operation'', PDict d), (''connector'', PDict c)]))) (\<lambda>_.
           bindA (ne_execute_operation env operation_id input_data) (\<lambda>result.
           bindA (ne_emit env ''tool_result'' (Some (fn_id node))
             ([(''operation_id'', PStr operation_id), (''is_error'', PBool False),
               (''output_preview'', PStr (result_preview (ne_rt env) result
                  (ne_preview_limit env)))] @ name)) (\<lambda>_.
             returnA [(fn_id node, result)])))))"

definition run_action ::
  "('w, 'h, 'l, 'd) node_env \<Rightarrow> flow_node \<Rightarrow> pydict \<Rightarrow> ('w, pydict) act" where
  "run_action env node state =
     (let operation_id = dget (fn_config node) ''operation_id'';
          system_tool = dget (fn_config node) ''system_tool_name''
      in if truthy operation_id \<and> truthy system_tool then
           raiseA (action_error node ('' declares both operation_id and ''
             @ ''system_tool_name; pick exactly one''))
         else if \<not> truthy operation_id \<and> \<not> truthy system_tool then
           raiseA (action_error node ('' missing config.operation_id or ''
             @ ''config.system_tool_name''))
         else bindA (liftO (resolve_inputs (ne_rt env)
                (dget_or (fn_config node) ''input'' (PDict [])) state)) (\<lambda>input_data.
              if truthy system_tool then
                run_action_system_tool env node state (py_str (ne_rt env) system_tool) input_data
              else run_action_operation env node operation_id input_data))"

section \<open>The other node types\<close>

definition run_human_checkpoint ::
  "('w, 'h, 'l, 'd) node_env \<Rightarrow> flow_node \<Rightarrow> ('w, pydict) act" where
  "run_human_checkpoint env node =
     (let message = dget_or (fn_config node) ''message'' (PStr [])
      in bindA (ne_emit env ''human_checkpoint'' (Some (fn_id node))
           [(''message'', message), (''name'', PStr (fn_name node))]) (\<lambda>_.
           raiseA (HumanCheckpointInterrupt (fn_id node) (py_str (ne_rt env) message))))"

text \<open>A key of \<open>select\<close> that is no text cannot be a key of the outputs of a node.\<close>

definition run_output :: "flow_node \<Rightarrow> pydict \<Rightarrow> pydict" where
  "run_output node state =
     (case dget (fn_config node) ''select'' of
        PList ks \<Rightarrow> dupdate [] (map (\<lambda>k. (k, dget (branch_of state ''outputs'') k)) (str_items ks))
      | _ \<Rightarrow> [])"

definition dispatch ::
  "('w, 'h, 'l, 'd) node_env \<Rightarrow> flow_node \<Rightarrow> pydict \<Rightarrow> ('w, pydict) act" where
  "dispatch env node state =
     (if fn_type node = ''action'' then run_action env node state
      else if fn_type node = ''ai_agent'' then run_ai_agent env node state
      else if fn_type node = ''condition'' then returnA []
      else if fn_type node = ''human_checkpoint'' then run_human_checkpoint env node
      else if fn_type node = ''trigger'' then returnA []
      else if fn_type node = ''output'' then returnA (run_output node state)
      else raiseA (NodeExecutionError (''unknown node type: '' @ fn_type node)))"

section \<open>execute\<close>

definition on_node_error ::
  "('w, 'h, 'l, 'd) node_env \<Rightarrow> flow_node \<Rightarrow> exn \<Rightarrow> ('w, pydict) act" where
  "on_node_error env node e =
     (case e of
        HumanCheckpointInterrupt n m \<Rightarrow> raiseA e
      | _ \<Rightarrow> bindA (ne_emit env ''node_failed'' (Some (fn_id node))
               [(''error'', PStr (exn_text e)), (''type'', PStr (exn_name e))]) (\<lambda>_.
             raiseA (NodeExecutionError (''node '' @ fn_id node @ '' failed: '' @ exn_text e))))"

definition execute_node ::
  "('w, 'h, 'l, 'd) node_env \<Rightarrow> flow_node \<Rightarrow> pydict \<Rightarrow> ('w, pydict) act" where
  "execute_node env node state =
     bindA (ne_emit env ''node_started'' (Some (fn_id node))
       [(''type'', PStr (fn_type node)), (''name'', PStr (fn_name node))]) (\<lambda>_.
     bindA (tryA (dispatch env node state) (on_node_error env node)) (\<lambda>out.
     bindA (ne_emit env ''node_completed'' (Some (fn_id node))
       [(''output_keys'', PList (map PStr (sort_strs (map fst out))))]) (\<lambda>_.
       returnA [(''outputs'', PDict (dupdate (branch_of state ''outputs'') out)),
                (''current_node'', PStr (fn_id node))])))"

section \<open>What leaves a node\<close>

definition emitter_total :: "('w, 'h, 'l, 'd) node_env \<Rightarrow> bool" where
  "emitter_total env = (\<forall>kind n p w. \<exists>w'. ne_emit env kind n p w = Some (Inr (), w'))"

lemma emit_no_raise: "emitter_total env \<Longrightarrow> ne_emit env kind n p w \<noteq> Some (Inl e, w')"
  unfolding emitter_total_def by (metis option.inject prod.inject sum.distinct(1))


text \<open>
  A node that completes contributes to two channels of the state only: its
  output, and the context its agent loaded with it, is merged key by key into \<open>outputs\<close>,
  and \<open>current_node\<close> is the node.
\<close>

theorem execute_node_update:
  assumes "execute_node env node state w = Some (Inr update, w')"
  shows "\<exists>out w1 w2. dispatch env node state w1 = Some (Inr out, w2) \<and>
    update = [(''outputs'', PDict (dupdate (branch_of state ''outputs'') out)),
              (''current_node'', PStr (fn_id node))]"
proof -
  from assms obtain out w1 w2 where
    t: "tryA (dispatch env node state) (on_node_error env node) w1 = Some (Inr out, w2)"
    and u: "update = [(''outputs'', PDict (dupdate (branch_of state ''outputs'') out)),
              (''current_node'', PStr (fn_id node))]"
    by (auto simp: execute_node_def bindA_Some returnA_def)
  have "on_node_error env node e w \<noteq> Some (Inr x, v)" for e w x v
    by (cases e) (auto simp: on_node_error_def raiseA_def bindA_Some)
  with t have "dispatch env node state w1 = Some (Inr out, w2)"
    by (auto simp: tryA_def split: option.splits sum.splits prod.splits if_splits)
  with u show ?thesis by blast
qed

text \<open>
  A checkpoint node never completes: whenever it is executed, with or without
  a human response in the state, it interrupts the run again or fails to announce it.
\<close>

theorem human_checkpoint_never_completes:
  assumes "fn_type node = ''human_checkpoint''"
  shows "execute_node env node state w \<noteq> Some (Inr update, w')"
proof
  assume "execute_node env node state w = Some (Inr update, w')"
  then obtain out w1 w2 where
    "tryA (dispatch env node state) (on_node_error env node) w1 = Some (Inr out, w2)"
    by (auto simp: execute_node_def bindA_Some)
  moreover have "on_node_error env node e w \<noteq> Some (Inr x, v)" for e w x v
    by (cases e) (auto simp: on_node_error_def raiseA_def bindA_Some)
  moreover have "dispatch env node state w1 \<noteq> Some (Inr x, v)" for w1 x v
    using assms by (auto simp: dispatch_def run_human_checkpoint_def Let_def bindA_Some raiseA_def)
  ultimately show False
    by (auto simp: tryA_def split: option.splits sum.splits prod.splits if_splits)
qed

section \<open>Samples\<close>

lemma sample_emitter_total: "emitter_total sample_node_env"
  by (simp add: emitter_total_def sample_node_env_def returnA_def)

lemma sample_failing_node:
  "map_option fst (execute_node sample_node_env sample_node [] empty_keyspace) =
     Some (Inl (NodeExecutionError (''node n1 failed: ai_agent node n1 missing config.agent_id'')))"
  by code_simp


definition sample_condition_node :: flow_node where
  "sample_condition_node = sample_node\<lparr>fn_type := ''condition''\<rparr>"

lemma sample_condition_result:
  "execute_node sample_node_env sample_condition_node [] empty_keyspace =
     Some (Inr [(''outputs'', PDict []), (''current_node'', PStr ''n1'')], empty_keyspace)"
  by code_simp

theorem execute_node_update_witness:
  "\<exists>out. [(''outputs'', PDict []), (''current_node'', PStr ''n1'')] =
     [(''outputs'', PDict (dupdate (branch_of [] ''outputs'') out)),
      (''current_node'', PStr (fn_id sample_condition_node))]"
  using execute_node_update [OF sample_condition_result] by blast

theorem human_checkpoint_never_completes_witness:
  "\<nexists>update w'. execute_node sample_node_env (sample_node\<lparr>fn_type := ''human_checkpoint''\<rparr>)
     [(''human_response'', PStr ''yes'')] empty_keyspace = Some (Inr update, w')"
  by (simp add: human_checkpoint_never_completes)

end
