(* ===== verification/ToolApproval.thy ===== *)
theory ToolApproval
  imports Actions
begin

text \<open>
  Approvals of gated tool calls (luna_core/services/tool_approval.py, models/tool_approval.py).
  The table is the list of its rows in the order of their creation.  A function of the service
  is one transaction: it gives its result and the table it leaves.  What the database adds, the
  uniqueness of \<open>(conversation_id, tool_use_id)\<close> and the conditional \<open>UPDATE\<close> that touches only
  pending rows, is written out; row ids and the time of a decision are arguments.
\<close>

record tool_approval =
  ta_id :: string
  ta_conversation :: string
  ta_tool_use_id :: string
  ta_tool_name :: string
  ta_agent_name :: "string option"
  ta_tool_input :: pyval
  ta_status :: string
  ta_reason :: "string option"
  ta_resolved_at :: "string option"
  ta_resolved_by :: "string option"

type_synonym approval_table = "tool_approval list"

datatype approval_error =
    ToolApprovalNotFound string
  | ToolApprovalNotPending string

definition pending_status :: string where "pending_status = ''pending''"
definition approved_status :: string where "approved_status = ''approved''"
definition rejected_status :: string where "rejected_status = ''rejected''"

lemmas status_defs = pending_status_def approved_status_def rejected_status_def

definition pending :: "tool_approval \<Rightarrow> bool" where
  "pending row \<longleftrightarrow> ta_status row = pending_status"

section \<open>Creating and reading rows\<close>

definition new_approval ::
  "pyrt \<Rightarrow> string \<Rightarrow> string option \<Rightarrow> string \<Rightarrow> pydict \<Rightarrow> tool_approval" where
  "new_approval rt conversation agent_name row_id tool_use =
     \<lparr>ta_id = row_id, ta_conversation = conversation,
      ta_tool_use_id = py_str rt (dget_or tool_use ''id'' (PStr [])),
      ta_tool_name = py_str rt (dget_or tool_use ''name'' (PStr [])),
      ta_agent_name = agent_name,
      ta_tool_input = py_or (dget tool_use ''input'') (PDict []),
      ta_status = pending_status, ta_reason = None, ta_resolved_at = None,
      ta_resolved_by = None\<rparr>"

definition use_key :: "tool_approval \<Rightarrow> string \<times> string" where
  "use_key row = (ta_conversation row, ta_tool_use_id row)"

text \<open>The primary key and the unique constraint of the table.\<close>

definition approvals_wf :: "approval_table \<Rightarrow> bool" where
  "approvals_wf table \<longleftrightarrow> distinct (map ta_id table) \<and> distinct (map use_key table)"

definition create_pending_approvals ::
  "pyrt \<Rightarrow> (nat \<Rightarrow> string) \<Rightarrow> string \<Rightarrow> pydict list \<Rightarrow> string option \<Rightarrow> approval_table
   \<Rightarrow> exn + (tool_approval list \<times> approval_table)" where
  "create_pending_approvals rt new_id conversation tool_uses agent_name table =
     (let rows = map (\<lambda>(i, tool_use). new_approval rt conversation agent_name (new_id i) tool_use)
                   (enumerate 0 tool_uses)
      in if approvals_wf (table @ rows) then Inr (rows, table @ rows)
         else Inl (OtherError ''IntegrityError'' ''uq_tool_approvals_tool_use''))"

definition list_approvals ::
  "approval_table \<Rightarrow> string \<Rightarrow> string option \<Rightarrow> tool_approval list" where
  "list_approvals table conversation status =
     filter (\<lambda>row. ta_conversation row = conversation \<and>
       (case status of None \<Rightarrow> True | Some s \<Rightarrow> ta_status row = s)) table"

definition count_pending :: "approval_table \<Rightarrow> string \<Rightarrow> nat" where
  "count_pending table conversation =
     length (filter (\<lambda>row. ta_conversation row = conversation \<and> pending row) table)"

definition get_approval :: "approval_table \<Rightarrow> string \<Rightarrow> approval_error + tool_approval" where
  "get_approval table approval_id =
     (case List.find (\<lambda>row. ta_id row = approval_id) table of
        None \<Rightarrow> Inl (ToolApprovalNotFound approval_id)
      | Some row \<Rightarrow> Inr row)"

definition decisions_by_tool_use :: "approval_table \<Rightarrow> string \<Rightarrow> (string \<times> tool_approval) list" where
  "decisions_by_tool_use table conversation =
     dupdate [] (map (\<lambda>row. (ta_tool_use_id row, row))
       (filter (\<lambda>row. \<not> pending row) (list_approvals table conversation None)))"

section \<open>Deciding\<close>

definition resolve_row ::
  "string \<Rightarrow> string option \<Rightarrow> string option \<Rightarrow> pyval option \<Rightarrow> string \<Rightarrow> tool_approval
   \<Rightarrow> tool_approval" where
  "resolve_row decision reason resolved_by tool_input now row =
     row\<lparr>ta_status := decision, ta_reason := reason, ta_resolved_at := Some now,
         ta_resolved_by := resolved_by,
         ta_tool_input := (case tool_input of None \<Rightarrow> ta_tool_input row | Some v \<Rightarrow> v)\<rparr>"

text \<open>\<open>UPDATE ... WHERE P SET f RETURNING id\<close>.\<close>

definition update_where ::
  "(tool_approval \<Rightarrow> bool) \<Rightarrow> (tool_approval \<Rightarrow> tool_approval) \<Rightarrow> approval_table \<Rightarrow> approval_table" where
  "update_where P f table = map (\<lambda>row. if P row then f row else row) table"

definition decide ::
  "string \<Rightarrow> string \<Rightarrow> string option \<Rightarrow> string option \<Rightarrow> pyval option \<Rightarrow> string \<Rightarrow> approval_table
   \<Rightarrow> (approval_error + tool_approval) \<times> approval_table" where
  "decide approval_id decision reason resolved_by tool_input now table =
     (let P = (\<lambda>row. ta_id row = approval_id \<and> pending row);
          table' = update_where P (resolve_row decision reason resolved_by tool_input now) table
      in if filter P table = [] then
           (case get_approval table approval_id of
              Inl e \<Rightarrow> (Inl e, table)
            | Inr _ \<Rightarrow> (Inl (ToolApprovalNotPending approval_id), table))
         else (get_approval table' approval_id, table'))"

definition should_cascade_rejection :: "string \<Rightarrow> string option \<Rightarrow> bool" where
  "should_cascade_rejection decision reason \<longleftrightarrow>
     decision = rejected_status \<and>
     str_strip (case reason of None \<Rightarrow> [] | Some r \<Rightarrow> r) \<noteq> []"

definition reject_pending_with_reason ::
  "string \<Rightarrow> string \<Rightarrow> string option \<Rightarrow> string \<Rightarrow> approval_table
   \<Rightarrow> tool_approval list \<times> approval_table" where
  "reject_pending_with_reason conversation reason resolved_by now table =
     (let P = (\<lambda>row. ta_conversation row = conversation \<and> pending row);
          ids = map ta_id (filter P table);
          table' = update_where P
            (resolve_row rejected_status (Some reason) resolved_by None now) table
      in (if ids = [] then [] else filter (\<lambda>row. ta_id row \<in> set ids) table', table'))"

section \<open>The life of an approval\<close>

text \<open>Any transaction of any request, in any order.\<close>

inductive approval_step :: "approval_table \<Rightarrow> approval_table \<Rightarrow> bool" where
  create: "create_pending_approvals rt new_id conversation tool_uses agent_name t = Inr (rows, t')
    \<Longrightarrow> approval_step t t'"
| decision: "decide approval_id d reason by inp now t = (res, t') \<Longrightarrow> approval_step t t'"
| cascade: "reject_pending_with_reason conversation reason by now t = (rows, t') \<Longrightarrow>
    approval_step t t'"

inductive_cases approval_stepE: "approval_step t t'"

inductive approval_reach :: "approval_table \<Rightarrow> approval_table \<Rightarrow> bool" where
  start: "approval_reach t t"
| step: "approval_reach t t' \<Longrightarrow> approval_step t' t'' \<Longrightarrow> approval_reach t t''"

lemma resolve_row_keys [simp]:
  "ta_id (resolve_row d r b i n row) = ta_id row"
  "use_key (resolve_row d r b i n row) = use_key row"
  "ta_status (resolve_row d r b i n row) = d"
  by (simp_all add: resolve_row_def use_key_def)

lemma update_where_wf:
  assumes "\<And>row. ta_id (f row) = ta_id row" and "\<And>row. use_key (f row) = use_key row"
  shows "approvals_wf (update_where P f t) = approvals_wf t"
proof -
  have "map ta_id (update_where P f t) = map ta_id t"
    and "map use_key (update_where P f t) = map use_key t"
    using assms by (simp_all add: update_where_def)
  then show ?thesis by (simp add: approvals_wf_def)
qed

lemma decide_table:
  "snd (decide i d r b inp now t) \<in>
     {t, update_where (\<lambda>row. ta_id row = i \<and> pending row) (resolve_row d r b inp now) t}"
  by (simp add: decide_def Let_def split: sum.splits)

lemma step_wf: "approval_step t t' \<Longrightarrow> approvals_wf t \<Longrightarrow> approvals_wf t'"
proof (induction rule: approval_step.induct)
  case (create rt new_id conversation tool_uses agent_name t rows t')
  then show ?case by (auto simp: create_pending_approvals_def Let_def split: if_splits)
next
  case (decision i d r b inp now t res t')
  then show ?case
    using decide_table [of i d r b inp now t] by (auto simp: update_where_wf)
next
  case (cascade conversation reason b now t rows t')
  then show ?case by (auto simp: reject_pending_with_reason_def Let_def update_where_wf)
qed

lemma update_where_keeps: "row \<in> set t \<Longrightarrow> \<not> P row \<Longrightarrow> row \<in> set (update_where P f t)"
  by (force simp: update_where_def)

lemma step_final: "approval_step t t' \<Longrightarrow> row \<in> set t \<Longrightarrow> \<not> pending row \<Longrightarrow> row \<in> set t'"
proof (induction rule: approval_step.induct)
  case (create rt new_id conversation tool_uses agent_name t rows t')
  then show ?case by (auto simp: create_pending_approvals_def Let_def split: if_splits)
next
  case (decision i d r b inp now t res t')
  then show ?case
    using decide_table [of i d r b inp now t] by (auto intro: update_where_keeps)
next
  case (cascade conversation reason b now t rows t')
  then show ?case by (auto simp: reject_pending_with_reason_def Let_def intro: update_where_keeps)
qed

lemma reach_wf: "approval_reach t t' \<Longrightarrow> approvals_wf t \<Longrightarrow> approvals_wf t'"
  by (induction rule: approval_reach.induct) (auto intro: step_wf)

lemma reach_final:
  "approval_reach t t' \<Longrightarrow> row \<in> set t \<Longrightarrow> \<not> pending row \<Longrightarrow> row \<in> set t'"
  by (induction rule: approval_reach.induct) (auto intro: step_final)

lemma get_approval_iff:
  "approvals_wf t \<Longrightarrow> get_approval t i = Inr row \<longleftrightarrow> row \<in> set t \<and> ta_id row = i"
proof (induction t)
  case Nil
  then show ?case by (simp add: get_approval_def)
next
  case (Cons r t)
  then have "approvals_wf t" and "ta_id r \<notin> ta_id ` set t" by (auto simp: approvals_wf_def)
  with Cons.IH show ?case by (auto simp: get_approval_def)
qed

lemma decide_resolved:
  assumes "approvals_wf t" and "row \<in> set t" and "\<not> pending row"
  shows "decide (ta_id row) d r b inp now t = (Inl (ToolApprovalNotPending (ta_id row)), t)"
proof -
  have g: "get_approval t (ta_id row) = Inr row"
    using assms by (simp add: get_approval_iff)
  have "x = row" if "x \<in> set t" "ta_id x = ta_id row" for x
    using that g assms(1) get_approval_iff [of t "ta_id row" x] by simp
  with assms have "filter (\<lambda>x. ta_id x = ta_id row \<and> pending x) t = []"
    by (auto simp: filter_empty_conv)
  with g show ?thesis by (simp add: decide_def)
qed

lemma decide_won:
  assumes "approvals_wf t" and "decide i d r b inp now t = (Inr row, t')"
  shows "row \<in> set t' \<and> ta_id row = i \<and> ta_status row = d \<and> approvals_wf t'"
proof -
  let ?P = "\<lambda>row. ta_id row = i \<and> pending row"
  let ?f = "resolve_row d r b inp now"
  from assms(2) have t': "t' = update_where ?P ?f t" and "filter ?P t \<noteq> []"
    and g: "get_approval t' i = Inr row"
    by (auto simp: decide_def Let_def split: if_splits sum.splits)
  then obtain x where x: "x \<in> set t" "?P x" by (auto simp: filter_empty_conv)
  have wf: "approvals_wf t'" using assms(1) t' by (simp add: update_where_wf)
  have "?f x \<in> set t'" using x by (force simp: t' update_where_def)
  then have "get_approval t' i = Inr (?f x)" using x wf by (simp add: get_approval_iff)
  with g have "row = ?f x" by simp
  with \<open>?f x \<in> set t'\<close> x wf show ?thesis by simp
qed


text \<open>What resume reads: the resolved rows of the conversation, by the id of the tool use.\<close>

lemma decisions_lookup:
  assumes "approvals_wf t"
  shows "map_of (decisions_by_tool_use t c) u = Some row \<longleftrightarrow>
    row \<in> set t \<and> use_key row = (c, u) \<and> \<not> pending row"
proof -
  let ?rows = "filter (\<lambda>row. ta_conversation row = c \<and> \<not> pending row) t"
  have "filter (\<lambda>row. \<not> pending row) (list_approvals t c None) = ?rows"
    by (simp add: list_approvals_def)
  moreover have "distinct (map ta_tool_use_id ?rows)"
    using assms by (auto simp: approvals_wf_def distinct_map inj_on_def use_key_def)
  ultimately have "map_of (decisions_by_tool_use t c) u
      = map_of (map (\<lambda>row. (ta_tool_use_id row, row)) ?rows) u"
    by (simp add: decisions_by_tool_use_def dupdate_conv comp_def)
  also have "\<dots> = Some row \<longleftrightarrow> (u, row) \<in> set (map (\<lambda>row. (ta_tool_use_id row, row)) ?rows)"
    using \<open>distinct (map ta_tool_use_id ?rows)\<close> by (intro map_of_eq_Some_iff) (simp add: comp_def)
  finally show ?thesis by (auto simp: use_key_def)
qed

section \<open>Samples\<close>

definition sample_approval :: tool_approval where
  "sample_approval = \<lparr>ta_id = ''a1'', ta_conversation = ''c1'', ta_tool_use_id = ''u1'',
     ta_tool_name = ''send_mail'', ta_agent_name = None, ta_tool_input = PDict [],
     ta_status = pending_status, ta_reason = None, ta_resolved_at = None, ta_resolved_by = None\<rparr>"

lemma sample_decide:
  "decide ''a1'' approved_status None None None ''t1'' [sample_approval] =
     (Inr (sample_approval\<lparr>ta_status := approved_status, ta_resolved_at := Some ''t1''\<rparr>),
      [sample_approval\<lparr>ta_status := approved_status, ta_resolved_at := Some ''t1''\<rparr>])"
  by code_simp


end
