(* ===== verification/AgentLoop.thy ===== *)
theory AgentLoop
  imports NodeAgents ToolApproval
begin

text \<open>
  \<open>AgentRunner\<close> (luna_core/engine/agent.py): the tools an agent is offered, the tool-calling
  loop, the suspension of a turn whose calls need approval, and the resumption once they are
  decided.

  Content blocks are the dictionaries a provider gives; the provider call, the MCP client, the
  handlers of system tools, the emitter and the grants of an agent are fields of \<open>agent_env\<close>.
  The name of a tool call and its id are kept as the values they are.
\<close>

section \<open>The environment of a run\<close>

record llm_tool =
  lt_name :: string
  lt_description :: string
  lt_input_schema :: pydict
  lt_deferred :: bool

record mcp_tool =
  mt_name :: string
  mt_description :: string
  mt_input_schema :: pydict

record mcp_result =
  mr_is_error :: bool
  mr_error_message :: pyval
  mr_output :: pyval

record tool_grant =
  tg_tool_name :: string
  tg_requires_approval :: bool
  tg_deferred :: bool

text \<open>
  The words-only completion beside an approval is the one that runs on the live stream and
  passes no output schema, built-in tools, image resolver or context policy.
\<close>

record llm_call =
  lc_agent :: agent
  lc_messages :: "pydict list"
  lc_system :: string
  lc_tools :: "llm_tool list"
  lc_output_schema :: "pydict option"
  lc_scope :: string
  lc_node_id :: string
  lc_timezone :: pyval
  lc_words_only :: bool

record ('w, 'h) agent_env =
  ae_rt :: pyrt
  ae_tools :: "'h tool_registry"
  ae_call_tool :: "'h \<Rightarrow> pyval \<Rightarrow> pydict \<Rightarrow> ('w, pyval) act"
  ae_list_mcp :: "('w, mcp_tool list) act"
  ae_call_mcp :: "pyval \<Rightarrow> pyval \<Rightarrow> ('w, mcp_result) act"
  ae_operations :: "string \<Rightarrow> ('w, (string \<times> bool) list) act"
  ae_grants :: "string \<Rightarrow> ('w, tool_grant list) act"
  ae_complete :: "llm_call \<Rightarrow> ('w, pydict list) act"
  ae_emit :: "string \<Rightarrow> string \<Rightarrow> pydict \<Rightarrow> ('w, unit) act"
  ae_save :: "string \<Rightarrow> string \<Rightarrow> pydict list \<Rightarrow> ('w, unit) act"
  ae_add_words :: "(string \<Rightarrow> ('w, unit) act) option"
  ae_create_approvals ::
    "string \<Rightarrow> pydict list \<Rightarrow> string option \<Rightarrow> ('w, tool_approval list) act"
  ae_decisions :: "string \<Rightarrow> ('w, (string \<times> tool_approval) list) act"
  ae_json_parse :: "string \<Rightarrow> string + pyval"
  ae_schema_error :: "pydict \<Rightarrow> pyval \<Rightarrow> string option"
  ae_runtime_error :: "string \<Rightarrow> bool"

definition MAX_TOOL_ITERATIONS :: nat where "MAX_TOOL_ITERATIONS = 16"

definition agent_error :: "string \<Rightarrow> exn" where
  "agent_error m = OtherError ''AgentRunnerError'' m"

section \<open>Content blocks\<close>

definition is_tool_use :: "pydict \<Rightarrow> bool" where
  "is_tool_use b \<longleftrightarrow> dget b ''type'' = PStr ''tool_use''"

definition tool_uses_of :: "pydict list \<Rightarrow> pydict list" where
  "tool_uses_of blocks = filter is_tool_use blocks"

definition call_name :: "pydict \<Rightarrow> pyval" where "call_name tu = dget_or tu ''name'' (PStr [])"
definition call_id :: "pydict \<Rightarrow> pyval" where "call_id tu = dget_or tu ''id'' (PStr [])"

definition block_words :: "pydict \<Rightarrow> string" where
  "block_words b = (case dget b ''text'' of PStr s \<Rightarrow> str_strip s | _ \<Rightarrow> [])"

definition has_text :: "pydict \<Rightarrow> bool" where
  "has_text b \<longleftrightarrow> dget b ''type'' = PStr ''text'' \<and> block_words b \<noteq> []"

definition has_words :: "pydict list \<Rightarrow> bool" where
  "has_words blocks = list_ex has_text blocks"

definition message :: "string \<Rightarrow> pydict list \<Rightarrow> pydict" where
  "message role content = [(''role'', PStr role), (''content'', PList (map PDict content))]"

definition result_block :: "pyval \<Rightarrow> string \<Rightarrow> bool \<Rightarrow> pydict" where
  "result_block tid content is_error =
     [(''type'', PStr ''tool_result''), (''tool_use_id'', tid), (''content'', PStr content)]
     @ (if is_error then [(''is_error'', PBool True)] else [])"

section \<open>The tools of an agent\<close>

definition allowed_tool_names :: "(string \<times> bool) list \<Rightarrow> tool_grant list \<Rightarrow> string list option" where
  "allowed_tool_names operations grants =
     (let names = map fst operations @ map tg_tool_name grants
      in if names = [] then None else Some names)"

definition approval_required_names :: "(string \<times> bool) list \<Rightarrow> tool_grant list \<Rightarrow> string list" where
  "approval_required_names operations grants =
     map fst (filter snd operations) @ map tg_tool_name (filter tg_requires_approval grants)"

definition deferred_tool_names :: "tool_grant list \<Rightarrow> string list" where
  "deferred_tool_names grants = map tg_tool_name (filter tg_deferred grants)"

definition to_llm_tool :: "mcp_tool \<Rightarrow> llm_tool" where
  "to_llm_tool t = \<lparr>lt_name = mt_name t, lt_description = mt_description t,
     lt_input_schema = mt_input_schema t, lt_deferred = False\<rparr>"

definition system_to_llm_tool :: "bool \<Rightarrow> 'h system_tool \<Rightarrow> llm_tool" where
  "system_to_llm_tool deferred t = \<lparr>lt_name = st_name t, lt_description = st_description t,
     lt_input_schema = st_input_schema t, lt_deferred = deferred\<rparr>"

definition is_allowed :: "string list option \<Rightarrow> string \<Rightarrow> bool" where
  "is_allowed allowed name = (case allowed of None \<Rightarrow> True | Some names \<Rightarrow> name \<in> set names)"

definition resolve_tools ::
  "('w, 'h) agent_env \<Rightarrow> string \<Rightarrow> string list
   \<Rightarrow> ('w, llm_tool list \<times> (string \<times> 'h system_tool) list) act" where
  "resolve_tools env agent_id context_names =
     bindA (ae_operations env agent_id) (\<lambda>operations.
     bindA (ae_grants env agent_id) (\<lambda>grants.
     bindA (ae_list_mcp env) (\<lambda>mcp.
     bindA (ae_grants env agent_id) (\<lambda>grants'.
     let allowed = allowed_tool_names operations grants;
         catalog = filter (\<lambda>t. is_allowed allowed (st_name t)) (list_catalog (ae_tools env));
         context = get_many_tools (ae_tools env) context_names;
         deferred = deferred_tool_names grants'
     in returnA
       (map (system_to_llm_tool False) context
        @ map (\<lambda>t. system_to_llm_tool (st_name t \<in> set deferred) t) catalog
        @ map to_llm_tool (filter (\<lambda>t. is_allowed allowed (mt_name t)) mcp),
        dupdate [] (map (\<lambda>t. (st_name t, t)) (context @ catalog)))))))"

definition approval_names_for ::
  "('w, 'h) agent_env \<Rightarrow> string \<Rightarrow> bool \<Rightarrow> ('w, string list) act" where
  "approval_names_for env agent_id enabled =
     (if \<not> enabled then returnA []
      else bindA (ae_operations env agent_id) (\<lambda>operations.
           bindA (ae_grants env agent_id) (\<lambda>grants.
             returnA (approval_required_names operations grants))))"

section \<open>One tool call\<close>

fun runtime_error :: "('w, 'h) agent_env \<Rightarrow> exn \<Rightarrow> bool" where
  "runtime_error env (NodeExecutionError _) = True"
| "runtime_error env (AbortSignalError _ _) = True"
| "runtime_error env (HumanCheckpointInterrupt _ _) = False"
| "runtime_error env Cancelled = False"
| "runtime_error env (OtherError name _) = ae_runtime_error env name"

definition tool_outcome :: "pyrt \<Rightarrow> pyval \<Rightarrow> string \<times> bool" where
  "tool_outcome rt result =
     (case result of
        PDict d \<Rightarrow> if dhas d ''error'' \<and> length d = 1 then (py_str rt (dget d ''error''), True)
                   else (json_dumps rt True result, False)
      | PStr s \<Rightarrow> (s, False)
      | _ \<Rightarrow> (json_dumps rt True result, False))"

definition content_text :: "pyrt \<Rightarrow> pyval \<Rightarrow> string" where
  "content_text rt v = (case v of PStr s \<Rightarrow> s | _ \<Rightarrow> json_dumps rt True v)"

definition invoke_system_tool ::
  "('w, 'h) agent_env \<Rightarrow> 'h system_tool \<Rightarrow> pyval \<Rightarrow> pydict \<Rightarrow> ('w, string \<times> bool) act" where
  "invoke_system_tool env tool args call_context =
     tryA (bindA (ae_call_tool env (st_handler tool) args call_context)
             (\<lambda>result. returnA (tool_outcome (ae_rt env) result)))
       (\<lambda>e. if runtime_error env e then raiseA e
            else returnA (exn_name e @ '': '' @ exn_text e, True))"

text \<open>The dash (U+2014) is written as the character 0x97, its place in code page 1252.\<close>

definition EDITED_NOTE :: string where
  "EDITED_NOTE =
     ''The user changed this call before approving it: it ran with `ran_with`, not with what ''
     @ ''you proposed. That is their decision '' @ em_dash @ '' say what was recorded with their ''
     @ ''change and go on from it; never undo it, propose yours again or call it an error.''"

definition note_edited :: "('w, 'h) agent_env \<Rightarrow> string \<Rightarrow> pyval \<Rightarrow> string" where
  "note_edited env content tool_input =
     (case ae_json_parse env content of
        Inr (PDict d) \<Rightarrow> json_dumps (ae_rt env) True (PDict (dset d ''edited_by_user''
          (PDict [(''ran_with'', tool_input), (''note'', PStr EDITED_NOTE)])))
      | _ \<Rightarrow> EDITED_NOTE @ [CHR 0x0A] @ ''ran_with: '' @ json_dumps (ae_rt env) True tool_input
             @ [CHR 0x0A] @ content)"

definition preview :: "string \<Rightarrow> string" where
  "preview text = (if length text \<le> 240 then text else take 240 text @ ellipsis)"

definition was_rejected :: "tool_approval option \<Rightarrow> bool" where
  "was_rejected d = (case d of None \<Rightarrow> False | Some row \<Rightarrow> ta_status row = rejected_status)"

definition was_edited :: "tool_approval option \<Rightarrow> pyval \<Rightarrow> bool" where
  "was_edited d tool_input =
     (case d of None \<Rightarrow> False
      | Some row \<Rightarrow> ta_status row = approved_status \<and> truthy (ta_tool_input row)
          \<and> \<not> py_eq (ta_tool_input row) tool_input)"

definition corrected_input :: "tool_approval option \<Rightarrow> pyval \<Rightarrow> exn + pyval" where
  "corrected_input d tool_input =
     (if was_edited d tool_input then
        (case map_option ta_tool_input d of
           Some (PDict v) \<Rightarrow> Inr (PDict v)
         | _ \<Rightarrow> Inl (OtherError ''TypeError'' ''cannot convert to a dictionary''))
      else Inr tool_input)"

definition rejection_text :: "tool_approval option \<Rightarrow> string" where
  "rejection_text d =
     ''The user rejected this tool call and it was not run.''
     @ (case Option.bind d ta_reason of None \<Rightarrow> []
        | Some r \<Rightarrow> if r = [] then [] else '' Reason: '' @ r)"

definition emit_result ::
  "('w, 'h) agent_env \<Rightarrow> string \<Rightarrow> pydict \<Rightarrow> string \<Rightarrow> bool \<Rightarrow> ('w, unit) act" where
  "emit_result env node_id tu content is_error =
     ae_emit env ''tool_result'' node_id
       [(''tool_use_id'', call_id tu), (''name'', call_name tu), (''is_error'', PBool is_error),
        (''output_preview'', PStr (preview content))]"

definition decision_for :: "(string \<times> tool_approval) list \<Rightarrow> pydict \<Rightarrow> tool_approval option" where
  "decision_for decisions tu =
     (case call_id tu of PStr i \<Rightarrow> map_of decisions i | _ \<Rightarrow> None)"

definition find_system_tool ::
  "(string \<times> 'h system_tool) list \<Rightarrow> pydict \<Rightarrow> 'h system_tool option" where
  "find_system_tool system_by_name tu =
     (case call_name tu of PStr n \<Rightarrow> map_of system_by_name n | _ \<Rightarrow> None)"

text \<open>What ran: the result's text and whether it is an error, and the input of a terminal tool.\<close>

definition perform_call ::
  "('w, 'h) agent_env \<Rightarrow> (string \<times> 'h system_tool) list \<Rightarrow> pydict \<Rightarrow> pydict \<Rightarrow> pyval
   \<Rightarrow> ('w, (string \<times> bool) \<times> pyval option) act" where
  "perform_call env system_by_name call_context tu tool_input =
     (case find_system_tool system_by_name tu of
        Some tool \<Rightarrow>
          bindA (invoke_system_tool env tool tool_input call_context) (\<lambda>(content, is_error).
            returnA ((content, is_error),
              if st_terminal tool \<and> \<not> is_error then Some tool_input else None))
      | None \<Rightarrow>
          bindA (ae_call_mcp env (call_name tu) tool_input) (\<lambda>result.
            returnA ((content_text (ae_rt env)
                        (if mr_is_error result then mr_error_message result
                         else mr_output result),
                      mr_is_error result), None)))"

definition execute_tool_use ::
  "('w, 'h) agent_env \<Rightarrow> (string \<times> tool_approval) list \<Rightarrow> (string \<times> 'h system_tool) list
   \<Rightarrow> pydict \<Rightarrow> string \<Rightarrow> pydict \<Rightarrow> ('w, pydict \<times> pyval option) act" where
  "execute_tool_use env decisions system_by_name call_context node_id tu =
     (let decision = decision_for decisions tu;
          proposed = py_or (dget_or tu ''input'' (PDict [])) (PDict [])
      in if was_rejected decision then
           bindA (emit_result env node_id tu (rejection_text decision) True) (\<lambda>_.
             returnA (result_block (call_id tu) (rejection_text decision) True, None))
         else
           bindA (liftR (corrected_input decision proposed)) (\<lambda>tool_input.
           bindA (ae_emit env ''tool_called'' node_id
             [(''tool_use_id'', call_id tu), (''name'', call_name tu), (''input'', tool_input)])
             (\<lambda>_.
           bindA (perform_call env system_by_name call_context tu tool_input)
             (\<lambda>((raw, is_error), terminal).
           let content = (if was_edited decision proposed then note_edited env raw tool_input
                          else raw)
           in bindA (emit_result env node_id tu content is_error) (\<lambda>_.
                returnA (result_block (call_id tu) content is_error, terminal))))))"

text \<open>The value of the last terminal tool that ran, if any.\<close>

definition last_terminal :: "pyval option list \<Rightarrow> pyval option" where
  "last_terminal ts = (case filter (\<lambda>t. t \<noteq> None) ts of [] \<Rightarrow> None | us \<Rightarrow> last us)"

definition execute_tool_uses ::
  "('w, 'h) agent_env \<Rightarrow> (string \<times> tool_approval) list \<Rightarrow> (string \<times> 'h system_tool) list
   \<Rightarrow> pydict \<Rightarrow> string \<Rightarrow> pydict list \<Rightarrow> ('w, pydict list \<times> pyval option) act" where
  "execute_tool_uses env decisions system_by_name call_context node_id tus =
     bindA (forA (execute_tool_use env decisions system_by_name call_context node_id) tus) (\<lambda>rs.
       returnA (map fst rs, last_terminal (map snd rs)))"

section \<open>The loop\<close>

datatype run_result = Output pyval | SuspendedForApproval "tool_approval list"

record 'h run_context =
  rc_agent :: agent
  rc_scope :: string
  rc_node_id :: string
  rc_system :: string
  rc_tools :: "llm_tool list"
  rc_system_by_name :: "(string \<times> 'h system_tool) list"
  rc_approval_names :: "string list"
  rc_call_context :: pydict

definition output_text :: "pydict list \<Rightarrow> string" where
  "output_text blocks =
     str_strip (concat (map (\<lambda>b. case dget_or b ''text'' (PStr []) of PStr s \<Rightarrow> s | _ \<Rightarrow> [])
       (filter (\<lambda>b. dget b ''type'' = PStr ''text'') blocks)))"

definition schema_failure :: "string \<Rightarrow> exn" where
  "schema_failure m = OtherError ''OutputSchemaValidationError'' m"

definition finalize_output :: "('w, 'h) agent_env \<Rightarrow> pydict list \<Rightarrow> pydict \<Rightarrow> exn + pyval" where
  "finalize_output env blocks output_schema =
     (let text = output_text blocks
      in if output_schema = [] then Inr (PStr text)
         else case (if text = [] then Inr (PDict []) else ae_json_parse env text) of
                Inl m \<Rightarrow> Inl (schema_failure (''agent output was not valid JSON: '' @ m))
              | Inr parsed \<Rightarrow>
                  (case ae_schema_error env output_schema parsed of
                     Some m \<Rightarrow> Inl (schema_failure (''agent output failed schema validation: '' @ m))
                   | None \<Rightarrow> Inr parsed))"

definition WORDS_BESIDE_APPROVAL :: string where
  "WORDS_BESIDE_APPROVAL =
     ''Your calls above await the user's approval and have not run. Write now, in the ''
     @ ''user's language, the message they read beside them: what you found, the options ''
     @ ''you weighed and the one you recommend. Describe only the calls above, as proposals ''
     @ ''awaiting approval; what you mean to do next, say as what follows once they are ''
     @ ''approved '' @ em_dash @ '' never as done. Text only '' @ em_dash @ '' no tool calls.''"

definition not_run_block :: "pydict \<Rightarrow> pydict" where
  "not_run_block tu = result_block (call_id tu) ''Not run yet: awaiting the user's approval.'' False"

definition words_ask :: "pydict list \<Rightarrow> pydict list \<Rightarrow> pydict list" where
  "words_ask messages tus =
     messages @ [message ''user'' (map not_run_block tus
       @ [[(''type'', PStr ''text''), (''text'', PStr WORDS_BESIDE_APPROVAL)]])]"

definition words_of :: "pydict list \<Rightarrow> string" where
  "words_of blocks = join_with blank_line (map block_words (filter has_text blocks))"

definition complete_call ::
  "'h run_context \<Rightarrow> pydict list \<Rightarrow> bool \<Rightarrow> llm_call" where
  "complete_call rc messages words_only =
     \<lparr>lc_agent = rc_agent rc, lc_messages = messages, lc_system = rc_system rc,
      lc_tools = rc_tools rc,
      lc_output_schema =
        (if words_only \<or> rc_tools rc \<noteq> [] \<or> ag_output_schema (rc_agent rc) = [] then None
         else Some (ag_output_schema (rc_agent rc))),
      lc_scope = rc_scope rc, lc_node_id = rc_node_id rc,
      lc_timezone = dget (rc_call_context rc) ''timezone'', lc_words_only = words_only\<rparr>"

definition words_beside_approval ::
  "('w, 'h) agent_env \<Rightarrow> 'h run_context \<Rightarrow> pydict list \<Rightarrow> pydict list \<Rightarrow> ('w, unit) act" where
  "words_beside_approval env rc messages tus =
     (case ae_add_words env of
        None \<Rightarrow> returnA ()
      | Some add \<Rightarrow>
          bindA (tryA (ae_complete env (complete_call rc (words_ask messages tus) True))
                   (\<lambda>_. returnA []))
            (\<lambda>blocks. if words_of blocks = [] then returnA () else add (words_of blocks)))"

definition gated :: "string list \<Rightarrow> pydict \<Rightarrow> bool" where
  "gated names tu \<longleftrightarrow> call_name tu \<in> PStr ` set names"

definition suspend_turn ::
  "('w, 'h) agent_env \<Rightarrow> 'h run_context \<Rightarrow> pydict list \<Rightarrow> pydict list \<Rightarrow> pydict list
   \<Rightarrow> ('w, run_result) act" where
  "suspend_turn env rc messages blocks tus =
     bindA (if has_words blocks then returnA () else words_beside_approval env rc messages tus)
       (\<lambda>_.
     bindA (ae_create_approvals env (rc_scope rc)
              (filter (gated (rc_approval_names rc)) tus) (Some (ag_name (rc_agent rc))))
       (\<lambda>created.
     bindA (forA (\<lambda>ap. ae_emit env ''tool_approval_required'' (rc_node_id rc)
              [(''approval_id'', PStr (ta_id ap)), (''tool_use_id'', PStr (ta_tool_use_id ap)),
               (''name'', PStr (ta_tool_name ap)), (''input'', ta_tool_input ap)]) created) (\<lambda>_.
       returnA (SuspendedForApproval created))))"

fun tool_loop ::
  "('w, 'h) agent_env \<Rightarrow> 'h run_context \<Rightarrow> nat \<Rightarrow> pydict list \<Rightarrow> ('w, run_result) act" where
  "tool_loop env rc 0 messages =
     raiseA (agent_error (''agent exceeded MAX_TOOL_ITERATIONS=''
       @ nat_str MAX_TOOL_ITERATIONS))"
| "tool_loop env rc (Suc n) messages =
     bindA (ae_complete env (complete_call rc messages False)) (\<lambda>blocks.
     let messages' = messages @ [message ''assistant'' blocks];
         tus = tool_uses_of blocks
     in if tus = [] then
          bindA (liftR (finalize_output env blocks (ag_output_schema (rc_agent rc))))
            (\<lambda>v. returnA (Output v))
        else if list_ex (gated (rc_approval_names rc)) tus then
          suspend_turn env rc messages' blocks tus
        else
          bindA (execute_tool_uses env [] (rc_system_by_name rc) (rc_call_context rc)
                   (rc_node_id rc) tus) (\<lambda>(results, terminal).
          bindA (ae_save env (rc_node_id rc) ''user'' results) (\<lambda>_.
            case terminal of
              Some (PDict d) \<Rightarrow> returnA (Output (PDict d))
            | Some _ \<Rightarrow> returnA (Output (PDict []))
            | None \<Rightarrow> tool_loop env rc n (messages' @ [message ''user'' results]))))"

definition base_call_context :: "agent \<Rightarrow> string \<Rightarrow> string \<Rightarrow> pydict option \<Rightarrow> pydict" where
  "base_call_context ag scope node_id extra =
     dupdate
       [(''scope_id'', PStr scope), (''flow_run_id'', PStr scope), (''node_id'', PStr node_id),
        (''redis'', PObj ''redis''), (''db'', PObj ''db''), (''llm_router'', PObj ''llm_router''),
        (''mcp_client'', PObj ''mcp_client''),
        (''system_tool_registry'', PObj ''system_tool_registry''),
        (''agent_name'', PStr (ag_name ag))]
       (case extra of None \<Rightarrow> [] | Some d \<Rightarrow> d)"

record run_request =
  rq_agent :: agent
  rq_scope :: string
  rq_node_id :: string
  rq_system_prompt :: "string option"
  rq_context_tools :: "string list"
  rq_extra_context :: "pydict option"

definition resolved_system :: "pyrt \<Rightarrow> run_request \<Rightarrow> string" where
  "resolved_system rt rq =
     (case rq_system_prompt rq of Some p \<Rightarrow> p
      | None \<Rightarrow> build_system_prompt rt (rq_agent rq) None None)"

definition user_content :: "string option \<Rightarrow> pydict list \<Rightarrow> pydict list" where
  "user_content new_message attachments =
     (case new_message of None \<Rightarrow> []
      | Some m \<Rightarrow> if m = [] then [] else [[(''type'', PStr ''text''), (''text'', PStr m)]])
     @ attachments"

definition run_agent ::
  "('w, 'h) agent_env \<Rightarrow> run_request \<Rightarrow> bool \<Rightarrow> pydict list \<Rightarrow> string option \<Rightarrow> pydict list
   \<Rightarrow> ('w, run_result) act" where
  "run_agent env rq approval_enabled history new_message attachments =
     bindA (resolve_tools env (ag_id (rq_agent rq)) (rq_context_tools rq)) (\<lambda>(tools, by_name).
     bindA (approval_names_for env (ag_id (rq_agent rq)) approval_enabled) (\<lambda>names.
     let content = user_content new_message attachments
     in bindA (if content = [] then returnA ()
               else ae_save env (rq_node_id rq) ''user'' content) (\<lambda>_.
        bindA (ae_emit env ''agent_thinking'' (rq_node_id rq)
          [(''agent_id'', PStr (ag_id (rq_agent rq))),
           (''tools_available'', PInt (int (length tools)))]) (\<lambda>_.
        tool_loop env
          \<lparr>rc_agent = rq_agent rq, rc_scope = rq_scope rq, rc_node_id = rq_node_id rq,
           rc_system = resolved_system (ae_rt env) rq,
           rc_tools = tools, rc_system_by_name = by_name, rc_approval_names = names,
           rc_call_context = base_call_context (rq_agent rq) (rq_scope rq) (rq_node_id rq)
             (rq_extra_context rq)\<rparr>
          MAX_TOOL_ITERATIONS
          (history @ (if content = [] then [] else [message ''user'' content]))))))"

section \<open>Resuming a suspended turn\<close>

definition should_reinvoke :: "pydict list \<Rightarrow> (string \<times> tool_approval) list \<Rightarrow> bool" where
  "should_reinvoke tus decisions =
     list_ex (\<lambda>tu. case decision_for decisions tu of
        None \<Rightarrow> True
      | Some row \<Rightarrow> ta_status row \<noteq> rejected_status
          \<or> (case ta_reason row of None \<Rightarrow> False | Some r \<Rightarrow> r \<noteq> [])) tus"

definition message_blocks :: "pydict \<Rightarrow> pydict list" where
  "message_blocks m =
     (case dget m ''content'' of
        PList bs \<Rightarrow> List.map_filter (\<lambda>b. case b of PDict d \<Rightarrow> Some d | _ \<Rightarrow> None) bs
      | _ \<Rightarrow> [])"

definition resume_with ::
  "('w, 'h) agent_env \<Rightarrow> run_request \<Rightarrow> pydict list \<Rightarrow> (string \<times> tool_approval) list
   \<Rightarrow> ('w, run_result) act" where
  "resume_with env rq history decisions =
     (let tus = tool_uses_of (message_blocks (last history))
      in bindA (resolve_tools env (ag_id (rq_agent rq)) (rq_context_tools rq)) (\<lambda>(_, by_name).
         bindA (forA (\<lambda>(_, ap). ae_emit env ''tool_approval_resolved'' (rq_node_id rq)
           [(''tool_use_id'', PStr (ta_tool_use_id ap)), (''name'', PStr (ta_tool_name ap)),
            (''status'', PStr (ta_status ap))]) decisions) (\<lambda>_.
         bindA (execute_tool_uses env decisions by_name
                  (base_call_context (rq_agent rq) (rq_scope rq) (rq_node_id rq)
                     (rq_extra_context rq)) (rq_node_id rq) tus) (\<lambda>(results, _).
         bindA (ae_save env (rq_node_id rq) ''user'' results) (\<lambda>_.
           if \<not> should_reinvoke tus decisions then returnA (Output (PStr []))
           else run_agent env rq True (history @ [message ''user'' results]) None [])))))"

definition resume_agent ::
  "('w, 'h) agent_env \<Rightarrow> run_request \<Rightarrow> pydict list \<Rightarrow> ('w, run_result) act" where
  "resume_agent env rq history =
     (if history = [] \<or> dget (last history) ''role'' \<noteq> PStr ''assistant'' then
        raiseA (agent_error ''resume: history must end with an assistant turn'')
      else if tool_uses_of (message_blocks (last history)) = [] then
        raiseA (agent_error ''resume: last assistant message has no tool_use'')
      else bindA (ae_decisions env (rq_scope rq)) (resume_with env rq history))"

end
