(* ===== verification/AgentLoopSpec.thy ===== *)
theory AgentLoopSpec
  imports AgentLoop
begin

text \<open>
  What the tool-calling loop guarantees: the provider is only given histories in which every
  tool call is answered, no gated call runs before it is approved, and a run returns after a
  bounded number of completions when the services it calls return.
\<close>

section \<open>Tool calls and their results\<close>

definition result_ids :: "pydict list \<Rightarrow> pyval list" where
  "result_ids blocks =
     map (\<lambda>b. dget b ''tool_use_id'') (filter (\<lambda>b. dget b ''type'' = PStr ''tool_result'') blocks)"

definition message_uses :: "pydict \<Rightarrow> pyval list" where
  "message_uses m =
     (if dget m ''role'' = PStr ''assistant'' then map call_id (tool_uses_of (message_blocks m))
      else [])"

definition message_results :: "pydict \<Rightarrow> pyval list" where
  "message_results m =
     (if dget m ''role'' = PStr ''user'' then result_ids (message_blocks m) else [])"

text \<open>
  Every assistant message with tool calls is followed by a user message with the results of
  exactly these calls, in their order.
\<close>

fun paired :: "pydict list \<Rightarrow> bool" where
  "paired [] = True"
| "paired [m] = (message_uses m = [])"
| "paired (m # n # ms) =
     ((message_uses m = [] \<or> message_results n = message_uses m) \<and> paired (n # ms))"

lemma message_blocks_message [simp]: "message_blocks (message role content) = content"
proof -
  have "List.map_filter (\<lambda>b. case b of PDict d \<Rightarrow> Some d | _ \<Rightarrow> None) (map PDict content) = content"
    by (induction content) (simp_all add: List.map_filter_simps)
  then show ?thesis by (simp add: message_blocks_def message_def dget_def)
qed

lemma message_role [simp]: "dget (message role content) ''role'' = PStr role"
  by (simp add: message_def dget_def)

lemma message_uses_message [simp]:
  "message_uses (message ''user'' content) = []"
  "message_uses (message ''assistant'' content) = map call_id (tool_uses_of content)"
  "message_results (message ''user'' content) = result_ids content"
  by (simp_all add: message_uses_def message_results_def)

lemma paired_append: "paired ms \<Longrightarrow> paired ns \<Longrightarrow> paired (ms @ ns)"
proof (induction ms rule: paired.induct)
  case (2 m)
  then show ?case by (cases ns) auto
qed auto

lemma paired_turn:
  assumes "paired ms" and "result_ids results = map call_id (tool_uses_of blocks)"
  shows "paired (ms @ [message ''assistant'' blocks, message ''user'' results])"
  by (rule paired_append [OF assms(1)]) (simp add: assms(2))

lemma dget_result_block [simp]:
  "dget (result_block i c e) ''type'' = PStr ''tool_result''"
  "dget (result_block i c e) ''tool_use_id'' = i"
  by (simp_all add: result_block_def dget_def)

lemma execute_tool_use_id:
  assumes "execute_tool_use env decisions by_name ctx node_id tu w = Some (Inr (b, t), w')"
  shows "dget b ''type'' = PStr ''tool_result'' \<and> dget b ''tool_use_id'' = call_id tu"
proof -
  from assms consider c e where "b = result_block (call_id tu) c e"
    by (auto simp: execute_tool_use_def Let_def bindA_Some returnA_def split: if_splits prod.splits)
  then show ?thesis by cases simp
qed

lemma forA_map:
  assumes "forA f xs w = Some (Inr ys, w')"
    and "\<And>x w y w'. f x w = Some (Inr y, w') \<Longrightarrow> g y = h x"
  shows "map g ys = map h xs"
  using assms(1)
proof (induction xs arbitrary: w ys)
  case Nil
  then show ?case by (simp add: returnA_def)
next
  case (Cons x xs)
  then show ?case by (auto simp: bindA_Some returnA_def dest: assms(2))
qed

lemma execute_tool_uses_ids:
  assumes "execute_tool_uses env decisions by_name ctx node_id tus w = Some (Inr (results, t), w')"
  shows "result_ids results = map call_id tus"
proof -
  let ?f = "execute_tool_use env decisions by_name ctx node_id"
  obtain rs where f: "forA ?f tus w = Some (Inr rs, w')" and r: "results = map fst rs"
    using assms by (auto simp: execute_tool_uses_def bindA_Some returnA_def)
  have "map (\<lambda>r. dget (fst r) ''type'') rs = map (\<lambda>_. PStr ''tool_result'') tus"
    by (rule forA_map [OF f]) (auto dest: execute_tool_use_id)
  from arg_cong [OF this, of set]
  have "\<forall>b \<in> set results. dget b ''type'' = PStr ''tool_result''" by (auto simp: r)
  then have "filter (\<lambda>b. dget b ''type'' = PStr ''tool_result'') results = results" by simp
  moreover have "map (\<lambda>r. dget (fst r) ''tool_use_id'') rs = map call_id tus"
    by (rule forA_map [OF f]) (auto dest: execute_tool_use_id)
  ultimately show ?thesis by (simp add: result_ids_def r comp_def)
qed

lemma not_run_ids: "result_ids (map not_run_block tus @ [[(''type'', PStr ''text''), x]]) = map call_id tus"
  by (simp add: result_ids_def not_run_block_def comp_def dget_def [of "[_, _]"])

section \<open>The provider sees paired histories\<close>

lemma bindA_cong_on:
  "(\<And>x w'. m w = Some (Inr x, w') \<Longrightarrow> f x w' = g x w') \<Longrightarrow> bindA m f w = bindA m g w"
  by (auto simp: bindA_def split: option.splits sum.splits)

lemma runtime_error_complete [simp]:
  "runtime_error (env\<lparr>ae_complete := f\<rparr>) e = runtime_error env e"
  by (cases e) simp_all

lemma execute_complete [simp]:
  "emit_result (env\<lparr>ae_complete := f\<rparr>) = emit_result env"
  "note_edited (env\<lparr>ae_complete := f\<rparr>) = note_edited env"
  "invoke_system_tool (env\<lparr>ae_complete := f\<rparr>) = invoke_system_tool env"
  by (intro ext, auto simp: emit_result_def note_edited_def invoke_system_tool_def
      split: sum.splits pyval.splits)+

lemma perform_call_complete [simp]:
  "perform_call (env\<lparr>ae_complete := f\<rparr>) = perform_call env"
  by (intro ext) (simp add: perform_call_def cong: option.case_cong)

lemma execute_use_complete [simp]:
  "execute_tool_use (env\<lparr>ae_complete := f\<rparr>) = execute_tool_use env"
  by (intro ext) (simp add: execute_tool_use_def Let_def cong: if_cong)

lemma execute_uses_complete [simp]:
  "execute_tool_uses (env\<lparr>ae_complete := f\<rparr>) = execute_tool_uses env"
  by (intro ext) (simp add: execute_tool_uses_def)

lemma resolve_complete [simp]:
  "resolve_tools (env\<lparr>ae_complete := f\<rparr>) = resolve_tools env"
  "approval_names_for (env\<lparr>ae_complete := f\<rparr>) = approval_names_for env"
  "finalize_output (env\<lparr>ae_complete := f\<rparr>) = finalize_output env"
  by (intro ext, auto simp: resolve_tools_def approval_names_for_def finalize_output_def Let_def
      split: sum.splits option.splits)+

lemma select_complete:
  "ae_emit (env\<lparr>ae_complete := f\<rparr>) = ae_emit env"
  "ae_save (env\<lparr>ae_complete := f\<rparr>) = ae_save env"
  "ae_rt (env\<lparr>ae_complete := f\<rparr>) = ae_rt env"
  by simp_all

lemma lc_messages_call [simp]: "lc_messages (complete_call rc ms b) = ms"
  by (simp add: complete_call_def)

lemma tool_loop_paired:
  assumes f: "\<And>c. paired (lc_messages c) \<Longrightarrow> f c = ae_complete env c"
  shows "paired ms \<Longrightarrow> tool_loop (env\<lparr>ae_complete := f\<rparr>) rc n ms w = tool_loop env rc n ms w"
proof (induction n arbitrary: ms w)
  case 0
  then show ?case by simp
next
  case (Suc n)
  have words: "words_beside_approval (env\<lparr>ae_complete := f\<rparr>) rc (ms @ [message ''assistant'' bs])
      (tool_uses_of bs) = words_beside_approval env rc (ms @ [message ''assistant'' bs])
      (tool_uses_of bs)" for bs
  proof -
    have "paired (words_ask (ms @ [message ''assistant'' bs]) (tool_uses_of bs))"
      using paired_turn [OF Suc.prems not_run_ids] by (simp add: words_ask_def)
    then show ?thesis
      by (intro ext) (simp add: words_beside_approval_def f split: option.splits)
  qed
  have loop: "tool_loop (env\<lparr>ae_complete := f\<rparr>) rc n
      (ms @ [message ''assistant'' bs, message ''user'' results]) v
    = tool_loop env rc n (ms @ [message ''assistant'' bs, message ''user'' results]) v"
    if "result_ids results = map call_id (tool_uses_of bs)" for bs results v
    by (rule Suc.IH) (rule paired_turn [OF Suc.prems that])
  have head: "ae_complete (env\<lparr>ae_complete := f\<rparr>) (complete_call rc ms False)
      = ae_complete env (complete_call rc ms False)"
    using Suc.prems by (simp add: f)
  show ?case
    unfolding tool_loop.simps Let_def head
    by (intro bindA_cong_on)
       (auto simp: f Suc.prems suspend_turn_def words loop dest: execute_tool_uses_ids
         intro!: bindA_cong_on split: option.splits pyval.splits)
qed

lemma run_agent_paired:
  assumes f: "\<And>c. paired (lc_messages c) \<Longrightarrow> f c = ae_complete env c" and "paired history"
  shows "run_agent (env\<lparr>ae_complete := f\<rparr>) rq enabled history m attachments
    = run_agent env rq enabled history m attachments"
proof -
  have p: "paired (history @ (if c = [] then [] else [message ''user'' c]))" for c
    using paired_append [OF assms(2), of "[message ''user'' c]"] assms(2) by simp
  have "tool_loop (env\<lparr>ae_complete := f\<rparr>) rc n
      (history @ (if c = [] then [] else [message ''user'' c]))
    = tool_loop env rc n (history @ (if c = [] then [] else [message ''user'' c]))" for rc n c
    by (intro ext tool_loop_paired) (simp_all only: f p)
  then show ?thesis
    unfolding run_agent_def Let_def by (simp only: resolve_complete select_complete)
qed

lemma resume_agent_paired:
  assumes f: "\<And>c. paired (lc_messages c) \<Longrightarrow> f c = ae_complete env c"
    and "paired (butlast history)"
  shows "resume_agent (env\<lparr>ae_complete := f\<rparr>) rq history = resume_agent env rq history"
proof (cases "history = [] \<or> dget (last history) ''role'' \<noteq> PStr ''assistant''")
  case True
  then show ?thesis by (simp only: resume_agent_def if_True)
next
  case False
  then have h: "history = butlast history @ [last history]"
    and u: "message_uses (last history) = map call_id (tool_uses_of (message_blocks (last history)))"
    by (simp_all add: message_uses_def)
  have p: "paired (history @ [message ''user'' results])"
    if "result_ids results = map call_id (tool_uses_of (message_blocks (last history)))" for results
  proof -
    have "paired (butlast history @ [last history, message ''user'' results])"
      by (rule paired_append [OF assms(2)]) (simp add: that u)
    then show ?thesis using h by (metis append.assoc append_Cons append_Nil)
  qed
  show ?thesis
    unfolding resume_agent_def resume_with_def Let_def
    using False
    by (intro ext)
       (auto intro!: bindA_cong_on dest!: execute_tool_uses_ids p
         simp: run_agent_paired [OF f])
qed

text \<open>
  C2 (invariant). The provider is only ever asked to continue a paired history: every tool call
  of an assistant message is answered, in order, by the next message.  A provider that behaves
  differently on other histories makes no difference to a run, nor to the resumption of a
  suspended turn, also when calls were rejected, failed or await approval.
\<close>

theorem provider_sees_paired_histories:
  assumes "\<And>c. paired (lc_messages c) \<Longrightarrow> f c = ae_complete env c" and "paired history"
  shows "run_agent (env\<lparr>ae_complete := f\<rparr>) rq enabled history m attachments
      = run_agent env rq enabled history m attachments \<and>
    resume_agent (env\<lparr>ae_complete := f\<rparr>) rq (history @ [turn])
      = resume_agent env rq (history @ [turn])"
  using run_agent_paired [OF assms] resume_agent_paired [of f env "history @ [turn]"] assms by simp

section \<open>No gated call runs before it is approved\<close>

text \<open>
  \<open>view\<close> is whatever the calls of the gated tools touch.  No other service touches it.
\<close>

locale gated_calls =
  fixes env :: "('w, 'h) agent_env" and view :: "'w \<Rightarrow> 'v" and agent_id :: string
    and names :: "string list"
  assumes call_tool: "(n, t) \<in> set (ae_tools env) \<Longrightarrow> st_name t \<notin> set names \<Longrightarrow>
      keeps view (ae_call_tool env (st_handler t) args ctx)"
    and call_mcp: "v \<notin> PStr ` set names \<Longrightarrow> keeps view (ae_call_mcp env v args)"
    and other_services: "keeps view (ae_list_mcp env)" "keeps view (ae_operations env a)"
      "keeps view (ae_grants env a)" "keeps view (ae_complete env c)"
      "keeps view (ae_emit env k n p)" "keeps view (ae_save env n r bs)"
      "keeps view (ae_create_approvals env s tus an)" "keeps view (ae_decisions env s)"
    and add_words: "ae_add_words env = Some add \<Longrightarrow> keeps view (add text)"
    and names_gated: "ae_operations env agent_id w = Some (Inr operations, w1) \<Longrightarrow>
      ae_grants env agent_id w2 = Some (Inr grants, w3) \<Longrightarrow>
      set names \<subseteq> set (approval_required_names operations grants)"
begin

lemmas service_keeps = other_services keeps_intros

definition by_name_ok :: "(string \<times> 'h system_tool) list \<Rightarrow> bool" where
  "by_name_ok by_name \<longleftrightarrow>
     (\<forall>n t. map_of by_name n = Some t \<longrightarrow> st_name t = n \<and> t \<in> snd ` set (ae_tools env))"

lemma map_of_dupdate_named:
  "map_of (dupdate d (map (\<lambda>t. (st_name t, t)) ts)) n = Some t \<Longrightarrow>
   map_of d n = Some t \<or> t \<in> set ts \<and> st_name t = n"
proof (induction ts arbitrary: d)
  case Nil
  then show ?case by simp
next
  case (Cons a ts)
  with Cons.IH [of "dset d (st_name a) a"] show ?case by (auto split: if_splits)
qed

lemma get_many_subset: "set (get_many_tools tools ns) \<subseteq> snd ` set tools"
  by (induction ns)
     (auto simp: get_many_tools_def get_tool_def List.map_filter_simps image_iff
       split: option.splits dest!: map_of_SomeD intro!: bexI)

lemma resolved_by_name:
  assumes "resolve_tools env a context_names w = Some (Inr (tools, by_name), w')"
  shows "by_name_ok by_name"
proof -
  from assms have "\<exists>allowed. by_name = dupdate [] (map (\<lambda>t. (st_name t, t))
      (get_many_tools (ae_tools env) context_names
        @ filter (\<lambda>t. is_allowed allowed (st_name t)) (list_catalog (ae_tools env))))"
    by (clarsimp simp: resolve_tools_def Let_def bindA_Some returnA_def) (rule exI, rule refl)
  then obtain allowed where
    b: "by_name = dupdate [] (map (\<lambda>t. (st_name t, t)) (get_many_tools (ae_tools env) context_names
        @ filter (\<lambda>t. is_allowed allowed (st_name t)) (list_catalog (ae_tools env))))"
      (is "_ = dupdate [] (map _ ?ts)") ..
  have ts: "set ?ts \<subseteq> snd ` set (ae_tools env)"
    using get_many_subset [of "ae_tools env" context_names] by (auto simp: list_catalog_def)
  show ?thesis unfolding by_name_ok_def
  proof (intro allI impI)
    fix n t
    assume "map_of by_name n = Some t"
    then have "t \<in> set ?ts \<and> st_name t = n"
      unfolding b by (rule map_of_dupdate_named [of "[]", simplified])
    with ts show "st_name t = n \<and> t \<in> snd ` set (ae_tools env)" by blast
  qed
qed

lemma keeps_call:
  assumes "by_name_ok by_name" and "\<not> gated names tu"
  shows "keeps view (perform_call env by_name ctx tu i)"
proof (cases "find_system_tool by_name tu")
  case None
  then show ?thesis
    using assms(2) call_mcp by (auto simp: perform_call_def gated_def intro!: service_keeps)
next
  case (Some t)
  then obtain n where n: "call_name tu = PStr n" "map_of by_name n = Some t"
    by (auto simp: find_system_tool_def split: pyval.splits)
  with assms obtain k where "(k, t) \<in> set (ae_tools env)" "st_name t \<notin> set names"
    unfolding by_name_ok_def gated_def by (metis image_eqI image_iff prod.collapse)
  then have "keeps view (ae_call_tool env (st_handler t) i ctx)" by (rule call_tool)
  then show ?thesis
    by (auto simp: perform_call_def Some invoke_system_tool_def split: prod.splits
        intro!: service_keeps)
qed

lemma keeps_execute_use:
  assumes "by_name_ok by_name" and "gated names tu \<Longrightarrow> was_rejected (decision_for decisions tu)"
  shows "keeps view (execute_tool_use env decisions by_name ctx node_id tu)"
  using assms keeps_call
  by (auto simp: execute_tool_use_def Let_def emit_result_def split: prod.splits
      intro!: service_keeps)

lemma keeps_for_on:
  "(\<And>x. x \<in> set xs \<Longrightarrow> keeps view (f x)) \<Longrightarrow> keeps view (forA f xs)"
  by (induction xs) (auto intro!: keeps_intros)

lemma keeps_execute_uses:
  assumes "by_name_ok by_name"
    and "\<And>tu. tu \<in> set tus \<Longrightarrow> gated names tu \<Longrightarrow> was_rejected (decision_for decisions tu)"
  shows "keeps view (execute_tool_uses env decisions by_name ctx node_id tus)"
  using keeps_execute_use [OF assms(1)] assms(2)
  by (simp add: execute_tool_uses_def keeps_for_on keeps_bind keeps_return)

lemma keeps_words: "keeps view (words_beside_approval env rc ms tus)"
  using add_words
  by (auto simp: words_beside_approval_def split: option.splits intro!: service_keeps)

lemma keeps_loop:
  assumes "by_name_ok (rc_system_by_name rc)" and "set names \<subseteq> set (rc_approval_names rc)"
  shows "keeps view (tool_loop env rc n ms)"
proof (induction n arbitrary: ms)
  case 0
  then show ?case by (auto intro!: service_keeps)
next
  case (Suc n)
  have "\<not> gated names tu" if "\<not> list_ex (gated (rc_approval_names rc)) tus" "tu \<in> set tus" for tu tus
    using that assms(2) by (auto simp: gated_def list_ex_iff)
  then have "keeps view (execute_tool_uses env [] (rc_system_by_name rc) ctx node_id tus)"
    if "\<not> list_ex (gated (rc_approval_names rc)) tus" for tus ctx node_id
    using that by (blast intro: keeps_execute_uses [OF assms(1)])
  then show ?case
    using keeps_words Suc.IH
    by (auto simp: Let_def suspend_turn_def split: prod.splits option.splits pyval.splits
        intro!: service_keeps)
qed

lemma keeps_bind_on:
  "keeps view m \<Longrightarrow> (\<And>x w w'. m w = Some (Inr x, w') \<Longrightarrow> keeps view (f x)) \<Longrightarrow>
   keeps view (bindA m f)"
  unfolding keeps_def bindA_Some by metis

lemma keeps_resolve: "keeps view (resolve_tools env a context_names)"
  by (auto simp: resolve_tools_def Let_def intro!: service_keeps)

lemma keeps_approval_names: "keeps view (approval_names_for env a enabled)"
  by (auto simp: approval_names_for_def intro!: service_keeps)

lemma approval_names_gated:
  assumes "approval_names_for env agent_id True w = Some (Inr ns, w')"
  shows "set names \<subseteq> set ns"
proof -
  from assms obtain operations grants w1 where "ae_operations env agent_id w = Some (Inr operations, w1)"
    and "ae_grants env agent_id w1 = Some (Inr grants, w')"
    and "ns = approval_required_names operations grants"
    by (auto simp: approval_names_for_def bindA_Some returnA_def)
  with names_gated show ?thesis by blast
qed

lemma keeps_run:
  assumes "ag_id (rq_agent rq) = agent_id"
  shows "keeps view (run_agent env rq True history m attachments)"
  unfolding run_agent_def Let_def
proof (rule keeps_bind_on [OF keeps_resolve])
  fix x w w'
  assume r: "resolve_tools env (ag_id (rq_agent rq)) (rq_context_tools rq) w = Some (Inr x, w')"
  obtain tools by_name where x: "x = (tools, by_name)" by (cases x)
  have ok: "by_name_ok by_name" using r unfolding x by (rule resolved_by_name)
  show "keeps view (case x of (tools, by_name) \<Rightarrow>
      bindA (approval_names_for env (ag_id (rq_agent rq)) True) (\<lambda>names.
      bindA (if user_content m attachments = [] then returnA ()
        else ae_save env (rq_node_id rq) ''user'' (user_content m attachments)) (\<lambda>_.
      bindA (ae_emit env ''agent_thinking'' (rq_node_id rq)
        [(''agent_id'', PStr (ag_id (rq_agent rq))),
         (''tools_available'', PInt (int (length tools)))]) (\<lambda>_.
      tool_loop env
        \<lparr>rc_agent = rq_agent rq, rc_scope = rq_scope rq, rc_node_id = rq_node_id rq,
         rc_system = resolved_system (ae_rt env) rq,
         rc_tools = tools, rc_system_by_name = by_name, rc_approval_names = names,
         rc_call_context = base_call_context (rq_agent rq) (rq_scope rq) (rq_node_id rq)
           (rq_extra_context rq)\<rparr>
        MAX_TOOL_ITERATIONS
        (history @ (if user_content m attachments = [] then []
           else [message ''user'' (user_content m attachments)]))))))"
    unfolding x prod.case
    by (rule keeps_bind_on [OF keeps_approval_names])
       (auto simp: ok assms intro!: service_keeps keeps_loop dest: subsetD [OF approval_names_gated])
qed

lemma resume_agent_cases:
  "resume_agent env rq history =
     (if history = [] \<or> dget (last history) ''role'' \<noteq> PStr ''assistant'' then
        raiseA (agent_error ''resume: history must end with an assistant turn'')
      else if tool_uses_of (message_blocks (last history)) = [] then
        raiseA (agent_error ''resume: last assistant message has no tool_use'')
      else bindA (ae_decisions env (rq_scope rq)) (resume_with env rq history))"
  by (simp add: resume_agent_def Let_def)

lemma keeps_resume_with:
  assumes "ag_id (rq_agent rq) = agent_id"
    and "\<And>tu. tu \<in> set (tool_uses_of (message_blocks (last history))) \<Longrightarrow> gated names tu \<Longrightarrow>
      was_rejected (decision_for decisions tu)"
  shows "keeps view (resume_with env rq history decisions)"
  unfolding resume_with_def Let_def
proof (rule keeps_bind_on [OF keeps_resolve], goal_cases)
  case (1 x w w')
  obtain tools by_name where x: "x = (tools, by_name)" by (cases x)
  have "by_name_ok by_name" using 1 unfolding x by (rule resolved_by_name)
  then have "keeps view (execute_tool_uses env decisions by_name ctx node_id
      (tool_uses_of (message_blocks (last history))))" for ctx node_id
    using assms(2) by (rule keeps_execute_uses)
  then show ?case
    unfolding x prod.case using keeps_run [OF assms(1)]
    by (auto intro!: service_keeps split: prod.splits)
qed

lemma resume_keeps_view:
  assumes "ag_id (rq_agent rq) = agent_id"
    and "\<And>decisions w1 tu. ae_decisions env (rq_scope rq) w = Some (Inr decisions, w1) \<Longrightarrow>
      tu \<in> set (tool_uses_of (message_blocks (last history))) \<Longrightarrow> gated names tu \<Longrightarrow>
      was_rejected (decision_for decisions tu)"
    and "resume_agent env rq history w = Some (r, w')"
  shows "view w' = view w"
proof -
  consider "w' = w" | "bindA (ae_decisions env (rq_scope rq)) (resume_with env rq history) w = Some (r, w')"
    using assms(3) by (auto simp: resume_agent_cases raiseA_def split: if_splits)
  then show ?thesis
  proof cases
    case 2
    then consider e where "ae_decisions env (rq_scope rq) w = Some (Inl e, w')"
      | decisions w1 where "ae_decisions env (rq_scope rq) w = Some (Inr decisions, w1)"
        and "resume_with env rq history decisions w1 = Some (r, w')"
      by (auto simp: bindA_Some)
    then show ?thesis
    proof cases
      case 2
      have "keeps view (resume_with env rq history decisions)"
        using assms(2) [OF 2(1)] by (rule keeps_resume_with [OF assms(1)])
      with 2 show ?thesis using other_services(8) by (metis keepsD)
    qed (rule keepsD [OF other_services(8)])
  qed simp
qed

end

text \<open>
  C3 (safety). A tool whose calls need approval does nothing before it is approved: whatever
  only the gated tools touch is the same after a run with approvals enabled, however it ends,
  and after resuming a turn in which the gated calls were rejected.
\<close>

theorem gated_calls_wait_for_approval:
  assumes "gated_calls env view agent_id names" and "ag_id (rq_agent rq) = agent_id"
    and "\<And>decisions w1 tu. ae_decisions env (rq_scope rq) w = Some (Inr decisions, w1) \<Longrightarrow>
      tu \<in> set (tool_uses_of (message_blocks (last suspended))) \<Longrightarrow> gated names tu \<Longrightarrow>
      was_rejected (decision_for decisions tu)"
  shows "keeps view (run_agent env rq True history m attachments) \<and>
    (case resume_agent env rq suspended w of None \<Rightarrow> True | Some (r, w') \<Rightarrow> view w' = view w)"
proof (rule conjI)
  show "keeps view (run_agent env rq True history m attachments)"
    by (rule gated_calls.keeps_run [OF assms(1,2)])
  show "case resume_agent env rq suspended w of None \<Rightarrow> True | Some (r, w') \<Rightarrow> view w' = view w"
    using gated_calls.resume_keeps_view [OF assms(1,2), of w suspended] assms(3)
    by (auto split: option.splits)
qed

section \<open>A run returns\<close>

definition services_return :: "('w, 'h) agent_env \<Rightarrow> ('w \<Rightarrow> nat) \<Rightarrow> bool" where
  "services_return env calls \<longleftrightarrow>
     (\<forall>h i c. costs calls 0 (ae_call_tool env h i c)) \<and> costs calls 0 (ae_list_mcp env) \<and>
     (\<forall>n i. costs calls 0 (ae_call_mcp env n i)) \<and> (\<forall>a. costs calls 0 (ae_operations env a)) \<and>
     (\<forall>a. costs calls 0 (ae_grants env a)) \<and> (\<forall>c. costs calls 1 (ae_complete env c)) \<and>
     (\<forall>k n p. costs calls 0 (ae_emit env k n p)) \<and> (\<forall>n r bs. costs calls 0 (ae_save env n r bs)) \<and>
     (\<forall>add t. ae_add_words env = Some add \<longrightarrow> costs calls 0 (add t)) \<and>
     (\<forall>s tus a. costs calls 0 (ae_create_approvals env s tus a)) \<and>
     (\<forall>s. costs calls 0 (ae_decisions env s))"

lemma costs_execute_uses:
  assumes "services_return env calls"
  shows "costs calls 0 (execute_tool_uses env decisions by_name ctx node_id tus)"
proof -
  have "costs calls 0 (perform_call env by_name ctx tu i)" for tu i
    using assms
    by (auto simp: services_return_def perform_call_def invoke_system_tool_def
        split: option.splits prod.splits intro!: costs_bind0 costs_try0)
  then have "costs calls 0 (execute_tool_use env decisions by_name ctx node_id tu)" for tu
    using assms
    by (auto simp: services_return_def execute_tool_use_def emit_result_def Let_def
        split: prod.splits intro!: costs_bind0)
  then show ?thesis by (auto simp: execute_tool_uses_def intro!: costs_bind0 costs_for0)
qed

lemma costs_suspend:
  assumes "services_return env calls"
  shows "costs calls 1 (suspend_turn env rc ms bs tus)"
proof -
  have w: "costs calls 1 (words_beside_approval env rc ms tus)"
  proof (cases "ae_add_words env")
    case None
    then show ?thesis by (auto simp: words_beside_approval_def)
  next
    case (Some add)
    have "costs calls (1 + 0) (bindA (tryA (ae_complete env
        (complete_call rc (words_ask ms tus) True)) (\<lambda>_. returnA []))
        (\<lambda>blocks. if words_of blocks = [] then returnA () else add (words_of blocks)))"
      using assms Some by (intro costs_bind costs_try0) (auto simp: services_return_def)
    then show ?thesis by (simp add: words_beside_approval_def Some)
  qed
  have "costs calls 0 (bindA (ae_create_approvals env (rc_scope rc)
              (filter (gated (rc_approval_names rc)) tus) (Some (ag_name (rc_agent rc)))) f)"
    if "\<And>x. costs calls 0 (f x)" for f :: "tool_approval list \<Rightarrow> ('a, run_result) act"
    using assms that by (auto simp: services_return_def intro!: costs_bind0)
  then have "costs calls (1 + 0) (suspend_turn env rc ms bs tus)"
    using w assms unfolding suspend_turn_def
    by (intro costs_bind) (auto simp: services_return_def intro!: costs_bind0 costs_for0)
  then show ?thesis by simp
qed

lemma costs_loop:
  assumes "services_return env calls"
  shows "costs calls (n + 1) (tool_loop env rc n ms)"
proof (induction n arbitrary: ms)
  case 0
  then show ?case by auto
next
  case (Suc n)
  have suspend: "costs calls (n + 1) (suspend_turn env rc ms bs tus)" for ms bs tus
    by (rule costs_mono [OF costs_suspend [OF assms]]) simp
  have save: "costs calls 0 (ae_save env k r bs)" for k r bs
    using assms by (simp add: services_return_def)
  have "costs calls (1 + (n + 1)) (tool_loop env rc (Suc n) ms)"
    unfolding tool_loop.simps Let_def
    using assms suspend Suc.IH costs_execute_uses [OF assms] save
    by (intro costs_bind)
       (auto simp: services_return_def split: prod.splits option.splits pyval.splits
         intro!: costs_bind0)
  then show ?case by simp
qed

lemma costs_run:
  assumes "services_return env calls"
  shows "costs calls (MAX_TOOL_ITERATIONS + 1) (run_agent env rq enabled history m attachments)"
proof -
  have "costs calls 0 (resolve_tools env a context_names)" for a context_names
    using assms by (auto simp: services_return_def resolve_tools_def Let_def intro!: costs_bind0)
  moreover have "costs calls 0 (approval_names_for env a enabled)" for a
    using assms by (auto simp: services_return_def approval_names_for_def intro!: costs_bind0)
  ultimately show ?thesis
    using assms costs_loop [OF assms]
    by (auto simp: services_return_def run_agent_def Let_def split: prod.splits
        intro!: costs_bind0)
qed

lemma costs_resume:
  assumes "services_return env calls"
  shows "costs calls (MAX_TOOL_ITERATIONS + 1) (resume_agent env rq history)"
proof -
  have "costs calls 0 (resolve_tools env a context_names)" for a context_names
    using assms by (auto simp: services_return_def resolve_tools_def Let_def intro!: costs_bind0)
  then have "costs calls (MAX_TOOL_ITERATIONS + 1) (resume_with env rq history decisions)" for decisions
    using assms costs_run [OF assms] costs_execute_uses [OF assms]
    by (auto simp: services_return_def resume_with_def Let_def split: prod.splits
        intro!: costs_bind0 costs_for0)
  then show ?thesis
    using assms by (auto simp: services_return_def resume_agent_def intro!: costs_bind0)
qed

text \<open>
  C21 (termination). A run returns whenever the services it calls do, after at most
  \<open>MAX_TOOL_ITERATIONS\<close> completions of its loop and one more for the words beside an approval.
\<close>

theorem agent_run_bounded:
  assumes "services_return env calls"
  shows "\<exists>r w'. run_agent env rq enabled history m attachments w = Some (r, w') \<and>
    calls w' \<le> calls w + 17"
  using costs_run [OF assms] by (simp add: costs_def MAX_TOOL_ITERATIONS_def)

section \<open>Samples\<close>

text \<open>
  A host with the tools \<open>send_mail\<close>, which needs approval, and \<open>look_up\<close>, which does not.
  The world holds the calls that were made, the number of completions and the approval table;
  the provider plays a script.
\<close>

record agent_world =
  aw_log :: "string list"
  aw_calls :: nat
  aw_table :: approval_table

definition sample_tool :: "string \<Rightarrow> string system_tool" where
  "sample_tool name = \<lparr>st_name = name, st_description = [], st_input_schema = [],
     st_handler = name, st_scope = Catalog, st_terminal = False\<rparr>"

definition sample_complete :: "pydict list list \<Rightarrow> llm_call \<Rightarrow> (agent_world, pydict list) act" where
  "sample_complete script c = stepA (\<lambda>w.
     (Inr (if aw_calls w < length script then script ! aw_calls w else []),
      w\<lparr>aw_calls := Suc (aw_calls w)\<rparr>))"

definition sample_agent_env :: "pydict list list \<Rightarrow> (agent_world, string) agent_env" where
  "sample_agent_env script =
     \<lparr>ae_rt = \<lparr>rt_getattr = \<lambda>_ _. PNone, rt_float_str = \<lambda>_. []\<rparr>,
      ae_tools = [(''send_mail'', sample_tool ''send_mail''), (''look_up'', sample_tool ''look_up'')],
      ae_call_tool = (\<lambda>h i c. bindA (writeA (\<lambda>w. w\<lparr>aw_log := aw_log w @ [h]\<rparr>))
        (\<lambda>_. returnA (PStr ''done''))),
      ae_list_mcp = returnA [],
      ae_call_mcp = (\<lambda>n i. raiseA (OtherError ''KeyError'' ''no such tool'')),
      ae_operations = (\<lambda>_. returnA []),
      ae_grants = (\<lambda>_. returnA
        [\<lparr>tg_tool_name = ''send_mail'', tg_requires_approval = True, tg_deferred = False\<rparr>,
         \<lparr>tg_tool_name = ''look_up'', tg_requires_approval = False, tg_deferred = False\<rparr>]),
      ae_complete = sample_complete script,
      ae_emit = (\<lambda>_ _ _. returnA ()),
      ae_save = (\<lambda>_ _ _. returnA ()),
      ae_add_words = None,
      ae_create_approvals = (\<lambda>scope tus name. stepA (\<lambda>w.
        case create_pending_approvals \<lparr>rt_getattr = \<lambda>_ _. PNone, rt_float_str = \<lambda>_. []\<rparr>
          (\<lambda>i. nat_str (length (aw_table w) + i)) scope tus name (aw_table w) of
          Inl e \<Rightarrow> (Inl e, w)
        | Inr (rows, table) \<Rightarrow> (Inr rows, w\<lparr>aw_table := table\<rparr>))),
      ae_decisions = (\<lambda>scope. readA (\<lambda>w. decisions_by_tool_use (aw_table w) scope)),
      ae_json_parse = (\<lambda>_. Inl ''Expecting value''),
      ae_schema_error = (\<lambda>_ _. None),
      ae_runtime_error = (\<lambda>name. name = ''RuntimeError'')\<rparr>"

definition sent :: "agent_world \<Rightarrow> string list" where
  "sent w = filter (\<lambda>n. n = ''send_mail'') (aw_log w)"

interpretation sample_host: gated_calls "sample_agent_env script" sent agent_id "[''send_mail'']"
  for script agent_id
proof (unfold_locales, goal_cases)
  case (1 n t args ctx)
  then have "st_handler t \<noteq> ''send_mail''" by (auto simp: sample_agent_env_def sample_tool_def)
  then show ?case
    by (auto simp: sample_agent_env_def sent_def keeps_def act_simps)
next
  case (12 w operations w1 w2 grants w3)
  then have "grants = [\<lparr>tg_tool_name = ''send_mail'', tg_requires_approval = True,
      tg_deferred = False\<rparr>, \<lparr>tg_tool_name = ''look_up'', tg_requires_approval = False,
      tg_deferred = False\<rparr>]"
    by (simp add: sample_agent_env_def returnA_def)
  then show ?case by (simp add: approval_required_names_def)
qed (auto simp: sample_agent_env_def sample_complete_def sent_def keeps_def act_simps
       split: sum.splits prod.splits)

definition chat_agent :: agent where
  "chat_agent = \<lparr>ag_id = ''a1'', ag_name = ''assistant'', ag_role = [], ag_instructions = [],
     ag_output_schema = [], ag_required_sources = []\<rparr>"

definition sample_request :: run_request where
  "sample_request = \<lparr>rq_agent = chat_agent, rq_scope = ''c1'', rq_node_id = ''chat'',
     rq_system_prompt = Some [], rq_context_tools = [], rq_extra_context = None\<rparr>"

definition tool_use_block :: "string \<Rightarrow> string \<Rightarrow> pydict" where
  "tool_use_block i name = [(''type'', PStr ''tool_use''), (''id'', PStr i), (''name'', PStr name),
     (''input'', PDict [])]"

definition sample_agent_world :: agent_world where
  "sample_agent_world = \<lparr>aw_log = [], aw_calls = 0, aw_table = []\<rparr>"

definition sample_agent_script :: "pydict list list" where
  "sample_agent_script = [[tool_use_block ''u1'' ''look_up''],
     [tool_use_block ''u2'' ''look_up'', tool_use_block ''u3'' ''send_mail'']]"

lemma sample_run:
  "map_option (\<lambda>(r, w). (r, aw_log w, map ta_tool_name (aw_table w)))
     (run_agent (sample_agent_env sample_agent_script) sample_request True [] (Some ''hello'') []
        sample_agent_world)
   = Some (Inr (SuspendedForApproval
       [new_approval \<lparr>rt_getattr = \<lambda>_ _. PNone, rt_float_str = \<lambda>_. []\<rparr> ''c1'' (Some ''assistant'')
          ''0'' (tool_use_block ''u3'' ''send_mail'')]), [''look_up''], [''send_mail''])"
  by code_simp

definition strict_complete :: "llm_call \<Rightarrow> (agent_world, pydict list) act" where
  "strict_complete c =
     (if paired (lc_messages c) then sample_complete sample_agent_script c
      else raiseA (OtherError ''BadRequestError'' ''tool_use without tool_result''))"

theorem provider_sees_paired_histories_witness:
  "map_option fst (run_agent (sample_agent_env sample_agent_script\<lparr>ae_complete := strict_complete\<rparr>)
     sample_request True [] (Some ''hello'') [] sample_agent_world)
   = map_option fst (run_agent (sample_agent_env sample_agent_script)
     sample_request True [] (Some ''hello'') [] sample_agent_world)"
proof -
  have "strict_complete c = ae_complete (sample_agent_env sample_agent_script) c"
    if "paired (lc_messages c)" for c
    using that by (simp add: strict_complete_def sample_agent_env_def)
  from provider_sees_paired_histories [of strict_complete, OF this, of "[]"] show ?thesis by simp
qed

definition rejected_world :: agent_world where
  "rejected_world = sample_agent_world\<lparr>aw_table :=
     [sample_approval\<lparr>ta_status := rejected_status, ta_reason := Some ''not now''\<rparr>]\<rparr>"

definition suspended_history :: "pydict list" where
  "suspended_history = [message ''assistant'' [tool_use_block ''u1'' ''send_mail'']]"

lemma sample_resume:
  "map_option (\<lambda>(r, w). (r, aw_log w, aw_calls w))
     (resume_agent (sample_agent_env []) sample_request suspended_history rejected_world)
   = Some (Inr (Output (PStr [])), [], 1)"
  by code_simp

theorem gated_calls_wait_for_approval_witness:
  "\<exists>r w'. resume_agent (sample_agent_env []) sample_request suspended_history rejected_world
     = Some (r, w') \<and> aw_calls w' = 1 \<and> sent w' = sent rejected_world"
proof -
  have d: "ae_decisions (sample_agent_env []) ''c1'' rejected_world =
      Some (Inr [(''u1'', sample_approval\<lparr>ta_status := rejected_status,
        ta_reason := Some ''not now''\<rparr>)], rejected_world)"
    by code_simp
  obtain r w' where r: "resume_agent (sample_agent_env []) sample_request suspended_history
      rejected_world = Some (r, w')" "aw_calls w' = 1"
    using sample_resume by auto
  have "case resume_agent (sample_agent_env []) sample_request suspended_history rejected_world of
      None \<Rightarrow> True | Some (r, w') \<Rightarrow> sent w' = sent rejected_world"
    by (rule conjunct2, rule gated_calls_wait_for_approval [OF sample_host.gated_calls_axioms])
       (auto simp: d suspended_history_def tool_uses_of_def is_tool_use_def tool_use_block_def
         dget_def decision_for_def call_id_def dget_or_def was_rejected_def sample_request_def)
  with r show ?thesis by simp
qed

lemma sample_services_return: "services_return (sample_agent_env script) aw_calls"
  by (auto simp: services_return_def sample_agent_env_def sample_complete_def costs_def act_simps
      split: sum.splits prod.splits)

theorem agent_run_bounded_witness:
  "\<exists>r w'. run_agent (sample_agent_env sample_agent_script) sample_request True []
     (Some ''hello'') [] sample_agent_world = Some (r, w') \<and> aw_calls w' \<le> 17"
  using agent_run_bounded [OF sample_services_return, of sample_agent_script sample_request True "[]"
      "Some ''hello''" "[]" sample_agent_world]
  by (simp add: sample_agent_world_def)

end
