(* ===== verification/Emitter.thy ===== *)
theory Emitter
  imports NodeHistory FlowRunner
begin

text \<open>
  \<open>EventEmitter\<close> (luna_core/engine/emitter.py) and the iteration tag of an event
  (luna_core/engine/iteration_context.py).

  Several emitters of one run work at the same time, on sessions of their own.  \<open>em_others\<close> is
  what the others do at the points where this one waits; the theorems assume of it what the
  others do: they add rows, and the unique constraints of the tables hold for them too.
\<close>

record run_event =
  ev_id :: string
  ev_run :: string
  ev_sequence :: int
  ev_timestamp :: string
  ev_type :: string
  ev_node_id :: "string option"
  ev_payload :: pydict

record 'w emitter_env =
  em_redis :: "'w store"
  em_ttl :: nat
  em_channel_prefix :: string
  em_events :: "'w \<Rightarrow> run_event list"
  em_add_event :: "run_event \<Rightarrow> 'w \<Rightarrow> 'w"
  em_messages :: "'w \<Rightarrow> agent_message list"
  em_add_message :: "agent_message \<Rightarrow> 'w \<Rightarrow> 'w"
  em_publish :: "string \<Rightarrow> pydict \<Rightarrow> ('w, unit) act"
  em_now :: "('w, string) act"
  em_new_id :: "('w, string) act"
  em_others :: "'w \<Rightarrow> 'w"

definition EMIT_MAX_RETRIES :: nat where "EMIT_MAX_RETRIES = 32"

definition max_seq_key :: "string \<Rightarrow> string" where
  "max_seq_key run = ''max_seq:'' @ run"

definition run_event_channel :: "'w emitter_env \<Rightarrow> string \<Rightarrow> string" where
  "run_event_channel env run = em_channel_prefix env @ '':'' @ run"

definition flow_run_channel :: "'w emitter_env \<Rightarrow> string \<Rightarrow> string" where
  "flow_run_channel env flow = em_channel_prefix env @ '':flow:'' @ flow"

definition publish_flow_run_event ::
  "'w emitter_env \<Rightarrow> string \<Rightarrow> string \<Rightarrow> pydict \<Rightarrow> ('w, unit) act" where
  "publish_flow_run_event env flow event run_payload =
     em_publish env (flow_run_channel env flow)
       [(''event'', PStr event), (''run'', json_image (PDict run_payload))]"

section \<open>The iteration tag\<close>

definition inject_iteration_tag :: "string option \<Rightarrow> pydict option \<Rightarrow> pydict" where
  "inject_iteration_tag tag payload =
     (case tag of
        None \<Rightarrow> (case payload of None \<Rightarrow> [] | Some p \<Rightarrow> p)
      | Some i \<Rightarrow>
          (case payload of
             None \<Rightarrow> [(''iteration_id'', PStr i)]
           | Some p \<Rightarrow> if dhas p ''iteration_id'' then p else dset p ''iteration_id'' (PStr i)))"

section \<open>Sequences\<close>

definition max_sequence :: "('a \<Rightarrow> int) \<Rightarrow> 'a list \<Rightarrow> int" where
  "max_sequence seq rows = foldr (\<lambda>row m. max (seq row) m) rows 0"

definition events_of :: "'w emitter_env \<Rightarrow> string \<Rightarrow> 'w \<Rightarrow> run_event list" where
  "events_of env run w = filter (\<lambda>e. ev_run e = run) (em_events env w)"

definition messages_of :: "'w emitter_env \<Rightarrow> string \<Rightarrow> 'w \<Rightarrow> agent_message list" where
  "messages_of env run w = filter (\<lambda>m. am_run m = run) (em_messages env w)"

definition mark_value :: "jtext option \<Rightarrow> int" where
  "mark_value raw = (case raw of Some (Json (PInt n)) \<Rightarrow> n | _ \<Rightarrow> 0)"

definition await_others :: "'w emitter_env \<Rightarrow> ('w, unit) act" where
  "await_others env = writeA (em_others env)"

definition next_event_sequence :: "'w emitter_env \<Rightarrow> string \<Rightarrow> ('w, int) act" where
  "next_event_sequence env run =
     bindA (readA (\<lambda>w. max_sequence ev_sequence (events_of env run w))) (\<lambda>db_max.
     bindA (await_others env) (\<lambda>_.
     bindA (readA (\<lambda>w. mark_value (r_get (em_redis env) (max_seq_key run) w))) (\<lambda>redis_max.
       returnA (max db_max redis_max + 1))))"

definition next_message_sequence :: "'w emitter_env \<Rightarrow> string \<Rightarrow> ('w, int) act" where
  "next_message_sequence env run =
     readA (\<lambda>w. max_sequence am_sequence (messages_of env run w) + 1)"

definition bump_max_seq :: "'w emitter_env \<Rightarrow> string \<Rightarrow> int \<Rightarrow> ('w, unit) act" where
  "bump_max_seq env run sequence =
     writeA (r_set (em_redis env) (max_seq_key run) (Json (PInt sequence)) (em_ttl env))"

section \<open>Inserting\<close>

text \<open>A commit of a row whose sequence is taken is an \<open>IntegrityError\<close>, and adds nothing.\<close>

definition commit_event :: "'w emitter_env \<Rightarrow> run_event \<Rightarrow> ('w, bool) act" where
  "commit_event env ev = stepA (\<lambda>w.
     if ev_sequence ev \<in> ev_sequence ` set (events_of env (ev_run ev) w) then (Inr False, w)
     else (Inr True, em_add_event env ev w))"

definition commit_message :: "'w emitter_env \<Rightarrow> agent_message \<Rightarrow> ('w, bool) act" where
  "commit_message env m = stepA (\<lambda>w.
     if am_sequence m \<in> am_sequence ` set (messages_of env (am_run m) w) then (Inr False, w)
     else (Inr True, em_add_message env m w))"

definition integrity_error :: exn where
  "integrity_error = OtherError ''IntegrityError'' ''duplicate key value violates unique constraint''"

text \<open>\<open>for _attempt in range(_EMIT_MAX_RETRIES)\<close>, with its \<open>else\<close>.\<close>

fun insert_retrying ::
  "'w emitter_env \<Rightarrow> nat \<Rightarrow> ('w, 'a) act \<Rightarrow> ('a \<Rightarrow> ('w, bool) act) \<Rightarrow> ('w, 'a) act" where
  "insert_retrying env 0 build commit = raiseA integrity_error"
| "insert_retrying env (Suc n) build commit =
     bindA build (\<lambda>row.
     bindA (await_others env) (\<lambda>_.
     bindA (commit row) (\<lambda>inserted.
       if inserted then returnA row
       else bindA (await_others env) (\<lambda>_. insert_retrying env n build commit))))"

definition build_event ::
  "'w emitter_env \<Rightarrow> string \<Rightarrow> string \<Rightarrow> string option \<Rightarrow> pydict \<Rightarrow> ('w, run_event) act" where
  "build_event env run event_type node_id payload =
     bindA (next_event_sequence env run) (\<lambda>sequence.
     bindA (em_now env) (\<lambda>timestamp.
     bindA (em_new_id env) (\<lambda>new_id.
       returnA \<lparr>ev_id = new_id, ev_run = run, ev_sequence = sequence, ev_timestamp = timestamp,
         ev_type = event_type, ev_node_id = node_id, ev_payload = payload\<rparr>)))"

definition event_message :: "run_event \<Rightarrow> pydict" where
  "event_message ev =
     [(''id'', PStr (ev_id ev)), (''flow_run_id'', PStr (ev_run ev)),
      (''sequence'', PInt (ev_sequence ev)), (''timestamp'', PStr (ev_timestamp ev)),
      (''event_type'', PStr (ev_type ev)),
      (''node_id'', case ev_node_id ev of None \<Rightarrow> PNone | Some n \<Rightarrow> PStr n),
      (''payload'', PDict (ev_payload ev))]"

definition emit ::
  "'w emitter_env \<Rightarrow> string \<Rightarrow> string option \<Rightarrow> string \<Rightarrow> string option \<Rightarrow> pydict option
   \<Rightarrow> ('w, run_event) act" where
  "emit env run tag event_type node_id payload =
     bindA (insert_retrying env EMIT_MAX_RETRIES
              (build_event env run event_type node_id (inject_iteration_tag tag payload))
              (commit_event env)) (\<lambda>ev.
     bindA (await_others env) (\<lambda>_.
     bindA (em_publish env (run_event_channel env run) (event_message ev)) (\<lambda>_.
     bindA (await_others env) (\<lambda>_.
     bindA (bump_max_seq env run (ev_sequence ev)) (\<lambda>_.
       returnA ev)))))"

text \<open>A streamed delta: published, not stored.\<close>

definition publish_run_event ::
  "'w emitter_env \<Rightarrow> string \<Rightarrow> string option \<Rightarrow> string \<Rightarrow> string option \<Rightarrow> pydict \<Rightarrow> int
   \<Rightarrow> string option \<Rightarrow> ('w, unit) act" where
  "publish_run_event env run tag event_type node_id payload sequence event_id =
     bindA (case event_id of None \<Rightarrow> em_new_id env | Some i \<Rightarrow> returnA i) (\<lambda>i.
     bindA (em_now env) (\<lambda>timestamp.
     bindA (em_publish env (run_event_channel env run)
       (event_message \<lparr>ev_id = i, ev_run = run, ev_sequence = sequence,
          ev_timestamp = timestamp, ev_type = event_type, ev_node_id = node_id,
          ev_payload = inject_iteration_tag tag (Some payload)\<rparr>)) (\<lambda>_.
       bump_max_seq env run sequence)))"

definition build_message ::
  "'w emitter_env \<Rightarrow> string \<Rightarrow> string \<Rightarrow> string \<Rightarrow> pyval list \<Rightarrow> bool \<Rightarrow> string option
   \<Rightarrow> string option \<Rightarrow> ('w, agent_message) act" where
  "build_message env run node_id role content is_partial thinking message_id =
     bindA (next_message_sequence env run) (\<lambda>sequence.
     bindA (case message_id of None \<Rightarrow> em_new_id env | Some i \<Rightarrow> returnA i) (\<lambda>i.
       returnA \<lparr>am_id = i, am_run = run, am_node_id = node_id, am_sequence = sequence,
         am_role = role, am_content = content, am_partial = is_partial, am_thinking = thinking\<rparr>))"

definition save_message ::
  "'w emitter_env \<Rightarrow> string \<Rightarrow> string \<Rightarrow> string \<Rightarrow> pyval list \<Rightarrow> bool \<Rightarrow> string option
   \<Rightarrow> string option \<Rightarrow> ('w, agent_message) act" where
  "save_message env run node_id role content is_partial thinking message_id =
     insert_retrying env EMIT_MAX_RETRIES
       (build_message env run node_id role content is_partial thinking message_id)
       (commit_message env)"

section \<open>What an emitter relies on\<close>

definition sequences_unique :: "run_event list \<Rightarrow> bool" where
  "sequences_unique es \<longleftrightarrow> distinct (map (\<lambda>e. (ev_run e, ev_sequence e)) es)"

locale emitter_host =
  fixes env :: "'w emitter_env"
  assumes add_event: "em_events env (em_add_event env ev w) = em_events env w @ [ev]"
    and set_keeps: "em_events env (r_set (em_redis env) k v ttl w) = em_events env w"
    and now_returns: "\<exists>t w'. em_now env w = Some (Inr t, w') \<and> em_events env w' = em_events env w"
    and id_returns: "\<exists>i w'. em_new_id env w = Some (Inr i, w') \<and> em_events env w' = em_events env w"
    and publish_returns:
      "\<exists>w'. em_publish env channel m w = Some (Inr (), w') \<and> em_events env w' = em_events env w"
    and others_add: "\<exists>es. em_events env (em_others env w) = em_events env w @ es"
    and others_unique:
      "sequences_unique (em_events env w) \<Longrightarrow> sequences_unique (em_events env (em_others env w))"
begin

text \<open>The rows of a later world: what was there, in place, and more.\<close>

definition later :: "'w \<Rightarrow> 'w \<Rightarrow> bool" where
  "later w w' \<longleftrightarrow> (\<exists>es. em_events env w' = em_events env w @ es) \<and>
     (sequences_unique (em_events env w) \<longrightarrow> sequences_unique (em_events env w'))"

lemma later_refl: "em_events env w' = em_events env w \<Longrightarrow> later w w'"
  by (simp add: later_def)

lemma later_trans: "later w w1 \<Longrightarrow> later w1 w2 \<Longrightarrow> later w w2"
  by (auto simp: later_def)

lemma later_others: "later w (em_others env w)"
  using others_add others_unique by (simp add: later_def)

lemma later_length: "later w w' \<Longrightarrow> length (em_events env w) \<le> length (em_events env w')"
  by (auto simp: later_def)

lemma later_set: "later w w' \<Longrightarrow> set (em_events env w) \<subseteq> set (em_events env w')"
  by (auto simp: later_def)

definition above :: "string \<Rightarrow> int \<Rightarrow> 'w \<Rightarrow> bool" where
  "above run n w \<longleftrightarrow> (\<forall>e \<in> set (events_of env run w). ev_sequence e < n)"

lemma max_sequence_ge: "x \<in> set xs \<Longrightarrow> seq x \<le> max_sequence seq xs"
  by (induction xs) (auto simp: max_sequence_def)

lemma build_event_returns:
  obtains ev w' where "build_event env run k node p w = Some (Inr ev, w')"
    and "later w w'" and "above run (ev_sequence ev) w" and "ev_run ev = run"
    and "ev_payload ev = p"
proof -
  let ?w1 = "em_others env w"
  let ?n = "max (max_sequence ev_sequence (events_of env run w))
    (mark_value (r_get (em_redis env) (max_seq_key run) ?w1)) + 1"
  have n: "next_event_sequence env run w = Some (Inr ?n, ?w1)"
    by (simp add: next_event_sequence_def await_others_def act_simps)
  obtain t w2 where t: "em_now env ?w1 = Some (Inr t, w2)" "em_events env w2 = em_events env ?w1"
    using now_returns by blast
  obtain i w3 where i: "em_new_id env w2 = Some (Inr i, w3)" "em_events env w3 = em_events env w2"
    using id_returns by blast
  let ?ev = "\<lparr>ev_id = i, ev_run = run, ev_sequence = ?n, ev_timestamp = t, ev_type = k,
    ev_node_id = node, ev_payload = p\<rparr>"
  have "build_event env run k node p w = Some (Inr ?ev, w3)"
    by (simp add: build_event_def bindA_def n t i returnA_def)
  moreover have "later w w3"
    using later_trans [OF later_others later_refl [of w3 ?w1]] t i by simp
  moreover have "above run ?n w"
    using max_sequence_ge [of _ "events_of env run w" ev_sequence]
    by (fastforce simp: above_def)
  ultimately show thesis using that [of ?ev w3] by simp
qed

lemma taken_is_new:
  assumes "above run n w" and "later w w'" and "n \<in> ev_sequence ` set (events_of env run w')"
  shows "length (em_events env w) < length (em_events env w')"
proof -
  obtain es where es: "em_events env w' = em_events env w @ es"
    using assms(2) by (auto simp: later_def)
  have "es \<noteq> []" using assms by (auto simp: es above_def events_of_def)
  then show ?thesis by (simp add: es)
qed

definition emitted :: "string \<Rightarrow> pydict \<Rightarrow> 'w \<Rightarrow> run_event \<Rightarrow> 'w \<Rightarrow> bool" where
  "emitted run p w ev w' \<longleftrightarrow> later w w' \<and> ev \<in> set (em_events env w') \<and> ev_run ev = run \<and>
     ev_payload ev = p \<and> above run (ev_sequence ev) w"

lemma emitted_later: "emitted run p w ev w1 \<Longrightarrow> later w1 w2 \<Longrightarrow> emitted run p w ev w2"
  using later_trans later_set by (fastforce simp: emitted_def)

lemma above_earlier: "later w w1 \<Longrightarrow> above run n w1 \<Longrightarrow> above run n w"
  using later_set by (fastforce simp: above_def events_of_def)

lemma later_commit:
  assumes "ev_sequence ev \<notin> ev_sequence ` set (events_of env (ev_run ev) w)"
  shows "later w (em_add_event env ev w)"
  using assms by (auto simp: later_def add_event sequences_unique_def events_of_def image_iff)

lemma insert_retrying_outcome:
  "\<exists>r w'. insert_retrying env n (build_event env run k node p) (commit_event env) w = Some (r, w') \<and>
    later w w' \<and>
    (case r of Inr ev \<Rightarrow> emitted run p w ev w'
     | Inl e \<Rightarrow> e = integrity_error \<and> length (em_events env w) + n \<le> length (em_events env w'))"
proof (induction n arbitrary: w)
  case 0
  then show ?case by (simp add: raiseA_def later_refl)
next
  case (Suc n)
  let ?go = "insert_retrying env n (build_event env run k node p) (commit_event env)"
  obtain ev w1 where b: "build_event env run k node p w = Some (Inr ev, w1)" "later w w1"
    "above run (ev_sequence ev) w" "ev_run ev = run" "ev_payload ev = p"
    using build_event_returns .
  let ?w2 = "em_others env w1"
  have l2: "later w ?w2" by (rule later_trans [OF b(2) later_others])
  show ?case
  proof (cases "ev_sequence ev \<in> ev_sequence ` set (events_of env run ?w2)")
    case False
    let ?w3 = "em_add_event env ev ?w2"
    have "later ?w2 ?w3" using False b(4) by (intro later_commit) simp
    then have "later w ?w3" by (rule later_trans [OF l2])
    then have "emitted run p w ev ?w3" using b by (simp add: emitted_def add_event)
    moreover have "insert_retrying env (Suc n) (build_event env run k node p) (commit_event env) w
        = Some (Inr ev, ?w3)"
      using False b by (simp add: bindA_def await_others_def commit_event_def act_simps)
    ultimately show ?thesis using \<open>later w ?w3\<close> by simp
  next
    case True
    let ?w3 = "em_others env ?w2"
    have l3: "later w ?w3" by (rule later_trans [OF l2 later_others])
    have less: "length (em_events env w) < length (em_events env ?w3)"
      using taken_is_new [OF b(3) l2 True] later_length [OF later_others, of ?w2] by simp
    obtain r w' where r: "?go ?w3 = Some (r, w')" "later ?w3 w'"
      "case r of Inr ev \<Rightarrow> emitted run p ?w3 ev w'
       | Inl e \<Rightarrow> e = integrity_error \<and> length (em_events env ?w3) + n \<le> length (em_events env w')"
      using Suc.IH by blast
    have "insert_retrying env (Suc n) (build_event env run k node p) (commit_event env) w
        = Some (r, w')"
      using True b r(1) by (simp add: bindA_def await_others_def commit_event_def act_simps)
    moreover have "later w w'" by (rule later_trans [OF l3 r(2)])
    moreover have "emitted run p w ev' w'" if "emitted run p ?w3 ev' w'" for ev'
      using that \<open>later w w'\<close> above_earlier [OF l3] by (simp add: emitted_def)
    ultimately show ?thesis using r(3) less by (auto split: sum.splits)
  qed
qed

lemma emit_result:
  "\<exists>r w'. emit env run tag k node p w = Some (r, w') \<and> later w w' \<and>
    (case r of Inr ev \<Rightarrow> emitted run (inject_iteration_tag tag p) w ev w'
     | Inl e \<Rightarrow> e = integrity_error \<and> length (em_events env w) + 32 \<le> length (em_events env w'))"
proof -
  let ?p = "inject_iteration_tag tag p"
  obtain r w1 where r: "insert_retrying env EMIT_MAX_RETRIES (build_event env run k node ?p)
      (commit_event env) w = Some (r, w1)" "later w w1"
    "case r of Inr ev \<Rightarrow> emitted run ?p w ev w1
     | Inl e \<Rightarrow> e = integrity_error
         \<and> length (em_events env w) + EMIT_MAX_RETRIES \<le> length (em_events env w1)"
    using insert_retrying_outcome by blast
  show ?thesis
  proof (cases r)
    case (Inl e)
    with r show ?thesis by (simp add: emit_def bindA_def EMIT_MAX_RETRIES_def)
  next
    case (Inr ev)
    obtain w2 where p: "em_publish env (run_event_channel env run) (event_message ev)
        (em_others env w1) = Some (Inr (), w2)"
      "em_events env w2 = em_events env (em_others env w1)"
      using publish_returns by blast
    let ?w3 = "r_set (em_redis env) (max_seq_key run) (Json (PInt (ev_sequence ev))) (em_ttl env)
      (em_others env w2)"
    have l: "later w1 ?w3"
      using later_trans [OF later_others later_trans [OF later_refl [OF p(2)]
          later_trans [OF later_others later_refl [OF set_keeps]]]] .
    have "emit env run tag k node p w = Some (Inr ev, ?w3)"
      using r(1) p(1) Inr
      by (simp add: emit_def bindA_def await_others_def bump_max_seq_def act_simps)
    moreover have "emitted run ?p w ev ?w3" using r(3) Inr emitted_later [OF _ l] by simp
    ultimately show ?thesis using later_trans [OF r(2) l] by simp
  qed
qed

end


section \<open>Two emitters at work\<close>

text \<open>
  A world with its tables, its keyspace and a schedule: the other emitter emits one event of its
  own, from the choice of its sequence to the high-water mark, at the waits the schedule names.
\<close>

record emitter_world =
  ew_redis :: "jtext keyspace"
  ew_events :: "run_event list"
  ew_messages :: "agent_message list"
  ew_tick :: nat
  ew_schedule :: "nat list"

definition put_redis :: "jtext keyspace \<Rightarrow> emitter_world \<Rightarrow> emitter_world" where
  "put_redis r w = w\<lparr>ew_redis := r\<rparr>"

definition ew_ops :: "emitter_world store" where
  "ew_ops = lift_redis ew_redis put_redis keyspace_ops"

definition sibling_emits :: "emitter_world \<Rightarrow> emitter_world" where
  "sibling_emits w =
     (let es = filter (\<lambda>e. ev_run e = ''r1'') (ew_events w);
          n = max (max_sequence ev_sequence es)
                (mark_value (r_get ew_ops (max_seq_key ''r1'') w)) + 1;
          ev = \<lparr>ev_id = ''sibling'', ev_run = ''r1'', ev_sequence = n, ev_timestamp = ''t'',
                ev_type = ''tool_called'', ev_node_id = None, ev_payload = []\<rparr>
      in r_set ew_ops (max_seq_key ''r1'') (Json (PInt n)) 3600
           (w\<lparr>ew_events := ew_events w @ [ev]\<rparr>))"

definition siblings :: "emitter_world \<Rightarrow> emitter_world" where
  "siblings w =
     (let w1 = w\<lparr>ew_tick := Suc (ew_tick w)\<rparr>
      in if ew_tick w \<in> set (ew_schedule w) then sibling_emits w1 else w1)"

definition sample_emitter_env :: "emitter_world emitter_env" where
  "sample_emitter_env =
     \<lparr>em_redis = ew_ops, em_ttl = 3600, em_channel_prefix = ''run'',
      em_events = ew_events, em_add_event = (\<lambda>ev w. w\<lparr>ew_events := ew_events w @ [ev]\<rparr>),
      em_messages = ew_messages,
      em_add_message = (\<lambda>m w. w\<lparr>ew_messages := ew_messages w @ [m]\<rparr>),
      em_publish = (\<lambda>_ _. returnA ()), em_now = returnA ''t'', em_new_id = returnA ''e'',
      em_others = siblings\<rparr>"

lemma em_events_sample: "em_events sample_emitter_env = ew_events"
  by (simp add: sample_emitter_env_def)

lemma ew_set: "ew_events (r_set ew_ops k v ttl w) = ew_events w"
  by (simp add: ew_ops_def lift_redis_def put_redis_def)

lemma max_sequence_all: "\<forall>x \<in> set xs. seq x \<le> max_sequence seq xs"
  by (induction xs) (auto simp: max_sequence_def)

lemma sibling_emits_unique:
  assumes "sequences_unique (ew_events w)"
  shows "sequences_unique (ew_events (sibling_emits w))"
proof -
  let ?es = "filter (\<lambda>e. ev_run e = ''r1'') (ew_events w)"
  obtain ev where es: "ew_events (sibling_emits w) = ew_events w @ [ev]" and "ev_run ev = ''r1''"
    and n: "ev_sequence ev = max (max_sequence ev_sequence ?es)
      (mark_value (r_get ew_ops (max_seq_key ''r1'') w)) + 1"
    by (simp add: sibling_emits_def Let_def ew_set)
  have "ev_sequence e < ev_sequence ev" if "e \<in> set (ew_events w)" "ev_run e = ''r1''" for e
    using max_sequence_all [of ?es ev_sequence] that n by fastforce
  then show ?thesis
    using assms \<open>ev_run ev = ''r1''\<close> by (fastforce simp: sequences_unique_def es)
qed

interpretation sample_emitter: emitter_host sample_emitter_env
proof (unfold_locales, goal_cases)
  case (6 w)
  then show ?case
    by (auto simp: sample_emitter_env_def siblings_def sibling_emits_def Let_def ew_set)
next
  case (7 w)
  then show ?case
    by (simp add: sample_emitter_env_def siblings_def Let_def sibling_emits_unique)
qed (auto simp: sample_emitter_env_def ew_set returnA_def)

definition contended_world :: "nat list \<Rightarrow> emitter_world" where
  "contended_world schedule = \<lparr>ew_redis = empty_keyspace, ew_events = [], ew_messages = [],
     ew_tick = 0, ew_schedule = schedule\<rparr>"

text \<open>The sibling takes the sequence first: the commit fails once, and the retry stores 2.\<close>

lemma sample_contended_emit:
  "map_option (\<lambda>(r, w). (map_sum id ev_sequence r, map ev_sequence (ew_events w)))
     (emit sample_emitter_env ''r1'' None ''node_started'' None None (contended_world [1]))
   = Some (Inr 2, [1, 2])"
  by code_simp


definition high_water_mark :: "'w emitter_env \<Rightarrow> string \<Rightarrow> 'w \<Rightarrow> int" where
  "high_water_mark env run w = mark_value (r_get (em_redis env) (max_seq_key run) w)"

lemma sample_mark_falls:
  "map_option (\<lambda>(r, w). (map_sum id ev_sequence r, map ev_sequence (ew_events w),
       high_water_mark sample_emitter_env ''r1'' w))
     (emit sample_emitter_env ''r1'' None ''node_started'' None None (contended_world [2]))
   = Some (Inr 1, [1, 2], 1)"
  by code_simp

text \<open>
  The mark in Redis is not a high-water mark when emitters work at the same time:
  an emitter that stored its event first and writes the mark last leaves the mark below the
  sequence of a stored event of the run.
\<close>

theorem high_water_mark_can_fall:
  "\<exists>w ev w' e. emit sample_emitter_env ''r1'' None ''node_started'' None None w = Some (Inr ev, w') \<and>
     e \<in> set (em_events sample_emitter_env w') \<and> ev_run e = ''r1'' \<and>
     high_water_mark sample_emitter_env ''r1'' w' < ev_sequence e"
proof -
  let ?w = "contended_world [2]"
  have e: "emit sample_emitter_env ''r1'' None ''node_started'' None None ?w \<noteq> None"
    using sample_mark_falls by auto
  then obtain r w' where rw: "emit sample_emitter_env ''r1'' None ''node_started'' None None ?w
      = Some (r, w')"
    by auto
  with sample_mark_falls have "map_sum id ev_sequence r = Inr 1"
    and es: "map ev_sequence (ew_events w') = [1, 2]"
    and m: "high_water_mark sample_emitter_env ''r1'' w' = 1"
    by auto
  then obtain ev where ev: "r = Inr ev" by (cases r) auto
  obtain e1 e2 where es2: "ew_events w' = [e1, e2]" and "ev_sequence e2 = 2" using es by auto
  have "ev_run e2 = ''r1''"
  proof -
    have "map_option (\<lambda>(r, w). map ev_run (ew_events w))
        (emit sample_emitter_env ''r1'' None ''node_started'' None None ?w) = Some [''r1'', ''r1'']"
      by code_simp
    with rw es2 show ?thesis by simp
  qed
  moreover have "e2 \<in> set (em_events sample_emitter_env w')"
    by (simp add: sample_emitter_env_def es2)
  ultimately show ?thesis using rw ev m \<open>ev_sequence e2 = 2\<close> by fastforce
qed

end
