(* ===== verification/RunEvents.thy ===== *)
theory RunEvents
  imports Emitter
begin

text \<open>
  The timeline of a run as clients read it (luna_core/services/flow.py): the stored events with
  one delta per finished assistant message, the chunks of messages that are still streaming, and
  the first frames of a WebSocket subscriber.

  \<open>uuid5\<close> of the OID namespace is an argument.  A list of stream chunks is read with \<open>ee_lrange\<close>;
  frames are given as the object whose JSON text is sent.
\<close>

record 'w events_env =
  ee_uuid5 :: "string \<Rightarrow> string"
  ee_runs :: "'w \<Rightarrow> flow_run list"
  ee_events :: "'w \<Rightarrow> run_event list"
  ee_messages :: "'w \<Rightarrow> agent_message list"
  ee_lrange :: "string \<Rightarrow> ('w, jtext list) act"
  ee_get :: "string \<Rightarrow> ('w, jtext option) act"
  ee_scan :: "string \<Rightarrow> ('w, string list) act"
  ee_clock :: "('w, string) act"

definition delta_event_id :: "(string \<Rightarrow> string) \<Rightarrow> string \<Rightarrow> string \<Rightarrow> nat \<Rightarrow> string" where
  "delta_event_id uuid5 message_id kind chunk_index =
     uuid5 (''delta:'' @ message_id @ '':'' @ kind @ '':'' @ nat_str chunk_index)"

section \<open>Chunks of a streaming message\<close>

record chunk =
  ck_kind :: string
  ck_text :: string
  ck_index :: nat
  ck_offset :: nat

definition attribute_error :: exn where
  "attribute_error = OtherError ''AttributeError'' ''object has no attribute get''"

text \<open>Kind and text of a cached entry; an entry that is none of the two kinds is passed over.\<close>

definition parse_chunk :: "jtext \<Rightarrow> exn + (string \<times> string) option" where
  "parse_chunk entry =
     (case json_loads entry of
        None \<Rightarrow> Inr None
      | Some (PDict data) \<Rightarrow>
          (case (dget data ''kind'', dget_or data ''text'' (PStr [])) of
             (PStr kind, PStr text) \<Rightarrow>
               Inr (if kind = ''text'' \<or> kind = ''thinking'' then Some (kind, text) else None)
           | _ \<Rightarrow> Inr None)
      | Some _ \<Rightarrow> Inl attribute_error)"

text \<open>\<open>counts kind\<close> is the number of chunks of the kind so far.\<close>

fun read_chunks :: "nat \<Rightarrow> (string \<Rightarrow> nat) \<Rightarrow> jtext list \<Rightarrow> exn + chunk list" where
  "read_chunks index counts [] = Inr []"
| "read_chunks index counts (entry # rest) =
     (case parse_chunk entry of
        Inl e \<Rightarrow> Inl e
      | Inr None \<Rightarrow> read_chunks (Suc index) counts rest
      | Inr (Some (kind, text)) \<Rightarrow>
          bindR (read_chunks (Suc index) (counts(kind := Suc (counts kind))) rest)
            (\<lambda>cs. Inr (\<lparr>ck_kind = kind, ck_text = text, ck_index = counts kind,
                         ck_offset = Suc index\<rparr> # cs)))"

definition read_inflight_chunks ::
  "'w events_env \<Rightarrow> string \<Rightarrow> string \<Rightarrow> ('w, chunk list) act" where
  "read_inflight_chunks env run message_id =
     bindA (ee_lrange env (stream_key run message_id)) (\<lambda>raw.
       liftR (read_chunks 0 (\<lambda>_. 0) raw))"

section \<open>Synthetic events\<close>

definition iteration_id_from_event :: "run_event \<Rightarrow> string option" where
  "iteration_id_from_event ev =
     (case dget (ev_payload ev) ''iteration_id'' of PStr i \<Rightarrow> Some i | _ \<Rightarrow> None)"

definition with_iteration_id :: "pydict \<Rightarrow> string option \<Rightarrow> pydict" where
  "with_iteration_id payload tag =
     (case tag of None \<Rightarrow> payload | Some i \<Rightarrow> dset payload ''iteration_id'' (PStr i))"

definition build_synthetic_event ::
  "(string \<Rightarrow> string) \<Rightarrow> string \<Rightarrow> string option \<Rightarrow> int \<Rightarrow> string \<Rightarrow> string \<Rightarrow> string \<Rightarrow> pydict
   \<Rightarrow> run_event" where
  "build_synthetic_event uuid5 run node_id sequence timestamp event_type stable_key payload =
     \<lparr>ev_id = uuid5 stable_key, ev_run = run, ev_sequence = sequence, ev_timestamp = timestamp,
      ev_type = event_type, ev_node_id = node_id, ev_payload = payload\<rparr>"

definition delta_type :: "string \<Rightarrow> string" where
  "delta_type kind = (if kind = ''text'' then ''agent_text_delta'' else ''agent_thinking_delta'')"

definition chunk_payload :: "string \<Rightarrow> string option \<Rightarrow> chunk \<Rightarrow> pydict" where
  "chunk_payload message_id tag c =
     with_iteration_id [(''message_id'', PStr message_id),
       (''chunk_index'', PInt (int (ck_index c))), (''text'', PStr (ck_text c))] tag"

definition build_inflight_chunk_event ::
  "(string \<Rightarrow> string) \<Rightarrow> string \<Rightarrow> string option \<Rightarrow> int \<Rightarrow> string \<Rightarrow> string \<Rightarrow> string option
   \<Rightarrow> chunk \<Rightarrow> run_event" where
  "build_inflight_chunk_event uuid5 run node_id started_seq timestamp message_id tag c =
     build_synthetic_event uuid5 run node_id (started_seq + int (ck_offset c)) timestamp
       (delta_type (ck_kind c))
       (''delta:'' @ message_id @ '':'' @ ck_kind c @ '':'' @ nat_str (ck_index c))
       (chunk_payload message_id tag c)"

text \<open>The text of a message, and the delta that carries the whole of it.\<close>

definition full_text :: "agent_message \<Rightarrow> string" where
  "full_text m = concat (map (\<lambda>b. case b of
       PDict d \<Rightarrow> if dget d ''type'' = PStr ''text''
                  then (case dget_or d ''text'' (PStr []) of PStr s \<Rightarrow> s | _ \<Rightarrow> []) else []
     | _ \<Rightarrow> []) (am_content m))"

definition complete_delta ::
  "(string \<Rightarrow> string) \<Rightarrow> string \<Rightarrow> run_event \<Rightarrow> agent_message \<Rightarrow> string \<Rightarrow> string \<Rightarrow> run_event" where
  "complete_delta uuid5 run started m kind text =
     build_synthetic_event uuid5 run (Some (am_node_id m)) (ev_sequence started + 1)
       (ev_timestamp started) (delta_type kind) (kind @ ''-delta:'' @ am_id m)
       (with_iteration_id [(''message_id'', PStr (am_id m)), (''chunk_index'', PInt 0),
          (''text'', PStr text), (''complete'', PBool True)] (iteration_id_from_event started))"

definition started_by_message :: "run_event list \<Rightarrow> (string \<times> run_event) list" where
  "started_by_message persisted =
     dupdate [] (List.map_filter (\<lambda>ev.
       if ev_type ev = ''agent_message_started'' then
         (case dget (ev_payload ev) ''message_id'' of PStr i \<Rightarrow> Some (i, ev) | _ \<Rightarrow> None)
       else None) persisted)"

definition message_deltas ::
  "(string \<Rightarrow> string) \<Rightarrow> string \<Rightarrow> (string \<times> run_event) list \<Rightarrow> agent_message \<Rightarrow> run_event list" where
  "message_deltas uuid5 run started_by m =
     (case map_of started_by (am_id m) of
        None \<Rightarrow> []
      | Some started \<Rightarrow>
          (if full_text m \<noteq> [] then [complete_delta uuid5 run started m ''text'' (full_text m)]
           else [])
          @ (case am_thinking m of None \<Rightarrow> []
             | Some t \<Rightarrow> if t = [] then []
                         else [complete_delta uuid5 run started m ''thinking'' t]))"

definition assistant_messages :: "'w events_env \<Rightarrow> string \<Rightarrow> 'w \<Rightarrow> agent_message list" where
  "assistant_messages env run w =
     filter (\<lambda>m. am_run m = run \<and> am_role m = ''assistant'') (ee_messages env w)"

definition inflight_deltas ::
  "'w events_env \<Rightarrow> string \<Rightarrow> string list \<Rightarrow> string \<times> run_event \<Rightarrow> ('w, run_event list) act" where
  "inflight_deltas env run completed p =
     (case p of (message_id, started) \<Rightarrow>
        if message_id \<in> set completed then returnA []
        else (case ev_node_id started of
                None \<Rightarrow> returnA []
              | Some node_id \<Rightarrow>
                  if node_id = [] then returnA []
                  else bindA (read_inflight_chunks env run message_id) (\<lambda>cs.
                    returnA (map (build_inflight_chunk_event (ee_uuid5 env) run (Some node_id)
                      (ev_sequence started) (ev_timestamp started) message_id
                      (iteration_id_from_event started)) cs))))"

definition synthesize_message_deltas ::
  "'w events_env \<Rightarrow> string \<Rightarrow> run_event list \<Rightarrow> bool \<Rightarrow> ('w, run_event list) act" where
  "synthesize_message_deltas env run persisted with_redis =
     (let started_by = started_by_message persisted
      in if started_by = [] then returnA []
         else bindA (readA (assistant_messages env run)) (\<lambda>messages.
           let completed = concat (map (message_deltas (ee_uuid5 env) run started_by) messages)
           in if with_redis then
                bindA (forA (inflight_deltas env run (map am_id messages)) started_by)
                  (\<lambda>chunks. returnA (completed @ concat chunks))
              else returnA completed))"

section \<open>Listing\<close>

definition persisted_events :: "'w events_env \<Rightarrow> string \<Rightarrow> 'w \<Rightarrow> run_event list" where
  "persisted_events env run w =
     sort_key ev_sequence (filter (\<lambda>e. ev_run e = run) (ee_events env w))"

definition require_run :: "'w events_env \<Rightarrow> string \<Rightarrow> ('w, flow_run) act" where
  "require_run env run =
     bindA (readA (\<lambda>w. List.find (\<lambda>r. fr_id r = run) (ee_runs env w))) (\<lambda>row.
       case row of None \<Rightarrow> raiseA (OtherError ''FlowRunNotFound'' run) | Some r \<Rightarrow> returnA r)"

definition select_events :: "int option \<Rightarrow> string option \<Rightarrow> run_event list \<Rightarrow> run_event list" where
  "select_events since iteration_id es =
     filter (\<lambda>e. (case since of None \<Rightarrow> True | Some n \<Rightarrow> n < ev_sequence e) \<and>
       (case iteration_id of None \<Rightarrow> True
        | Some i \<Rightarrow> dget (ev_payload e) ''iteration_id'' = PStr i)) es"

definition list_run_events ::
  "'w events_env \<Rightarrow> string \<Rightarrow> int option \<Rightarrow> bool \<Rightarrow> string option \<Rightarrow> ('w, run_event list) act" where
  "list_run_events env run since with_redis iteration_id =
     bindA (require_run env run) (\<lambda>_.
     bindA (readA (persisted_events env run)) (\<lambda>persisted.
     bindA (synthesize_message_deltas env run persisted with_redis) (\<lambda>synthesized.
       returnA (select_events since iteration_id
         (if synthesized = [] then persisted
          else sort_key ev_sequence (persisted @ synthesized))))))"

definition list_run_messages ::
  "'w events_env \<Rightarrow> string \<Rightarrow> string option \<Rightarrow> ('w, agent_message list) act" where
  "list_run_messages env run node_id =
     bindA (require_run env run) (\<lambda>_.
       readA (\<lambda>w. sort_key am_sequence (filter (\<lambda>m. am_run m = run \<and>
         (case node_id of None \<Rightarrow> True | Some n \<Rightarrow> am_node_id m = n)) (ee_messages env w))))"

section \<open>The snapshot of a new subscriber\<close>

definition serialize_synthetic_frame ::
  "string \<Rightarrow> string \<Rightarrow> int \<Rightarrow> string \<Rightarrow> string \<Rightarrow> string \<Rightarrow> pydict \<Rightarrow> pydict" where
  "serialize_synthetic_frame run node_id sequence timestamp event_type event_id payload =
     [(''id'', PStr event_id), (''flow_run_id'', PStr run), (''sequence'', PInt sequence),
      (''timestamp'', PStr timestamp), (''event_type'', PStr event_type),
      (''node_id'', PStr node_id), (''payload'', PDict payload)]"

definition chunk_frame ::
  "(string \<Rightarrow> string) \<Rightarrow> string \<Rightarrow> string \<Rightarrow> int \<Rightarrow> string \<Rightarrow> string \<Rightarrow> string option \<Rightarrow> chunk
   \<Rightarrow> pydict" where
  "chunk_frame uuid5 run node_id started_seq timestamp message_id tag c =
     serialize_synthetic_frame run node_id (started_seq + int (ck_offset c)) timestamp
       (delta_type (ck_kind c)) (delta_event_id uuid5 message_id (ck_kind c) (ck_index c))
       (chunk_payload message_id tag c)"

fun int_value :: "pyval \<Rightarrow> int option" where
  "int_value (PInt n) = Some n"
| "int_value (PBool b) = Some (if b then 1 else 0)"
| "int_value _ = None"

definition str_value :: "pyval \<Rightarrow> string option" where
  "str_value v = (case v of PStr s \<Rightarrow> Some s | _ \<Rightarrow> None)"

definition frames_of_meta ::
  "'w events_env \<Rightarrow> string \<Rightarrow> string \<Rightarrow> pydict \<Rightarrow> ('w, pydict list) act" where
  "frames_of_meta env run key meta =
     (case (str_value (dget meta ''message_id''), int_value (dget meta ''started_seq'')) of
        (Some message_id, Some started_seq) \<Rightarrow>
          let node_id = (case str_value (dget meta ''node_id'') of Some n \<Rightarrow> n
                | None \<Rightarrow> last (split_on (CHR '':'') key))
          in bindA (read_inflight_chunks env run message_id) (\<lambda>cs.
             forA (\<lambda>c.
               bindA (case str_value (dget meta ''timestamp'') of
                        Some t \<Rightarrow> returnA t | None \<Rightarrow> ee_clock env) (\<lambda>timestamp.
                 returnA (chunk_frame (ee_uuid5 env) run node_id started_seq timestamp message_id
                   (str_value (dget meta ''iteration_id'')) c))) cs)
      | _ \<Rightarrow> returnA [])"

definition frames_of_key :: "'w events_env \<Rightarrow> string \<Rightarrow> string \<Rightarrow> ('w, pydict list) act" where
  "frames_of_key env run key =
     bindA (ee_get env key) (\<lambda>raw.
       case Option.bind raw json_loads of
         None \<Rightarrow> returnA []
       | Some (PDict meta) \<Rightarrow> frames_of_meta env run key meta
       | Some _ \<Rightarrow> raiseA attribute_error)"

definition build_run_stream_snapshot :: "'w events_env \<Rightarrow> string \<Rightarrow> ('w, pydict list) act" where
  "build_run_stream_snapshot env run =
     bindA (ee_scan env (inflight_meta_key run ''*'')) (\<lambda>keys.
     bindA (forA (frames_of_key env run) keys) (\<lambda>frames. returnA (concat frames)))"

section \<open>Chunks keep their identity\<close>

lemma read_chunks_Cons:
  assumes "read_chunks index counts (entry # rest) = Inr cs"
  obtains (skip) "read_chunks (Suc index) counts rest = Inr cs"
  | (take) kind body cs' where
      "read_chunks (Suc index) (counts(kind := Suc (counts kind))) rest = Inr cs'"
      and "cs = \<lparr>ck_kind = kind, ck_text = body, ck_index = counts kind, ck_offset = Suc index\<rparr> # cs'"
  using assms by (auto split: sum.splits option.splits simp: result_simps)

lemma read_chunks_offsets:
  assumes "read_chunks index counts raw = Inr cs"
  shows "sorted_wrt (<) (map ck_offset cs) \<and>
    (\<forall>c \<in> set cs. index < ck_offset c \<and> ck_offset c \<le> index + length raw)"
  using assms
proof (induction raw arbitrary: index counts cs)
  case Nil
  then show ?case by simp
next
  case (Cons entry rest)
  from Cons.prems show ?case
    by (cases rule: read_chunks_Cons) (fastforce dest: Cons.IH)+
qed

lemma read_chunks_indices:
  assumes "read_chunks index counts raw = Inr cs"
  shows "(\<forall>c \<in> set cs. counts (ck_kind c) \<le> ck_index c) \<and>
    distinct (map (\<lambda>c. (ck_kind c, ck_index c)) cs)"
  using assms
proof (induction raw arbitrary: index counts cs)
  case Nil
  then show ?case by simp
next
  case (Cons entry rest)
  from Cons.prems show ?case
  proof (cases rule: read_chunks_Cons)
    case skip
    then show ?thesis by (rule Cons.IH)
  next
    case (take kind body cs')
    have ih: "(counts(kind := Suc (counts kind))) (ck_kind c) \<le> ck_index c" if "c \<in> set cs'" for c
      using Cons.IH [OF take(1)] that by blast
    have "counts (ck_kind c) \<le> ck_index c" if "c \<in> set cs'" for c
      using ih [OF that] by (auto split: if_splits)
    moreover have "(ck_kind c, ck_index c) \<noteq> (kind, counts kind)" if "c \<in> set cs'" for c
      using ih [OF that] by auto
    ultimately show ?thesis using Cons.IH [OF take(1)] take(2) by auto
  qed
qed

text \<open>
  The chunks read from a stream cache are told apart by kind and index, so that
  the deterministic ids under which clients remove duplicates are as distinct as \<open>uuid5\<close>
  makes them; their sequences increase in the order of the cache and stay within its length.
\<close>

theorem inflight_chunks_distinct:
  assumes "read_inflight_chunks env run message_id w = Some (Inr cs, w')"
  shows "distinct (map (\<lambda>c. (ck_kind c, ck_index c)) cs) \<and>
    sorted_wrt (<) (map ck_offset cs) \<and> (\<forall>c \<in> set cs. 0 < ck_offset c) \<and>
    (\<exists>raw. ee_lrange env (stream_key run message_id) w = Some (Inr raw, w') \<and>
       (\<forall>c \<in> set cs. ck_offset c \<le> length raw))"
proof -
  from assms obtain raw where "ee_lrange env (stream_key run message_id) w = Some (Inr raw, w')"
    and "read_chunks 0 (\<lambda>_. 0) raw = Inr cs"
    by (auto simp: read_inflight_chunks_def bindA_Some liftR_def)
  then show ?thesis
    using read_chunks_offsets [of 0 "\<lambda>_. 0" raw cs] read_chunks_indices [of 0 "\<lambda>_. 0" raw cs]
    by auto
qed

section \<open>Snapshot and history agree\<close>

text \<open>
  A chunk of a streaming message is the same event whether a client reads it
  from the event list or gets it as a snapshot frame: the frame is the published form of the
  synthetic event, with the same id, sequence and payload.
\<close>

theorem snapshot_frame_is_event:
  "chunk_frame uuid5 run node_id started_seq timestamp message_id tag c =
     event_message (build_inflight_chunk_event uuid5 run (Some node_id) started_seq timestamp
       message_id tag c)"
  by (simp add: chunk_frame_def serialize_synthetic_frame_def event_message_def
      build_inflight_chunk_event_def build_synthetic_event_def delta_event_id_def)

section \<open>The listing is complete\<close>

lemma synthesize_completed:
  assumes "synthesize_message_deltas env run persisted with_redis w = Some (Inr es, w')"
    and "started_by_message persisted \<noteq> []" and "m \<in> set (assistant_messages env run w)"
  shows "set (message_deltas (ee_uuid5 env) run (started_by_message persisted) m) \<subseteq> set es"
  using assms
  by (fastforce simp: synthesize_message_deltas_def Let_def bindA_Some readA_def returnA_def
      split: if_splits)


section \<open>Samples\<close>

record timeline =
  tl_runs :: "flow_run list"
  tl_events :: "run_event list"
  tl_messages :: "agent_message list"
  tl_streams :: "(string \<times> jtext list) list"

definition sample_events_env :: "timeline events_env" where
  "sample_events_env =
     \<lparr>ee_uuid5 = (\<lambda>k. k), ee_runs = tl_runs, ee_events = tl_events, ee_messages = tl_messages,
      ee_lrange = (\<lambda>k. readA (\<lambda>w. case map_of (tl_streams w) k of None \<Rightarrow> [] | Some l \<Rightarrow> l)),
      ee_get = (\<lambda>_. returnA None), ee_scan = (\<lambda>_. returnA []), ee_clock = returnA ''t''\<rparr>"

definition sample_started :: "int \<Rightarrow> string \<Rightarrow> run_event" where
  "sample_started n message_id =
     \<lparr>ev_id = ''e'' @ int_str n, ev_run = ''r1'', ev_sequence = n, ev_timestamp = ''t'',
      ev_type = ''agent_message_started'', ev_node_id = Some ''n'',
      ev_payload = [(''message_id'', PStr message_id), (''iteration_id'', PStr ''i1'')]\<rparr>"

definition sample_timeline :: timeline where
  "sample_timeline =
     \<lparr>tl_runs = [\<lparr>fr_id = ''r1'', fr_flow_id = ''f1'', fr_status = Running, fr_trigger = [],
        fr_state = [], fr_created_at = None, fr_started_at = None, fr_completed_at = None,
        fr_cleared_at = None\<rparr>],
      tl_events = [sample_started 1 ''m1'', sample_started 5 ''m9''],
      tl_messages = [sample_message ''m1'' 1 ''assistant''
        [PDict [(''type'', PStr ''text''), (''text'', PStr ''hello'')]]],
      tl_streams = [(stream_key ''r1'' ''m9'',
        [Json (PDict [(''kind'', PStr ''text''), (''text'', PStr ''a'')]), BadJson ''?'',
         Json (PDict [(''kind'', PStr ''thinking''), (''text'', PStr ''b'')]),
         Json (PDict [(''kind'', PStr ''text''), (''text'', PStr ''c'')])])]\<rparr>"

lemma sample_listing:
  "map_option (\<lambda>(r, _). map_sum id (map (\<lambda>e. (ev_sequence e, ev_id e))) r)
     (list_run_events sample_events_env ''r1'' None True None sample_timeline)
   = Some (Inr [(1, ''e1''), (2, ''text-delta:m1''), (5, ''e5''), (6, ''delta:m9:text:0''),
       (8, ''delta:m9:thinking:0''), (9, ''delta:m9:text:1'')])"
  by code_simp

lemma sample_chunks:
  "map_option (\<lambda>(r, _). map_sum id (map (\<lambda>c. (ck_kind c, ck_index c, ck_offset c))) r)
     (read_inflight_chunks sample_events_env ''r1'' ''m9'' sample_timeline)
   = Some (Inr [(''text'', 0, 1), (''thinking'', 0, 3), (''text'', 1, 4)])"
  by code_simp

theorem inflight_chunks_distinct_witness:
  "\<exists>cs w'. read_inflight_chunks sample_events_env ''r1'' ''m9'' sample_timeline = Some (Inr cs, w') \<and>
     length cs = 3 \<and> distinct (map (\<lambda>c. (ck_kind c, ck_index c)) cs)"
proof -
  obtain r w' where r: "read_inflight_chunks sample_events_env ''r1'' ''m9'' sample_timeline
      = Some (r, w')"
    using sample_chunks by auto
  with sample_chunks obtain cs where cs: "r = Inr cs" by (cases r) auto
  with r sample_chunks have "map (\<lambda>c. (ck_kind c, ck_index c, ck_offset c)) cs
      = [(''text'', 0, 1), (''thinking'', 0, 3), (''text'', 1, 4)]"
    by simp
  then have "length cs = 3" using arg_cong [of _ _ length] by fastforce
  then show ?thesis using r cs inflight_chunks_distinct [OF r [unfolded cs]] by blast
qed


end
