(* ===== verification/FlowService.thy ===== *)
theory FlowService
  imports RunEvents
begin

text \<open>
  The tables of flows, runs, events and messages and the functions of luna_core/services/flow.py
  that change them.  A function is one transaction on the four tables.  What the schema of the
  database adds is written out: the unique name of a flow, primary keys, columns that may not be
  null, foreign keys with their cascade.  New ids, the time and pydantic's validation of a
  definition are arguments.
\<close>

record flow_row =
  fl_id :: string
  fl_name :: string
  fl_description :: string
  fl_definition :: pydict
  fl_is_active :: bool
  fl_created_at :: string
  fl_updated_at :: string

record flow_create =
  fc_name :: string
  fc_description :: string
  fc_definition :: pydict
  fc_is_active :: bool

text \<open>A field of an update is unset, set to null, or set to a value.\<close>

record flow_update =
  fu_description :: "string option option"
  fu_definition :: "pydict option option"
  fu_is_active :: "bool option option"

record flow_db =
  db_flows :: "flow_row list"
  db_runs :: "flow_run list"
  db_events :: "run_event list"
  db_messages :: "agent_message list"

datatype flow_error =
    FlowNotFound string
  | FlowRunNotFound string
  | DuplicateFlow string
  | FlowInactive string
  | FlowInputErrors "(string \<times> string) list"
  | RunNotTerminal string
  | InvalidDefinition exn
  | IntegrityViolation

type_synonym 'a flow_tx = "(flow_error + 'a) \<times> flow_db"

section \<open>Flows\<close>

definition find_flow :: "flow_db \<Rightarrow> string \<Rightarrow> flow_row option" where
  "find_flow db flow_id = List.find (\<lambda>f. fl_id f = flow_id) (db_flows db)"

definition create_flow :: "string \<Rightarrow> string \<Rightarrow> string \<Rightarrow> flow_create \<Rightarrow> flow_db \<Rightarrow> flow_row flow_tx" where
  "create_flow new_id now user payload db =
     (let row = \<lparr>fl_id = new_id, fl_name = fc_name payload,
            fl_description = fc_description payload,
            fl_definition = stamp_schedule_owner (fc_definition payload) user,
            fl_is_active = fc_is_active payload, fl_created_at = now, fl_updated_at = now\<rparr>
      in if fc_name payload \<in> fl_name ` set (db_flows db) \<or> new_id \<in> fl_id ` set (db_flows db)
         then (Inl (DuplicateFlow (fc_name payload)), db)
         else (Inr row, db\<lparr>db_flows := db_flows db @ [row]\<rparr>))"

definition set_column :: "'a option option \<Rightarrow> ('a \<Rightarrow> 'r \<Rightarrow> 'r) \<Rightarrow> 'r \<Rightarrow> 'r option" where
  "set_column change put row =
     (case change of None \<Rightarrow> Some row | Some None \<Rightarrow> None | Some (Some v) \<Rightarrow> Some (put v row))"

definition replace_flow :: "flow_row \<Rightarrow> flow_db \<Rightarrow> flow_db" where
  "replace_flow row db =
     db\<lparr>db_flows := map (\<lambda>f. if fl_id f = fl_id row then row else f) (db_flows db)\<rparr>"

definition update_flow ::
  "(pydict \<Rightarrow> exn + pydict) \<Rightarrow> string \<Rightarrow> string \<Rightarrow> string \<Rightarrow> flow_update \<Rightarrow> flow_db
   \<Rightarrow> flow_row flow_tx" where
  "update_flow validate now user flow_id payload db =
     (case find_flow db flow_id of
        None \<Rightarrow> (Inl (FlowNotFound flow_id), db)
      | Some row \<Rightarrow>
          (case (case fu_definition payload of Some (Some d) \<Rightarrow> validate d | _ \<Rightarrow> Inr []) of
             Inl e \<Rightarrow> (Inl (InvalidDefinition e), db)
           | Inr incoming \<Rightarrow>
               let changed =
                 Option.bind (set_column (map_option (map_option (\<lambda>_. incoming)) (fu_definition payload))
                   (\<lambda>d f. f\<lparr>fl_definition := updated_definition (fl_definition f) d user\<rparr>) row) (\<lambda>f.
                 Option.bind (set_column (fu_description payload)
                   (\<lambda>d f. f\<lparr>fl_description := d\<rparr>) f) (\<lambda>f.
                 set_column (fu_is_active payload) (\<lambda>b f. f\<lparr>fl_is_active := b\<rparr>) f))
               in (case changed of
                     None \<Rightarrow> (Inl IntegrityViolation, db)
                   | Some f \<Rightarrow> (Inr (f\<lparr>fl_updated_at := now\<rparr>),
                       replace_flow (f\<lparr>fl_updated_at := now\<rparr>) db))))"

definition run_ids_of :: "string \<Rightarrow> flow_db \<Rightarrow> string set" where
  "run_ids_of flow_id db = fr_id ` {r \<in> set (db_runs db). fr_flow_id r = flow_id}"

text \<open>\<open>DELETE\<close> with the cascades to the runs of the flow and on to their events and messages.\<close>

definition delete_flow :: "string \<Rightarrow> flow_db \<Rightarrow> unit flow_tx" where
  "delete_flow flow_id db =
     (case find_flow db flow_id of
        None \<Rightarrow> (Inl (FlowNotFound flow_id), db)
      | Some row \<Rightarrow>
          (let gone = map fr_id (filter (\<lambda>r. fr_flow_id r = flow_id) (db_runs db))
           in (Inr (), db\<lparr>
             db_flows := filter (\<lambda>f. fl_id f \<noteq> flow_id) (db_flows db),
             db_runs := filter (\<lambda>r. fr_flow_id r \<noteq> flow_id) (db_runs db),
             db_events := filter (\<lambda>e. ev_run e \<notin> set gone) (db_events db),
             db_messages := filter (\<lambda>m. am_run m \<notin> set gone) (db_messages db)\<rparr>)))"

section \<open>Runs\<close>

definition find_run :: "flow_db \<Rightarrow> string \<Rightarrow> flow_run option" where
  "find_run db run_id = List.find (\<lambda>r. fr_id r = run_id) (db_runs db)"

definition new_run :: "string \<Rightarrow> string \<Rightarrow> string \<Rightarrow> pydict \<Rightarrow> flow_run" where
  "new_run new_id now flow_id trigger =
     \<lparr>fr_id = new_id, fr_flow_id = flow_id, fr_status = Pending, fr_trigger = trigger,
      fr_state = [], fr_created_at = Some now, fr_started_at = None, fr_completed_at = None,
      fr_cleared_at = None\<rparr>"

definition create_flow_run ::
  "(pydict \<Rightarrow> exn + flow_definition) \<Rightarrow> string \<Rightarrow> string \<Rightarrow> string \<Rightarrow> pydict \<Rightarrow> flow_db
   \<Rightarrow> flow_run flow_tx" where
  "create_flow_run parse new_id now flow_id trigger db =
     (case find_flow db flow_id of
        None \<Rightarrow> (Inl (FlowNotFound flow_id), db)
      | Some f \<Rightarrow>
          if \<not> fl_is_active f then (Inl (FlowInactive flow_id), db)
          else (case parse (fl_definition f) of
            Inl e \<Rightarrow> (Inl (InvalidDefinition e), db)
          | Inr d \<Rightarrow>
              (case validate_flow_inputs (fd_inputs d) (dict_or_empty (dget trigger ''inputs'')) of
                 Inl errors \<Rightarrow> (Inl (FlowInputErrors errors), db)
               | Inr inputs \<Rightarrow>
                   let run = new_run new_id now flow_id (dset trigger ''inputs'' (PDict inputs))
                   in if new_id \<in> fr_id ` set (db_runs db) then (Inl IntegrityViolation, db)
                      else (Inr run, db\<lparr>db_runs := db_runs db @ [run]\<rparr>))))"

definition replace_run :: "flow_run \<Rightarrow> flow_db \<Rightarrow> flow_db" where
  "replace_run run db =
     db\<lparr>db_runs := map (\<lambda>r. if fr_id r = fr_id run then run else r) (db_runs db)\<rparr>"

definition set_status_tx ::
  "string \<Rightarrow> string \<Rightarrow> run_status \<Rightarrow> pydict option \<Rightarrow> flow_db \<Rightarrow> flow_run flow_tx" where
  "set_status_tx now run_id status state db =
     (case find_run db run_id of
        None \<Rightarrow> (Inl (FlowRunNotFound run_id), db)
      | Some r \<Rightarrow> (Inr (with_status status state now r),
                    replace_run (with_status status state now r) db))"

definition cleared_marker :: "string \<Rightarrow> string \<Rightarrow> string \<Rightarrow> run_event" where
  "cleared_marker new_id now run_id =
     \<lparr>ev_id = new_id, ev_run = run_id, ev_sequence = 1, ev_timestamp = now,
      ev_type = ''run_cleared'', ev_node_id = None, ev_payload = [(''cleared_at'', PStr now)]\<rparr>"

definition clear_run_data :: "string \<Rightarrow> string \<Rightarrow> string \<Rightarrow> flow_db \<Rightarrow> flow_run flow_tx" where
  "clear_run_data new_id now run_id db =
     (case find_run db run_id of
        None \<Rightarrow> (Inl (FlowRunNotFound run_id), db)
      | Some r \<Rightarrow>
          if fr_status r \<noteq> Completed \<and> fr_status r \<noteq> Failed then
            (Inl (RunNotTerminal run_id), db)
          else if fr_cleared_at r \<noteq> None then (Inr r, db)
          else (let r' = r\<lparr>fr_cleared_at := Some now\<rparr>
                in (Inr r', (replace_run r' db)\<lparr>
                  db_events := filter (\<lambda>e. ev_run e \<noteq> run_id) (db_events db)
                    @ [cleared_marker new_id now run_id],
                  db_messages := filter (\<lambda>m. am_run m \<noteq> run_id) (db_messages db)\<rparr>)))"

text \<open>What emitters add while a run is under way.\<close>

definition insert_event :: "run_event \<Rightarrow> flow_db \<Rightarrow> unit flow_tx" where
  "insert_event ev db =
     (if ev_run ev \<notin> fr_id ` set (db_runs db)
         \<or> (ev_run ev, ev_sequence ev) \<in> (\<lambda>e. (ev_run e, ev_sequence e)) ` set (db_events db)
      then (Inl IntegrityViolation, db)
      else (Inr (), db\<lparr>db_events := db_events db @ [ev]\<rparr>))"

definition insert_message :: "agent_message \<Rightarrow> flow_db \<Rightarrow> unit flow_tx" where
  "insert_message m db =
     (if am_run m \<notin> fr_id ` set (db_runs db)
         \<or> (am_run m, am_sequence m) \<in> (\<lambda>m. (am_run m, am_sequence m)) ` set (db_messages db)
      then (Inl IntegrityViolation, db)
      else (Inr (), db\<lparr>db_messages := db_messages db @ [m]\<rparr>))"

section \<open>The invariant of the tables\<close>

definition timestamps_ok :: "flow_run \<Rightarrow> bool" where
  "timestamps_ok r \<longleftrightarrow>
     (fr_status r = Completed \<or> fr_status r = Failed \<longrightarrow> fr_completed_at r \<noteq> None) \<and>
     (fr_status r = Running \<longrightarrow> fr_started_at r \<noteq> None)"

definition flow_db_ok :: "flow_db \<Rightarrow> bool" where
  "flow_db_ok db \<longleftrightarrow>
     distinct (map fl_id (db_flows db)) \<and> distinct (map fl_name (db_flows db)) \<and>
     distinct (map fr_id (db_runs db)) \<and>
     fr_flow_id ` set (db_runs db) \<subseteq> fl_id ` set (db_flows db) \<and>
     list_all timestamps_ok (db_runs db) \<and>
     ev_run ` set (db_events db) \<subseteq> fr_id ` set (db_runs db) \<and> sequences_unique (db_events db) \<and>
     am_run ` set (db_messages db) \<subseteq> fr_id ` set (db_runs db)"

definition empty_flow_db :: flow_db where
  "empty_flow_db = \<lparr>db_flows = [], db_runs = [], db_events = [], db_messages = []\<rparr>"

inductive flow_step :: "flow_db \<Rightarrow> flow_db \<Rightarrow> bool" where
  create: "create_flow i now user c db = (r, db') \<Longrightarrow> flow_step db db'"
| update: "update_flow validate now user f u db = (r, db') \<Longrightarrow> flow_step db db'"
| delete: "delete_flow f db = (r, db') \<Longrightarrow> flow_step db db'"
| trigger: "create_flow_run parse i now f t db = (r, db') \<Longrightarrow> flow_step db db'"
| status: "set_status_tx now i s st db = (r, db') \<Longrightarrow> flow_step db db'"
| clear: "clear_run_data e now i db = (r, db') \<Longrightarrow> flow_step db db'"
| event: "insert_event ev db = (r, db') \<Longrightarrow> flow_step db db'"
| message: "insert_message m db = (r, db') \<Longrightarrow> flow_step db db'"

inductive flow_reach :: "flow_db \<Rightarrow> bool" where
  start: "flow_reach empty_flow_db"
| step: "flow_reach db \<Longrightarrow> flow_step db db' \<Longrightarrow> flow_reach db'"

lemma find_flow_Some: "find_flow db i = Some f \<Longrightarrow> f \<in> set (db_flows db) \<and> fl_id f = i"
  by (auto simp: find_flow_def find_Some_iff)

lemma find_run_Some: "find_run db i = Some r \<Longrightarrow> r \<in> set (db_runs db) \<and> fr_id r = i"
  by (auto simp: find_run_def find_Some_iff)

lemma map_replace:
  assumes "distinct (map key xs)" and "x \<in> set xs" and "key y = key x" and "g y = g x"
  shows "map g (map (\<lambda>z. if key z = key y then y else z) xs) = map g xs"
proof (intro nth_equalityI)
  fix i
  assume "i < length (map g (map (\<lambda>z. if key z = key y then y else z) xs))"
  then have i: "i < length xs" by simp
  show "map g (map (\<lambda>z. if key z = key y then y else z) xs) ! i = map g xs ! i"
  proof (cases "key (xs ! i) = key y")
    case True
    then have "xs ! i = x"
      using assms(1-3) i by (metis distinct_map in_set_conv_nth inj_onD)
    with i True assms(4) show ?thesis by simp
  qed (use i in simp)
qed simp

lemma replace_sel [simp]:
  "db_runs (replace_flow f db) = db_runs db" "db_events (replace_flow f db) = db_events db"
  "db_messages (replace_flow f db) = db_messages db" "db_flows (replace_run r db) = db_flows db"
  "db_events (replace_run r db) = db_events db" "db_messages (replace_run r db) = db_messages db"
  by (simp_all add: replace_flow_def replace_run_def)

lemma replace_flow_ok:
  assumes "flow_db_ok db" and "f \<in> set (db_flows db)" and "fl_id f' = fl_id f"
    and "fl_name f' = fl_name f"
  shows "flow_db_ok (replace_flow f' db)"
proof -
  have d: "distinct (map fl_id (db_flows db))" using assms(1) by (simp add: flow_db_ok_def)
  have "map fl_id (db_flows (replace_flow f' db)) = map fl_id (db_flows db)"
    and "map fl_name (db_flows (replace_flow f' db)) = map fl_name (db_flows db)"
    using map_replace [OF d assms(2,3), of fl_id] map_replace [OF d assms(2,3), of fl_name] assms(3,4)
    unfolding replace_flow_def by simp_all
  moreover from this(1) have "fl_id ` set (db_flows (replace_flow f' db)) = fl_id ` set (db_flows db)"
    by (metis list.set_map)
  ultimately show ?thesis using assms(1) unfolding flow_db_ok_def by simp
qed

lemma replace_run_ok:
  assumes "flow_db_ok db" and "r \<in> set (db_runs db)" and "fr_id r' = fr_id r"
    and "fr_flow_id r' = fr_flow_id r" and "timestamps_ok r'"
  shows "flow_db_ok (replace_run r' db) \<and>
    fr_id ` set (db_runs (replace_run r' db)) = fr_id ` set (db_runs db)"
proof -
  have d: "distinct (map fr_id (db_runs db))" using assms(1) by (simp add: flow_db_ok_def)
  have e: "map fr_id (db_runs (replace_run r' db)) = map fr_id (db_runs db)"
    "map fr_flow_id (db_runs (replace_run r' db)) = map fr_flow_id (db_runs db)"
    using map_replace [OF d assms(2,3), of fr_id] map_replace [OF d assms(2,3), of fr_flow_id]
      assms(3,4)
    unfolding replace_run_def by simp_all
  then have "fr_id ` set (db_runs (replace_run r' db)) = fr_id ` set (db_runs db)"
    and "fr_flow_id ` set (db_runs (replace_run r' db)) = fr_flow_id ` set (db_runs db)"
    by (metis list.set_map)+
  moreover have "list_all timestamps_ok (db_runs (replace_run r' db))"
    using assms(1,5) by (auto simp: flow_db_ok_def replace_run_def list_all_iff)
  ultimately show ?thesis using assms(1) e(1) unfolding flow_db_ok_def by simp
qed

lemma with_status_keys [simp]:
  "fr_id (with_status st state now r) = fr_id r"
  "fr_flow_id (with_status st state now r) = fr_flow_id r"
  "fr_status (with_status st state now r) = st"
  by (auto simp: with_status_def Let_def split: option.splits)

lemma with_status_timestamps: "timestamps_ok (with_status st state now r)"
  by (auto simp: with_status_def Let_def timestamps_ok_def split: option.splits)

lemma create_flow_ok: "flow_db_ok db \<Longrightarrow> flow_db_ok (snd (create_flow i now user c db))"
  by (auto simp: create_flow_def Let_def flow_db_ok_def)

lemma set_column_keeps:
  "set_column c put row = Some row' \<Longrightarrow> (\<And>v r. g (put v r) = g r) \<Longrightarrow> g row' = g row"
  by (auto simp: set_column_def split: option.splits)

lemma update_flow_ok: "flow_db_ok db \<Longrightarrow> flow_db_ok (snd (update_flow validate now user i u db))"
proof -
  assume ok: "flow_db_ok db"
  show ?thesis
  proof (cases "snd (update_flow validate now user i u db) = db")
    case False
    then obtain row incoming f f1 f2 where row: "find_flow db i = Some row"
      and f1: "set_column (map_option (map_option (\<lambda>_. incoming)) (fu_definition u))
            (\<lambda>d f. f\<lparr>fl_definition := updated_definition (fl_definition f) d user\<rparr>) row = Some f1"
      and f2: "set_column (fu_description u) (\<lambda>d f. f\<lparr>fl_description := d\<rparr>) f1 = Some f2"
      and f3: "set_column (fu_is_active u) (\<lambda>b f. f\<lparr>fl_is_active := b\<rparr>) f2 = Some f"
      and eq: "snd (update_flow validate now user i u db) = replace_flow (f\<lparr>fl_updated_at := now\<rparr>) db"
      by (auto simp: update_flow_def Let_def bind_eq_Some_conv split: option.splits sum.splits)
    have "fl_id f = fl_id row" and "fl_name f = fl_name row"
      using set_column_keeps [OF f1, of fl_id] set_column_keeps [OF f2, of fl_id]
        set_column_keeps [OF f3, of fl_id] set_column_keeps [OF f1, of fl_name]
        set_column_keeps [OF f2, of fl_name] set_column_keeps [OF f3, of fl_name]
      by simp_all
    then show ?thesis
      unfolding eq using find_flow_Some [OF row] by (intro replace_flow_ok [OF ok]) auto
  qed (simp add: ok)
qed

lemma delete_flow_ok: "flow_db_ok db \<Longrightarrow> flow_db_ok (snd (delete_flow i db))"
proof -
  assume ok: "flow_db_ok db"
  show ?thesis
  proof (cases "find_flow db i")
    case None
    with ok show ?thesis by (simp add: delete_flow_def)
  next
    case (Some f)
    let ?kept = "filter (\<lambda>r. fr_flow_id r \<noteq> i) (db_runs db)"
    let ?gone = "map fr_id (filter (\<lambda>r. fr_flow_id r = i) (db_runs db))"
    have kept: "x \<in> fr_id ` set ?kept" if "x \<in> fr_id ` set (db_runs db)" "x \<notin> set ?gone" for x
      using that by auto
    have "fr_flow_id ` set ?kept \<subseteq> fl_id ` set (filter (\<lambda>f. fl_id f \<noteq> i) (db_flows db))"
    proof (rule image_subsetI)
      fix r assume r: "r \<in> set ?kept"
      then have "fr_flow_id r \<in> fl_id ` set (db_flows db)"
        using ok unfolding flow_db_ok_def by auto
      with r show "fr_flow_id r \<in> fl_id ` set (filter (\<lambda>f. fl_id f \<noteq> i) (db_flows db))" by auto
    qed
    moreover have "ev_run ` set (filter (\<lambda>e. ev_run e \<notin> set ?gone) (db_events db)) \<subseteq> fr_id ` set ?kept"
    proof (rule image_subsetI)
      fix e assume "e \<in> set (filter (\<lambda>e. ev_run e \<notin> set ?gone) (db_events db))"
      with ok have "ev_run e \<in> fr_id ` set (db_runs db)" and "ev_run e \<notin> set ?gone"
        unfolding flow_db_ok_def by auto
      then show "ev_run e \<in> fr_id ` set ?kept" by (rule kept)
    qed
    moreover have "am_run ` set (filter (\<lambda>m. am_run m \<notin> set ?gone) (db_messages db))
        \<subseteq> fr_id ` set ?kept"
    proof (rule image_subsetI)
      fix m assume "m \<in> set (filter (\<lambda>m. am_run m \<notin> set ?gone) (db_messages db))"
      with ok have "am_run m \<in> fr_id ` set (db_runs db)" and "am_run m \<notin> set ?gone"
        unfolding flow_db_ok_def by auto
      then show "am_run m \<in> fr_id ` set ?kept" by (rule kept)
    qed
    moreover have "list_all timestamps_ok (db_runs db)" using ok unfolding flow_db_ok_def by blast
    then have "list_all timestamps_ok ?kept" by (simp add: list_all_iff)
    moreover have "distinct (map fr_id ?kept)"
      and "distinct (map fl_id (filter (\<lambda>f. fl_id f \<noteq> i) (db_flows db)))"
      and "distinct (map fl_name (filter (\<lambda>f. fl_id f \<noteq> i) (db_flows db)))"
      and "sequences_unique (filter (\<lambda>e. ev_run e \<notin> set ?gone) (db_events db))"
      using ok unfolding flow_db_ok_def sequences_unique_def by (auto intro: distinct_map_filter)
    moreover have "snd (delete_flow i db) = db\<lparr>
        db_flows := filter (\<lambda>f. fl_id f \<noteq> i) (db_flows db), db_runs := ?kept,
        db_events := filter (\<lambda>e. ev_run e \<notin> set ?gone) (db_events db),
        db_messages := filter (\<lambda>m. am_run m \<notin> set ?gone) (db_messages db)\<rparr>"
      unfolding delete_flow_def Some by (simp add: Let_def)
    ultimately show ?thesis unfolding flow_db_ok_def by simp
  qed
qed

lemma create_flow_run_ok: "flow_db_ok db \<Longrightarrow> flow_db_ok (snd (create_flow_run parse i now f t db))"
  by (auto simp: create_flow_run_def Let_def flow_db_ok_def new_run_def timestamps_ok_def
      dest!: find_flow_Some split: option.splits sum.splits)

lemma set_status_ok: "flow_db_ok db \<Longrightarrow> flow_db_ok (snd (set_status_tx now i st state db))"
  by (auto simp: set_status_tx_def with_status_timestamps dest!: find_run_Some
      split: option.splits intro!: conjunct1 [OF replace_run_ok])

lemma insert_event_ok: "flow_db_ok db \<Longrightarrow> flow_db_ok (snd (insert_event ev db))"
  by (auto simp: insert_event_def flow_db_ok_def sequences_unique_def)

lemma insert_message_ok: "flow_db_ok db \<Longrightarrow> flow_db_ok (snd (insert_message m db))"
  by (auto simp: insert_message_def flow_db_ok_def)

lemma clear_run_data_ok: "flow_db_ok db \<Longrightarrow> flow_db_ok (snd (clear_run_data e now i db))"
proof -
  assume ok: "flow_db_ok db"
  show ?thesis
  proof (cases "snd (clear_run_data e now i db) = db")
    case False
    then obtain r where r: "find_run db i = Some r"
      and eq: "snd (clear_run_data e now i db) = (replace_run (r\<lparr>fr_cleared_at := Some now\<rparr>) db)\<lparr>
        db_events := filter (\<lambda>e. ev_run e \<noteq> i) (db_events db) @ [cleared_marker e now i],
        db_messages := filter (\<lambda>m. am_run m \<noteq> i) (db_messages db)\<rparr>"
      by (auto simp: clear_run_data_def Let_def split: option.splits if_splits)
    have m: "r \<in> set (db_runs db)" "fr_id r = i" using find_run_Some [OF r] by auto
    have "timestamps_ok (r\<lparr>fr_cleared_at := Some now\<rparr>)"
      using ok m(1) by (auto simp: flow_db_ok_def timestamps_ok_def list_all_iff)
    from replace_run_ok [OF ok m(1) _ _ this]
    have "flow_db_ok (replace_run (r\<lparr>fr_cleared_at := Some now\<rparr>) db)"
      and "fr_id ` set (db_runs (replace_run (r\<lparr>fr_cleared_at := Some now\<rparr>) db))
        = fr_id ` set (db_runs db)"
      by simp_all
    moreover have "i \<in> fr_id ` set (db_runs db)" using m by auto
    moreover have "sequences_unique (filter (\<lambda>e. ev_run e \<noteq> i) (db_events db)
        @ [cleared_marker e now i])"
      using ok by (auto simp: flow_db_ok_def sequences_unique_def cleared_marker_def
          distinct_map_filter)
    ultimately show ?thesis
      unfolding eq by (auto simp: flow_db_ok_def replace_run_def cleared_marker_def)
  qed (simp add: ok)
qed

lemmas flow_ops_ok = create_flow_ok update_flow_ok delete_flow_ok create_flow_run_ok set_status_ok
  clear_run_data_ok insert_event_ok insert_message_ok

lemma flow_step_ok: "flow_step db db' \<Longrightarrow> flow_db_ok db \<Longrightarrow> flow_db_ok db'"
  by (induction rule: flow_step.induct) (metis flow_ops_ok snd_conv)+

text \<open>
  C11 (invariant). Whatever requests and runs do, in any order and with any outcome: flows have
  distinct ids and names, runs have distinct ids and belong to a flow, events and messages
  belong to a run, no two events of a run have one sequence, and a run that is running has its
  start, one that is completed or failed its end.
\<close>

theorem flow_tables_invariant:
  assumes "flow_reach db"
  shows "flow_db_ok db"
  using assms
proof (induction rule: flow_reach.induct)
  case start
  then show ?case by (simp add: flow_db_ok_def empty_flow_db_def sequences_unique_def)
next
  case (step db db')
  then show ?case by (auto intro: flow_step_ok)
qed

definition sample_flow_db :: flow_db where
  "sample_flow_db =
     snd (create_flow ''f1'' ''t0'' ''u1''
       \<lparr>fc_name = ''daily'', fc_description = ''report'', fc_definition = [], fc_is_active = True\<rparr>
       empty_flow_db)"

definition sample_started_db :: flow_db where
  "sample_started_db =
     snd (set_status_tx ''t2'' ''r1'' Running None
       (snd (create_flow_run (\<lambda>_. Inr sample_definition) ''r1'' ''t1'' ''f1'' [] sample_flow_db)))"

lemma sample_started_reach: "flow_reach sample_started_db"
  unfolding sample_started_db_def sample_flow_db_def
  by (intro flow_reach.step [OF _ flow_step.status [OF prod.collapse [symmetric]]]
      flow_reach.step [OF _ flow_step.trigger [OF prod.collapse [symmetric]]]
      flow_reach.step [OF _ flow_step.create [OF prod.collapse [symmetric]]] flow_reach.start)

lemma sample_started_run: "map fr_started_at (db_runs sample_started_db) = [Some ''t2'']"
  by code_simp

theorem flow_tables_invariant_witness:
  "map fr_started_at (db_runs sample_started_db) = [Some ''t2''] \<and> flow_db_ok sample_started_db"
  using flow_tables_invariant [OF sample_started_reach] sample_started_run by simp

text \<open>
  Clearing a finished run keeps its row, marked as cleared, and leaves of its
  timeline one marker; the events and messages of other runs stay, and clearing again changes
  nothing.
\<close>

theorem clear_run_data_effect:
  assumes "clear_run_data i now run db = (Inr r, db')"
    and "fr_cleared_at r = Some now" and "find_run db run \<noteq> Some r"
  shows "filter (\<lambda>e. ev_run e = run) (db_events db') = [cleared_marker i now run] \<and>
    filter (\<lambda>m. am_run m = run) (db_messages db') = [] \<and>
    filter (\<lambda>e. ev_run e \<noteq> run) (db_events db') = filter (\<lambda>e. ev_run e \<noteq> run) (db_events db) \<and>
    filter (\<lambda>m. am_run m \<noteq> run) (db_messages db') = filter (\<lambda>m. am_run m \<noteq> run) (db_messages db) \<and>
    clear_run_data i' now' run db' = (Inr r, db')"
proof -
  from assms obtain r0 where r0: "find_run db run = Some r0" "r = r0\<lparr>fr_cleared_at := Some now\<rparr>"
    "fr_status r0 = Completed \<or> fr_status r0 = Failed"
    and db': "db' = (replace_run r db)\<lparr>
        db_events := filter (\<lambda>e. ev_run e \<noteq> run) (db_events db) @ [cleared_marker i now run],
        db_messages := filter (\<lambda>m. am_run m \<noteq> run) (db_messages db)\<rparr>"
    by (auto simp: clear_run_data_def Let_def split: option.splits if_splits)
  have "find_run db' run = Some r"
    using r0(1,2) unfolding find_run_def db' replace_run_def
    by (auto simp: find_Some_iff)
  then have "clear_run_data i' now' run db' = (Inr r, db')"
    using r0(2,3) by (auto simp: clear_run_data_def)
  then show ?thesis by (simp add: db' cleared_marker_def)
qed

definition sample_finished_db :: flow_db where
  "sample_finished_db =
     snd (insert_event (cleared_marker ''e1'' ''t3'' ''r1'')
       (snd (set_status_tx ''t3'' ''r1'' Completed None sample_started_db)))"

definition sample_cleared :: "(flow_error + flow_run) \<times> flow_db" where
  "sample_cleared = clear_run_data ''e2'' ''t9'' ''r1'' sample_finished_db"

lemma sample_cleared_facts:
  "map_option fr_cleared_at (find_run sample_finished_db ''r1'') = Some None"
  "db_events sample_finished_db \<noteq> []"
  "fst sample_cleared = Inr (projr (fst sample_cleared))"
  "fr_cleared_at (projr (fst sample_cleared)) = Some ''t9''"
  by code_simp+

theorem clear_run_data_effect_witness:
  "\<exists>r db'. clear_run_data ''e2'' ''t9'' ''r1'' sample_finished_db = (Inr r, db') \<and>
     db_events sample_finished_db \<noteq> [] \<and>
     filter (\<lambda>e. ev_run e = ''r1'') (db_events db') = [cleared_marker ''e2'' ''t9'' ''r1''] \<and>
     clear_run_data ''e3'' ''t10'' ''r1'' db' = (Inr r, db')"
proof -
  have c: "clear_run_data ''e2'' ''t9'' ''r1'' sample_finished_db
      = (Inr (projr (fst sample_cleared)), snd sample_cleared)"
    using sample_cleared_facts(3) by (metis prod.collapse sample_cleared_def)
  have "find_run sample_finished_db ''r1'' \<noteq> Some (projr (fst sample_cleared))"
    using sample_cleared_facts(1,4) by auto
  from clear_run_data_effect [OF c sample_cleared_facts(4) this] c sample_cleared_facts(2)
  show ?thesis by blast
qed

end
