(* ===== verification/TurnLock.thy ===== *)
theory TurnLock
  imports Redis
begin

text \<open>
  The turn lock of a conversation (luna_core/services/turn_lock.py): one turn at a time per
  conversation, and the listing of the locks one user holds.

  \<open>conversation_turn\<close> waits at every Redis command, so the turns of several processes are
  interleaved command by command: a turn is its local variables and the command it runs next.
  \<open>turn_do\<close> runs one command of one turn, lets time pass, or ends a process in the middle of a
  turn; the keyspace is the one of theory Redis, where a key is gone at its deadline.
\<close>

definition turn_lock_key :: "string \<Rightarrow> string" where
  "turn_lock_key conversation = ''conversation_turn_lock:'' @ conversation"

definition user_turns_key :: "string \<Rightarrow> string" where
  "user_turns_key owner = ''user_turns:'' @ owner"

section \<open>One turn\<close>

record turn =
  tn_conversation :: string
  tn_owner :: "string option"
  tn_token :: string
  tn_ttl :: nat
  tn_acquired :: bool

text \<open>The command a turn runs next; \<open>InTurn\<close> is the body of the context manager.\<close>

datatype turn_phase = Listing | Expiring | InTurn | Unlisting | Checking | Releasing | Finished

definition listed :: "turn \<Rightarrow> bool" where
  "listed t \<longleftrightarrow> tn_acquired t \<and> tn_owner t \<noteq> None"

definition listing_of :: "turn \<Rightarrow> string" where
  "listing_of t = user_turns_key (case tn_owner t of None \<Rightarrow> [] | Some u \<Rightarrow> u)"

definition lock_of :: "turn \<Rightarrow> string" where
  "lock_of t = turn_lock_key (tn_conversation t)"

definition enter_turn ::
  "('r, string) redis \<Rightarrow> string \<Rightarrow> string option \<Rightarrow> string \<Rightarrow> nat \<Rightarrow> 'r \<Rightarrow> (turn \<times> turn_phase) \<times> 'r" where
  "enter_turn R conversation owner token ttl s =
     (let (acquired, s') = r_set_nx R (turn_lock_key conversation) token ttl s;
          t = \<lparr>tn_conversation = conversation, tn_owner = owner, tn_token = token, tn_ttl = ttl,
               tn_acquired = acquired\<rparr>
      in ((t, if listed t then Listing else InTurn), s'))"

fun turn_next :: "('r, string) redis \<Rightarrow> turn \<Rightarrow> turn_phase \<Rightarrow> 'r \<Rightarrow> turn_phase \<times> 'r" where
  "turn_next R t Listing s = (Expiring, r_sadd R (listing_of t) [lock_of t] s)"
| "turn_next R t Expiring s = (InTurn, r_expire R (listing_of t) (tn_ttl t) s)"
| "turn_next R t InTurn s = (if listed t then Unlisting else Checking, s)"
| "turn_next R t Unlisting s = (Checking, r_srem R (listing_of t) (lock_of t) s)"
| "turn_next R t Checking s =
     (if tn_acquired t \<and> r_get R (lock_of t) s = Some (tn_token t) then Releasing else Finished, s)"
| "turn_next R t Releasing s = (Finished, snd (r_delete R [lock_of t] s))"
| "turn_next R t Finished s = (Finished, s)"

section \<open>Counting the turns of a user\<close>

fun count_live :: "('r, 'v) redis \<Rightarrow> string \<Rightarrow> string list \<Rightarrow> 'r \<Rightarrow> nat \<times> 'r" where
  "count_live R listing [] s = (0, s)"
| "count_live R listing (key # keys) s =
     (if r_exists R key s then (let (n, s') = count_live R listing keys s in (Suc n, s'))
      else count_live R listing keys (r_srem R listing key s))"

definition active_turns :: "('r, 'v) redis \<Rightarrow> string \<Rightarrow> 'r \<Rightarrow> nat \<times> 'r" where
  "active_turns R owner s =
     count_live R (user_turns_key owner) (r_smembers R (user_turns_key owner) s) s"

section \<open>Turns side by side\<close>

record turn_world =
  tw_turns :: "(turn \<times> turn_phase) list"
  tw_redis :: "string keyspace"

datatype turn_command =
    Enter string "string option" string nat
  | Next nat
  | Tick nat
  | Crash nat

fun turn_do :: "turn_command \<Rightarrow> turn_world \<Rightarrow> turn_world" where
  "turn_do (Enter conversation owner token ttl) w =
     (let (t, s) = enter_turn keyspace_ops conversation owner token ttl (tw_redis w)
      in \<lparr>tw_turns = tw_turns w @ [t], tw_redis = s\<rparr>)"
| "turn_do (Next i) w =
     (let (t, p) = tw_turns w ! i; (p', s) = turn_next keyspace_ops t p (tw_redis w)
      in \<lparr>tw_turns = (tw_turns w)[i := (t, p')], tw_redis = s\<rparr>)"
| "turn_do (Tick n) w = w\<lparr>tw_redis := ks_advance n (tw_redis w)\<rparr>"
| "turn_do (Crash i) w = w\<lparr>tw_turns := (tw_turns w)[i := (fst (tw_turns w ! i), Finished)]\<rparr>"

text \<open>An unfinished turn that took the lock still has it.\<close>

definition holds :: "string keyspace \<Rightarrow> turn \<times> turn_phase \<Rightarrow> bool" where
  "holds s tp \<longleftrightarrow> (tn_acquired (fst tp) \<longrightarrow> snd tp \<noteq> Finished \<longrightarrow>
     ks_get (lock_of (fst tp)) s = Some (tn_token (fst tp)))"

text \<open>
  Tokens are fresh and a time to live is positive, as Redis demands.  \<open>in_time\<close> says that time
  passes only as long as no unfinished turn outlives its lock.
\<close>

fun allowed :: "bool \<Rightarrow> turn_command \<Rightarrow> turn_world \<Rightarrow> bool" where
  "allowed in_time (Enter conversation owner token ttl) w \<longleftrightarrow>
     0 < ttl \<and> token \<notin> (tn_token \<circ> fst) ` set (tw_turns w)"
| "allowed in_time (Next i) w \<longleftrightarrow> i < length (tw_turns w)"
| "allowed in_time (Tick n) w \<longleftrightarrow>
     (in_time \<longrightarrow> list_all (holds (ks_advance n (tw_redis w))) (tw_turns w))"
| "allowed in_time (Crash i) w \<longleftrightarrow> i < length (tw_turns w)"

definition no_turns :: turn_world where
  "no_turns = \<lparr>tw_turns = [], tw_redis = empty_keyspace\<rparr>"

inductive turn_reach :: "bool \<Rightarrow> turn_world \<Rightarrow> bool" for in_time where
  start: "turn_reach in_time no_turns"
| step: "turn_reach in_time w \<Longrightarrow> allowed in_time c w \<Longrightarrow> turn_reach in_time (turn_do c w)"

fun turns_run :: "bool \<Rightarrow> turn_command list \<Rightarrow> turn_world \<Rightarrow> turn_world option" where
  "turns_run in_time [] w = Some w"
| "turns_run in_time (c # cs) w =
     (if allowed in_time c w then turns_run in_time cs (turn_do c w) else None)"

lemma turns_run_reach: "turn_reach b w \<Longrightarrow> turns_run b cs w = Some w' \<Longrightarrow> turn_reach b w'"
  by (induction cs arbitrary: w) (auto intro: turn_reach.step split: if_splits)

section \<open>Exclusion\<close>

lemma lock_key_inject [simp]: "turn_lock_key c = turn_lock_key c' \<longleftrightarrow> c = c'"
  by (simp add: turn_lock_key_def)

lemma ks_get_sets [simp]: "ks_get k (s\<lparr>ks_sets := v\<rparr>) = ks_get k s"
  by (auto simp: ks_get_def split: option.split)

lemma ks_get_sadd [simp]: "ks_get k (ks_sadd k' xs s) = ks_get k s"
  by (simp add: ks_sadd_def Let_def)

lemma ks_get_srem [simp]: "ks_get k (ks_srem k' x s) = ks_get k s"
  by (simp add: ks_srem_def split: option.splits)

lemma keyspace_sel [simp]:
  "r_get keyspace_ops = ks_get" "r_set_nx keyspace_ops = ks_set_nx" "r_sadd keyspace_ops = ks_sadd"
  "r_srem keyspace_ops = ks_srem" "r_expire keyspace_ops = ks_expire"
  "r_delete keyspace_ops = ks_delete" "r_exists keyspace_ops = ks_exists"
  "r_smembers keyspace_ops = ks_smembers" "r_set keyspace_ops = ks_set"
  by (simp_all add: keyspace_ops_def)

text \<open>What a command of another turn does to a lock that is held.\<close>

lemma turn_next_get:
  assumes "0 < tn_ttl t" and "p = Releasing \<Longrightarrow> k \<noteq> lock_of t"
  shows "ks_get k (snd (turn_next keyspace_ops t p s)) = ks_get k s"
  using assms keyspace.get_expire [of "tn_ttl t" k "listing_of t" s]
    keyspace.get_delete [of k "[lock_of t]" s]
  by (cases p) auto

definition turns_ok :: "turn_world \<Rightarrow> bool" where
  "turns_ok w \<longleftrightarrow> distinct (map (tn_token \<circ> fst) (tw_turns w)) \<and>
     list_all (\<lambda>tp. 0 < tn_ttl (fst tp) \<and> (snd tp = Releasing \<longrightarrow> tn_acquired (fst tp))
       \<and> holds (tw_redis w) tp) (tw_turns w)"

lemma same_lock_same_turn:
  assumes "turns_ok w" and "i < length (tw_turns w)" and "j < length (tw_turns w)"
    and "tn_acquired (fst (tw_turns w ! i))" and "snd (tw_turns w ! i) \<noteq> Finished"
    and "tn_acquired (fst (tw_turns w ! j))" and "snd (tw_turns w ! j) \<noteq> Finished"
    and "lock_of (fst (tw_turns w ! i)) = lock_of (fst (tw_turns w ! j))"
  shows "i = j"
proof -
  have "holds (tw_redis w) (tw_turns w ! i)" and "holds (tw_redis w) (tw_turns w ! j)"
    using assms(1-3) by (auto simp: turns_ok_def list_all_length)
  then have "tn_token (fst (tw_turns w ! i)) = tn_token (fst (tw_turns w ! j))"
    using assms(4-8) by (auto simp: holds_def)
  moreover have "distinct (map (tn_token \<circ> fst) (tw_turns w))" using assms(1) by (simp add: turns_ok_def)
  ultimately show ?thesis
    using assms(2,3) nth_eq_iff_index_eq [of "map (tn_token \<circ> fst) (tw_turns w)" i j] by simp
qed

lemma turns_ok_enter:
  assumes "turns_ok w" and "allowed b (Enter c u k ttl) w"
  shows "turns_ok (turn_do (Enter c u k ttl) w)"
proof (cases "ks_exists (turn_lock_key c) (tw_redis w)")
  case True
  with assms show ?thesis
    by (auto simp: turns_ok_def enter_turn_def ks_set_nx_def listed_def holds_def list_all_iff)
next
  case False
  then have free: "ks_get (turn_lock_key c) (tw_redis w) = None" by (simp add: ks_exists_def)
  let ?s = "ks_set (turn_lock_key c) k ttl (tw_redis w)"
  let ?t = "\<lparr>tn_conversation = c, tn_owner = u, tn_token = k, tn_ttl = ttl, tn_acquired = True\<rparr>"
  have ttl: "0 < ttl" and new: "k \<notin> (tn_token \<circ> fst) ` set (tw_turns w)" using assms(2) by simp_all
  have get: "ks_get k' ?s = (if k' = turn_lock_key c then Some k else ks_get k' (tw_redis w))" for k'
    using keyspace.get_set [OF ttl, of k' "turn_lock_key c" k "tw_redis w"] by simp
  have "holds ?s tp" if "tp \<in> set (tw_turns w)" for tp
  proof -
    have "holds (tw_redis w) tp" using assms(1) that by (simp add: turns_ok_def list_all_iff)
    then show ?thesis using free by (auto simp: holds_def get)
  qed
  moreover have "holds ?s (?t, p)" for p by (simp add: holds_def get lock_of_def)
  moreover have eq: "turn_do (Enter c u k ttl) w = \<lparr>tw_turns = tw_turns w @
      [(?t, if listed ?t then Listing else InTurn)], tw_redis = ?s\<rparr>"
    using False by (simp add: enter_turn_def ks_set_nx_def)
  ultimately show ?thesis
    using assms(1) ttl new unfolding eq turns_ok_def by (auto simp: list_all_iff)
qed

lemma turns_ok_next:
  assumes "turns_ok w" and "i < length (tw_turns w)"
  shows "turns_ok (turn_do (Next i) w)"
proof -
  obtain t p where tp: "tw_turns w ! i = (t, p)" by fastforce
  obtain p' s where step: "turn_next keyspace_ops t p (tw_redis w) = (p', s)" by fastforce
  have ok: "0 < tn_ttl t" "p = Releasing \<longrightarrow> tn_acquired t" "holds (tw_redis w) (t, p)"
    using assms tp by (auto simp: turns_ok_def list_all_length)
  have kept: "holds s (tw_turns w ! j)" if j: "j < length (tw_turns w)" "j \<noteq> i" for j
  proof -
    have old: "holds (tw_redis w) (tw_turns w ! j)"
      using assms(1) j by (auto simp: turns_ok_def list_all_length)
    show ?thesis
      unfolding holds_def
    proof (intro impI)
      assume j': "tn_acquired (fst (tw_turns w ! j))" "snd (tw_turns w ! j) \<noteq> Finished"
      have "lock_of (fst (tw_turns w ! j)) \<noteq> lock_of t" if "p = Releasing"
        using same_lock_same_turn [OF assms(1,2) j(1)] tp ok j' j(2) that by fastforce
      from turn_next_get [OF ok(1) this, of p "tw_redis w"]
      have "ks_get (lock_of (fst (tw_turns w ! j))) s
          = ks_get (lock_of (fst (tw_turns w ! j))) (tw_redis w)"
        by (simp add: step)
      with old j' show "ks_get (lock_of (fst (tw_turns w ! j))) s = Some (tn_token (fst (tw_turns w ! j)))"
        by (simp add: holds_def)
    qed
  qed
  have "p' = Releasing \<longrightarrow> tn_acquired t"
    using step by (cases p) (auto split: if_splits)
  moreover have "holds s (t, p')"
  proof (cases "p = Releasing")
    case False
    then have "ks_get (lock_of t) s = ks_get (lock_of t) (tw_redis w)"
      using turn_next_get [OF ok(1), of p "lock_of t" "tw_redis w"] by (simp add: step)
    moreover have "p = Finished \<Longrightarrow> p' = Finished" using step by auto
    ultimately show ?thesis using ok(3) by (auto simp: holds_def)
  qed (use step in \<open>auto simp: holds_def\<close>)
  ultimately have entry: "0 < tn_ttl (fst (((tw_turns w)[i := (t, p')]) ! j)) \<and>
      (snd (((tw_turns w)[i := (t, p')]) ! j) = Releasing \<longrightarrow>
        tn_acquired (fst (((tw_turns w)[i := (t, p')]) ! j))) \<and>
      holds s (((tw_turns w)[i := (t, p')]) ! j)" if "j < length (tw_turns w)" for j
    using that kept [OF that] ok assms(1,2)
    by (cases "j = i") (auto simp: turns_ok_def list_all_length)
  have "map (tn_token \<circ> fst) ((tw_turns w)[i := (t, p')]) = map (tn_token \<circ> fst) (tw_turns w)"
    using assms(2) tp by (intro nth_equalityI) (auto simp: nth_list_update)
  then show ?thesis
    using assms(1) entry tp step by (simp add: turns_ok_def list_all_length Let_def)
qed

lemma turns_ok_crash:
  assumes "turns_ok w" and "i < length (tw_turns w)"
  shows "turns_ok (turn_do (Crash i) w)"
proof -
  have "map (tn_token \<circ> fst) ((tw_turns w)[i := (fst (tw_turns w ! i), Finished)])
      = map (tn_token \<circ> fst) (tw_turns w)"
    using assms(2) by (intro nth_equalityI) (auto simp: nth_list_update)
  with assms show ?thesis
    by (auto simp: turns_ok_def list_all_length nth_list_update holds_def)
qed

lemma turn_reach_ok: "turn_reach True w \<Longrightarrow> turns_ok w"
proof (induction rule: turn_reach.induct)
  case start
  then show ?case by (simp add: turns_ok_def no_turns_def)
next
  case (step w c)
  then show ?case
  proof (cases c)
    case (Tick n)
    with step show ?thesis by (auto simp: turns_ok_def list_all_iff)
  qed (use step turns_ok_enter turns_ok_next turns_ok_crash in auto)
qed

text \<open>
  C22 (safety). As long as no unfinished turn outlives its lock, two turns that took the lock of
  one conversation and have not finished are the same turn, in every interleaving of their
  commands, with any other turns, crashed processes and users.
\<close>

theorem turn_exclusive:
  assumes "turn_reach True w" and "(t, p) \<in> set (tw_turns w)" and "(t', p') \<in> set (tw_turns w)"
    and "tn_acquired t" and "tn_acquired t'" and "p \<noteq> Finished" and "p' \<noteq> Finished"
    and "tn_conversation t = tn_conversation t'"
  shows "t = t' \<and> p = p'"
proof -
  obtain i j where "i < length (tw_turns w)" "tw_turns w ! i = (t, p)"
    "j < length (tw_turns w)" "tw_turns w ! j = (t', p')"
    using assms(2,3) by (auto simp: in_set_conv_nth)
  with same_lock_same_turn [OF turn_reach_ok [OF assms(1)], of i j] assms(4-8) show ?thesis
    by (auto simp: lock_of_def)
qed

definition sample_turns :: "turn_command list" where
  "sample_turns = [Enter ''c1'' (Some ''u1'') ''t1'' 10, Next 0, Tick 3,
     Enter ''c1'' None ''t2'' 10, Next 0, Next 1]"

definition sample_turn_world :: turn_world where
  "sample_turn_world = the (turns_run True sample_turns no_turns)"

lemma sample_turns_reach: "turn_reach True sample_turn_world"
proof (rule turns_run_reach [OF turn_reach.start])
  show "turns_run True sample_turns no_turns = Some sample_turn_world" by code_simp
qed

lemma sample_turn_locks:
  "map (\<lambda>(t, p). (tn_acquired t, p)) (tw_turns sample_turn_world) = [(True, InTurn), (False, Checking)]"
  by code_simp

theorem turn_exclusive_witness:
  "\<exists>t p. (t, p) \<in> set (tw_turns sample_turn_world) \<and> tn_acquired t \<and> p = InTurn \<and>
     (\<forall>t' p'. (t', p') \<in> set (tw_turns sample_turn_world) \<and> tn_acquired t' \<and> p' \<noteq> Finished
        \<and> tn_conversation t' = tn_conversation t \<longrightarrow> t' = t)"
proof -
  obtain t p t' p' where "tw_turns sample_turn_world = [(t, p), (t', p')]"
    using sample_turn_locks by (auto simp: map_eq_Cons_conv)
  with sample_turn_locks have "(t, p) \<in> set (tw_turns sample_turn_world)" "tn_acquired t" "p = InTurn"
    by auto
  moreover from this have "t' = t" if "(t', p') \<in> set (tw_turns sample_turn_world)" "tn_acquired t'"
    "p' \<noteq> Finished" "tn_conversation t' = tn_conversation t" for t' p'
    using turn_exclusive [OF sample_turns_reach, of t' p' t p] that by simp
  ultimately show ?thesis by blast
qed

definition hidden_turn :: "turn_command list" where
  "hidden_turn = [Enter ''c1'' (Some ''u1'') ''t1'' 10, Next 0, Next 0, Tick 11,
     Enter ''c1'' (Some ''u1'') ''t2'' 10, Next 1, Next 1, Next 0, Next 0]"

definition stolen_lock :: "turn_command list" where
  "stolen_lock = [Enter ''c1'' None ''t1'' 10, Tick 9, Next 0, Next 0, Tick 2,
     Enter ''c1'' None ''t2'' 10, Next 0, Enter ''c1'' None ''t3'' 10]"

definition in_turn :: "turn_world \<Rightarrow> string list" where
  "in_turn w = map (tn_token \<circ> fst) (filter (\<lambda>(t, p). tn_acquired t \<and> p = InTurn) (tw_turns w))"

text \<open>
  A turn that outlives its lock does harm on its way out.  Its listing is removed
  even when another turn of the conversation has the lock by then, so that turn is not counted;
  and when the lock expires between the comparison of the token and the deletion, the lock of
  the other turn is deleted, and a third turn runs beside it.
\<close>

theorem overstayed_turn_harms:
  "(\<exists>w. turn_reach False w \<and> in_turn w = [''t2''] \<and>
      ks_get (turn_lock_key ''c1'') (tw_redis w) = Some ''t2'' \<and>
      fst (active_turns keyspace_ops ''u1'' (tw_redis w)) = 0) \<and>
   (\<exists>w. turn_reach False w \<and> in_turn w = [''t2'', ''t3''] \<and> ks_now (tw_redis w) < 11 + 10)"
proof -
  have "turn_reach False (the (turns_run False hidden_turn no_turns))"
    by (rule turns_run_reach [OF turn_reach.start, of _ hidden_turn]) code_simp
  moreover have "in_turn (the (turns_run False hidden_turn no_turns)) = [''t2''] \<and>
      ks_get (turn_lock_key ''c1'') (tw_redis (the (turns_run False hidden_turn no_turns))) = Some ''t2'' \<and>
      fst (active_turns keyspace_ops ''u1'' (tw_redis (the (turns_run False hidden_turn no_turns)))) = 0"
    by code_simp
  moreover have "turn_reach False (the (turns_run False stolen_lock no_turns))"
    by (rule turns_run_reach [OF turn_reach.start, of _ stolen_lock]) code_simp
  moreover have "in_turn (the (turns_run False stolen_lock no_turns)) = [''t2'', ''t3''] \<and>
      ks_now (tw_redis (the (turns_run False stolen_lock no_turns))) < 11 + 10"
    by code_simp
  ultimately show ?thesis by blast
qed

section \<open>The count of a user's turns\<close>

context redis_store
begin

lemma count_live_spec:
  assumes "distinct keys" and "r_get R listing s = None" and "listing \<notin> set keys"
    and "r_smembers R listing s \<noteq> [] \<or> keys = []"
  shows "fst (count_live R listing keys s) = card {k \<in> set keys. r_exists R k s} \<and>
    set (r_smembers R listing (snd (count_live R listing keys s))) =
      set (r_smembers R listing s) - {k \<in> set keys. \<not> r_exists R k s}"
  using assms(1-3)
proof (induction keys arbitrary: s)
  case Nil
  then show ?case by simp
next
  case (Cons key keys)
  show ?case
  proof (cases "r_exists R key s")
    case True
    have eq: "{k \<in> set (key # keys). r_exists R k s} = insert key {k \<in> set keys. r_exists R k s}"
      using True by auto
    have "card {k \<in> set (key # keys). r_exists R k s} = Suc (card {k \<in> set keys. r_exists R k s})"
      unfolding eq using Cons.prems(1) by (subst card_insert_disjoint) auto
    with True Cons.IH [of s] Cons.prems show ?thesis by (auto simp: split_beta)
  next
    case False
    let ?s = "r_srem R listing key s"
    have same: "r_exists R k ?s = r_exists R k s" if "k \<noteq> listing" for k
      using that members_srem [OF Cons.prems(2), of k key] get_srem [OF Cons.prems(2), of k key]
      by (simp add: exists_iff) (metis set_empty)
    have other: "k \<noteq> listing" if "k \<in> set keys" for k using that Cons.prems(3) by auto
    have "{k \<in> set keys. r_exists R k ?s} = {k \<in> set (key # keys). r_exists R k s}"
      and "{k \<in> set keys. \<not> r_exists R k ?s} = {k \<in> set keys. \<not> r_exists R k s}"
      using same [OF other] False by auto
    moreover have "r_get R listing ?s = None" using get_srem [OF Cons.prems(2)] Cons.prems(2) by simp
    ultimately show ?thesis
      using False Cons.IH [of ?s] Cons.prems members_srem [OF Cons.prems(2), of listing key] by auto
  qed
qed

end

text \<open>
  Counting the turns of a user gives the number of listed locks that exist,
  and leaves exactly those listed: a lock whose process died is forgotten once it has expired.
\<close>

theorem active_turns_counts:
  assumes "redis_store R" and "r_get R (user_turns_key u) s = None"
    and "user_turns_key u \<notin> set (r_smembers R (user_turns_key u) s)"
  shows "fst (active_turns R u s) = card {k \<in> set (r_smembers R (user_turns_key u) s). r_exists R k s} \<and>
    set (r_smembers R (user_turns_key u) (snd (active_turns R u s))) =
      {k \<in> set (r_smembers R (user_turns_key u) s). r_exists R k s}"
  using redis_store.count_live_spec [OF assms(1) redis_store.members_distinct [OF assms(1)] assms(2,3)]
  unfolding active_turns_def by auto

definition sample_listing_world :: turn_world where
  "sample_listing_world = the (turns_run False
     [Enter ''c1'' (Some ''u1'') ''t1'' 5, Next 0, Next 0, Crash 0, Tick 4,
      Enter ''c2'' (Some ''u1'') ''t2'' 5, Next 1, Next 1, Tick 2] no_turns)"

theorem active_turns_counts_witness:
  "fst (active_turns keyspace_ops ''u1'' (tw_redis sample_listing_world)) = 1 \<and>
   set (r_smembers keyspace_ops (user_turns_key ''u1'')
     (snd (active_turns keyspace_ops ''u1'' (tw_redis sample_listing_world)))) = {turn_lock_key ''c2''}"
proof -
  let ?s = "tw_redis sample_listing_world"
  have s: "ks_smembers (user_turns_key ''u1'') ?s = [turn_lock_key ''c1'', turn_lock_key ''c2'']"
    "ks_get (user_turns_key ''u1'') ?s = None"
    "\<not> ks_exists (turn_lock_key ''c1'') ?s" "ks_exists (turn_lock_key ''c2'') ?s"
    "user_turns_key ''u1'' \<notin> {turn_lock_key ''c1'', turn_lock_key ''c2''}"
    by code_simp+
  have "{k \<in> set (ks_smembers (user_turns_key ''u1'') ?s). ks_exists k ?s} = {turn_lock_key ''c2''}"
    using s by auto
  with active_turns_counts [OF keyspace.redis_store_axioms, of "''u1''" ?s] s show ?thesis by simp
qed

end
