(* ===== verification/ConnectorRequest.thy ===== *)
theory ConnectorRequest
  imports Actions
begin

text \<open>
  The request of a connector operation: the retry policy (luna_core/connectors/retry.py) and
  the helpers of luna_core/connectors/registry.py that turn an operation and its input into an
  HTTP request, and a response into a value.

  A dictionary of a parameter's definition is the JSON that is stored; its name is a text, as
  the schema of an operation demands.  Floats are the rationals they denote.
\<close>

section \<open>Retry policies\<close>

record retry_policy =
  rp_max_attempts :: int
  rp_retry_on_status :: "int list"
  rp_initial_delay_ms :: int
  rp_multiplier :: rat
  rp_jitter :: bool

definition AUTH_STATUSES :: "int list" where "AUTH_STATUSES = [401, 403]"
definition MAX_DELAY_MS :: int where "MAX_DELAY_MS = 30000"
definition DEFAULT_INITIAL_DELAY_MS :: int where "DEFAULT_INITIAL_DELAY_MS = 200"
definition DEFAULT_MULTIPLIER :: rat where "DEFAULT_MULTIPLIER = 3"

definition check_policy :: "retry_policy \<Rightarrow> exn + retry_policy" where
  "check_policy p =
     (if rp_max_attempts p < 1 then Inl (value_error ''max_attempts must be >= 1'')
      else if rp_initial_delay_ms p < 0 then Inl (value_error ''initial_delay_ms must be >= 0'')
      else if rp_multiplier p < 1 then Inl (value_error ''multiplier must be >= 1'')
      else Inr p)"

definition should_retry :: "retry_policy \<Rightarrow> int option \<Rightarrow> bool" where
  "should_retry p status_code =
     (case status_code of
        None \<Rightarrow> False
      | Some c \<Rightarrow> c \<notin> set AUTH_STATUSES \<and> c \<in> set (rp_retry_on_status p))"

text \<open>\<open>u\<close> is the next value of \<open>random.random()\<close>, of which \<open>uniform(0, c)\<close> takes the part \<open>c\<close>.\<close>

definition delay_seconds_for_retry :: "retry_policy \<Rightarrow> rat \<Rightarrow> int \<Rightarrow> rat" where
  "delay_seconds_for_retry p u retry_index =
     (if retry_index \<le> 0 then 0
      else let base = of_int (rp_initial_delay_ms p) * rp_multiplier p ^ nat (retry_index - 1);
               capped = min base (of_int MAX_DELAY_MS);
               slept = (if rp_jitter p then capped * u else capped)
           in slept / 1000)"

definition retry_statuses :: "number_texts \<Rightarrow> pydict \<Rightarrow> exn + int list" where
  "retry_statuses nt raw =
     (case py_or (dget raw ''retry_on_status'') (PList []) of
        PList xs \<Rightarrow> bindR (mapR (py_int nt) xs) (\<lambda>ss. Inr (filter (\<lambda>s. s \<notin> set AUTH_STATUSES) ss))
      | _ \<Rightarrow> Inl (type_error ''retry_on_status is not a list''))"

definition parse_retry_policy :: "number_texts \<Rightarrow> pydict option \<Rightarrow> exn + retry_policy option" where
  "parse_retry_policy nt raw =
     (case raw of
        None \<Rightarrow> Inr None
      | Some d \<Rightarrow>
          if d = [] then Inr None
          else bindR (retry_statuses nt d) (\<lambda>statuses.
               bindR (py_int nt (dget_or d ''max_attempts'' (PInt 1))) (\<lambda>attempts.
               bindR (py_int nt (dget_or d ''initial_delay_ms'' (PInt DEFAULT_INITIAL_DELAY_MS)))
                 (\<lambda>delay.
               bindR (py_float nt (dget_or d ''multiplier'' (PFloat DEFAULT_MULTIPLIER)))
                 (\<lambda>multiplier.
               bindR (check_policy \<lparr>rp_max_attempts = attempts, rp_retry_on_status = statuses,
                        rp_initial_delay_ms = delay, rp_multiplier = multiplier,
                        rp_jitter = truthy (dget_or d ''jitter'' (PBool True))\<rparr>)
                 (\<lambda>p. Inr (Some p)))))))"

section \<open>Placeholders\<close>

definition name_start :: "char \<Rightarrow> bool" where
  "name_start c = (let n = (of_char c :: nat) in (65 \<le> n \<and> n \<le> 90) \<or> (97 \<le> n \<and> n \<le> 122) \<or> n = 95)"

definition name_char :: "char \<Rightarrow> bool" where
  "name_char c = (name_start c \<or> (let n = (of_char c :: nat) in 48 \<le> n \<and> n \<le> 57))"

text \<open>The name of the placeholder a text begins with, if it does: \<open>_PATH_PARAM_RE\<close>.\<close>

definition hole_at :: "string \<Rightarrow> string option" where
  "hole_at s =
     (case s of
        [] \<Rightarrow> None
      | c # rest \<Rightarrow>
          let name = takeWhile name_char rest
          in if c = CHR ''{'' \<and> name \<noteq> [] \<and> name_start (hd name)
                \<and> startswith (drop (length name) rest) ''}''
             then Some name else None)"

datatype piece = Lit char | Hole string

function pieces :: "string \<Rightarrow> piece list" where
  "pieces [] = []"
| "pieces (c # s) =
     (case hole_at (c # s) of
        Some name \<Rightarrow> Hole name # pieces (drop (Suc (length name)) s)
      | None \<Rightarrow> Lit c # pieces s)"
  by pat_completeness auto
termination by (relation "measure length") auto

definition holes :: "string \<Rightarrow> string list" where
  "holes s = concat (map (\<lambda>p. case p of Hole n \<Rightarrow> [n] | Lit _ \<Rightarrow> []) (pieces s))"

text \<open>\<open>_FULL_PARAM_RE\<close>: \<open>$\<close> also matches before a final newline.\<close>

definition full_param :: "string \<Rightarrow> string option" where
  "full_param s =
     (case hole_at s of
        None \<Rightarrow> None
      | Some name \<Rightarrow> if drop (length name + 2) s \<in> {[], [CHR 0x0A]} then Some name else None)"

definition path_placeholders :: "string \<Rightarrow> string list" where
  "path_placeholders path = holes path"

fun template_placeholders :: "pyval \<Rightarrow> string list" where
  "template_placeholders (PStr s) = holes s"
| "template_placeholders (PDict d) = concat (map (\<lambda>p. template_placeholders (snd p)) d)"
| "template_placeholders (PList xs) = concat (map template_placeholders xs)"
| "template_placeholders _ = []"

definition text_or_empty :: "pyrt \<Rightarrow> pyval \<Rightarrow> string" where
  "text_or_empty rt v = (if v = PNone then [] else py_str rt v)"

definition fill_piece :: "pyrt \<Rightarrow> pydict \<Rightarrow> piece \<Rightarrow> string" where
  "fill_piece rt variables p =
     (case p of
        Lit c \<Rightarrow> [c]
      | Hole n \<Rightarrow> (case map_of variables n of None \<Rightarrow> ''{'' @ n @ ''}'' | Some v \<Rightarrow> text_or_empty rt v))"

definition interpolate_text :: "pyrt \<Rightarrow> pydict \<Rightarrow> string \<Rightarrow> pyval" where
  "interpolate_text rt variables s =
     (case Option.bind (full_param s) (map_of variables) of
        Some v \<Rightarrow> v
      | None \<Rightarrow> PStr (concat (map (fill_piece rt variables) (pieces s))))"

fun interpolate :: "pyrt \<Rightarrow> pydict \<Rightarrow> pyval \<Rightarrow> pyval" where
  "interpolate rt variables (PStr s) = interpolate_text rt variables s"
| "interpolate rt variables (PDict d) =
     PDict (map (\<lambda>p. (fst p, interpolate rt variables (snd p))) d)"
| "interpolate rt variables (PList xs) = PList (map (interpolate rt variables) xs)"
| "interpolate rt variables v = v"

section \<open>Building a request\<close>

datatype http_method = GET | POST | PUT | DELETE | PATCH

definition BODY_METHODS :: "http_method list" where "BODY_METHODS = [POST, PUT, PATCH]"

fun method_text :: "http_method \<Rightarrow> string" where
  "method_text GET = ''GET''"
| "method_text POST = ''POST''"
| "method_text PUT = ''PUT''"
| "method_text DELETE = ''DELETE''"
| "method_text PATCH = ''PATCH''"

definition connector_error :: "string \<Rightarrow> exn" where
  "connector_error m = OtherError ''ConnectorExecutionError'' m"

text \<open>\<open>upper\<close> on the letters a method is written with.\<close>

definition upper_char :: "char \<Rightarrow> char" where
  "upper_char c = (let n = (of_char c :: nat) in if 97 \<le> n \<and> n \<le> 122 then char_of (n - 32) else c)"

definition coerce_method :: "string \<Rightarrow> exn + http_method" where
  "coerce_method m =
     (case List.find (\<lambda>x. method_text x = map upper_char m) [GET, POST, PUT, DELETE, PATCH] of
        None \<Rightarrow> Inl (connector_error (''unsupported HTTP method: '' @ m))
      | Some x \<Rightarrow> Inr x)"

definition parameter_name :: "pydict \<Rightarrow> string" where
  "parameter_name p = (case dget p ''name'' of PStr n \<Rightarrow> n | _ \<Rightarrow> [])"

definition apply_parameter_defaults :: "pydict list \<Rightarrow> pydict \<Rightarrow> pydict" where
  "apply_parameter_defaults parameters input_data =
     foldl (\<lambda>out p. if parameter_name p = [] \<or> dhas out (parameter_name p) \<or> dget p ''default'' = PNone
                    then out else dset out (parameter_name p) (dget p ''default''))
       input_data parameters"

text \<open>What a parameter adds to a bucket.\<close>

definition put_parameter :: "pyrt \<Rightarrow> string \<Rightarrow> pydict \<Rightarrow> pydict \<Rightarrow> pydict \<Rightarrow> pydict" where
  "put_parameter rt bucket payload out p =
     (case map_of payload (parameter_name p) of
        None \<Rightarrow> out
      | Some v \<Rightarrow>
          if parameter_name p \<noteq> [] \<and> py_str rt (dget_or p ''in'' (PStr ''body'')) = bucket
          then dset out (parameter_name p) v else out)"

definition distribute_input ::
  "pyrt \<Rightarrow> http_method \<Rightarrow> pydict list \<Rightarrow> string \<Rightarrow> pydict \<Rightarrow> pydict \<times> pydict \<times> pydict" where
  "distribute_input rt m parameters path input_data =
     (let payload = filter (\<lambda>p. fst p \<notin> set (path_placeholders path)) input_data;
          bucket = (\<lambda>b. foldl (put_parameter rt b payload) [] parameters)
      in if parameters = [] then
           (if m \<in> set BODY_METHODS then ([], [], payload) else (payload, [], []))
         else (bucket ''query'', bucket ''header'', bucket ''body''))"

definition path_piece :: "pyrt \<Rightarrow> pydict \<Rightarrow> piece \<Rightarrow> exn + string" where
  "path_piece rt payload p =
     (case p of
        Lit c \<Rightarrow> Inr [c]
      | Hole n \<Rightarrow>
          (case map_of payload n of
             None \<Rightarrow> Inl (connector_error (''path parameter '' @ CHR 0x27 # n
                       @ CHR 0x27 # '' missing from input''))
           | Some v \<Rightarrow>
               if v = PNone then Inl (connector_error (''path parameter '' @ CHR 0x27 # n
                       @ CHR 0x27 # '' must not be null''))
               else Inr (py_str rt v)))"

definition substitute_path_params :: "pyrt \<Rightarrow> string \<Rightarrow> pydict \<Rightarrow> exn + string \<times> pydict" where
  "substitute_path_params rt path payload =
     bindR (mapR (path_piece rt payload) (pieces path)) (\<lambda>texts.
       Inr (concat texts, filter (\<lambda>p. fst p \<notin> set (holes path)) payload))"

definition join_url :: "string \<Rightarrow> string \<Rightarrow> string" where
  "join_url base_url path =
     rev (dropWhile (\<lambda>c. c = CHR ''/'') (rev base_url)) @ ''/''
     @ dropWhile (\<lambda>c. c = CHR ''/'') path"

text \<open>\<open>None\<close> is a request without a body.\<close>

definition merge_body :: "pyval option \<Rightarrow> pydict \<Rightarrow> pyval option" where
  "merge_body fixed_body body_vals =
     (case fixed_body of
        None \<Rightarrow> if body_vals = [] then None else Some (PDict body_vals)
      | Some (PDict d) \<Rightarrow> Some (PDict (dupdate d body_vals))
      | Some v \<Rightarrow> Some v)"

record request_plan =
  pl_url :: string
  pl_query :: pydict
  pl_fixed_headers :: pydict
  pl_headers :: pydict
  pl_body :: "pyval option"
  pl_body_vals :: pydict

text \<open>What \<open>_execute_http\<close> computes before its first attempt.\<close>

definition plan_request ::
  "pyrt \<Rightarrow> string \<Rightarrow> http_method \<Rightarrow> string \<Rightarrow> pydict list \<Rightarrow> pydict \<Rightarrow> pydict option \<Rightarrow> pydict
   \<Rightarrow> exn + request_plan" where
  "plan_request rt base_url m path parameters fixed_headers fixed_body input_data =
     (let input = apply_parameter_defaults parameters input_data
      in bindR (substitute_path_params rt path input) (\<lambda>(url_path, _).
           let (query, header, body) = distribute_input rt m parameters path input;
               template = map_option PDict fixed_body
           in Inr \<lparr>pl_url = join_url base_url url_path, pl_query = query,
                pl_fixed_headers = map (\<lambda>p. (fst p, interpolate rt input (snd p))) fixed_headers,
                pl_headers = header, pl_body = map_option (interpolate rt input) template,
                pl_body_vals = (case template of
                    None \<Rightarrow> body
                  | Some t \<Rightarrow> filter (\<lambda>p. fst p \<notin> set (template_placeholders t)) body)\<rparr>))"

record prepared_request =
  pr_headers :: "(string \<times> string) list"
  pr_params :: "(string \<times> string) list"
  pr_basic_auth :: "(string \<times> string) option"
  pr_refreshed :: "pydict option"

record http_request =
  hq_method :: http_method
  hq_url :: string
  hq_headers :: "(string \<times> string) list"
  hq_json :: "pyval option"
  hq_params :: pydict
  hq_auth :: "(string \<times> string) option"

definition text_headers :: "pyrt \<Rightarrow> pydict \<Rightarrow> (string \<times> string) list" where
  "text_headers rt d = map (\<lambda>p. (fst p, text_or_empty rt (snd p))) d"

definition final_headers :: "pyrt \<Rightarrow> request_plan \<Rightarrow> prepared_request \<Rightarrow> (string \<times> string) list" where
  "final_headers rt plan prepared =
     dupdate (dupdate (dupdate
       [(''Accept'', ''application/json''), (''User-Agent'', ''luna-core/connector'')]
       (text_headers rt (pl_fixed_headers plan))) (text_headers rt (pl_headers plan)))
       (pr_headers prepared)"

definition build_request ::
  "pyrt \<Rightarrow> http_method \<Rightarrow> request_plan \<Rightarrow> prepared_request \<Rightarrow> http_request" where
  "build_request rt m plan prepared =
     \<lparr>hq_method = m, hq_url = pl_url plan, hq_headers = final_headers rt plan prepared,
      hq_json = (if m \<in> set BODY_METHODS then merge_body (pl_body plan) (pl_body_vals plan) else None),
      hq_params = dupdate (map (\<lambda>p. (fst p, PStr (snd p))) (pr_params prepared))
        (filter (\<lambda>p. snd p \<noteq> PNone) (pl_query plan)),
      hq_auth = pr_basic_auth prepared\<rparr>"

section \<open>Reading a response\<close>

text \<open>\<open>hr_json\<close> is what \<open>response.json()\<close> gives; \<open>None\<close> is its \<open>ValueError\<close>.\<close>

record http_response =
  hr_status :: int
  hr_content_type :: string
  hr_text :: string
  hr_json :: "pyval option"

definition decode_response :: "http_response \<Rightarrow> pyval" where
  "decode_response r =
     (if hr_text r = [] then PDict []
      else if find_sub ''application/json'' (hr_content_type r) \<noteq> None
              \<or> startswith (hr_text r) ''{'' \<or> startswith (hr_text r) ''['' then
        (case hr_json r of
           None \<Rightarrow> PDict [(''text'', PStr (hr_text r))]
         | Some PNone \<Rightarrow> PDict [(''text'', PStr (hr_text r))]
         | Some (PList xs) \<Rightarrow> PDict [(''items'', PList xs)]
         | Some body \<Rightarrow> body)
      else PDict [(''text'', PStr (hr_text r))])"

section \<open>Placeholders and their text\<close>

fun piece_text :: "piece \<Rightarrow> string" where
  "piece_text (Lit c) = [c]"
| "piece_text (Hole n) = ''{'' @ n @ ''}''"

lemma hole_at_Some:
  assumes "hole_at s = Some n"
  shows "s = ''{'' @ n @ ''}'' @ drop (length n + 2) s"
proof -
  obtain c rest where s: "s = c # rest" using assms by (auto simp: hole_at_def split: list.splits)
  have n: "n = takeWhile name_char rest" "c = CHR ''{''"
    "startswith (drop (length n) rest) ''}''"
    using assms by (auto simp: s hole_at_def Let_def split: if_splits)
  have "rest = n @ drop (length n) rest"
    using n(1) by (metis takeWhile_dropWhile_id dropWhile_eq_drop)
  moreover have "drop (length n) rest = ''}'' @ drop (Suc (length n)) rest"
    using n(3) unfolding startswith_def
    by (cases "drop (length n) rest") (auto simp: drop_Suc drop_tl)
  ultimately show ?thesis using n(2) by (simp add: s)
qed

lemma pieces_text: "concat (map piece_text (pieces s)) = s"
proof (induction s rule: pieces.induct)
  case 1
  then show ?case by simp
next
  case (2 c s)
  show ?case
  proof (cases "hole_at (c # s)")
    case None
    with 2 show ?thesis by simp
  next
    case (Some n)
    with 2 have "concat (map piece_text (pieces (c # s)))
        = ''{'' @ n @ ''}'' @ drop (length n + 2) (c # s)"
      by simp
    with hole_at_Some [OF Some] show ?thesis by simp
  qed
qed

lemma full_param_hole: "full_param s = Some n \<Longrightarrow> n \<in> set (holes s)"
proof -
  assume "full_param s = Some n"
  then have h: "hole_at s = Some n" by (auto simp: full_param_def split: option.splits if_splits)
  then obtain c rest where "s = c # rest" by (auto simp: hole_at_def split: list.splits)
  with h show ?thesis by (simp add: holes_def)
qed

lemma holes_iff: "n \<in> set (holes s) \<longleftrightarrow> Hole n \<in> set (pieces s)"
  unfolding holes_def by (auto split: piece.splits intro!: bexI [of _ "Hole n"])

lemma interpolate_text_cong:
  assumes "\<And>n. n \<in> set (holes s) \<Longrightarrow> map_of v n = map_of w n"
  shows "interpolate_text rt v s = interpolate_text rt w s"
proof -
  have "map (fill_piece rt v) (pieces s) = map (fill_piece rt w) (pieces s)"
    using assms by (auto simp: fill_piece_def holes_iff split: piece.splits)
  moreover have "Option.bind (full_param s) (map_of v) = Option.bind (full_param s) (map_of w)"
    using assms full_param_hole by (cases "full_param s") auto
  ultimately show ?thesis unfolding interpolate_text_def by (simp only:)
qed

lemma interpolate_text_unbound:
  assumes "\<And>n. n \<in> set (holes s) \<Longrightarrow> map_of v n = None"
  shows "interpolate_text rt v s = PStr s"
proof -
  have "map (fill_piece rt v) (pieces s) = map piece_text (pieces s)"
    using assms by (auto simp: fill_piece_def holes_iff split: piece.splits)
  moreover have "Option.bind (full_param s) (map_of v) = None"
    using assms full_param_hole by (cases "full_param s") auto
  ultimately show ?thesis
    unfolding interpolate_text_def by (simp only: pieces_text option.case)
qed

lemma interpolate_cong:
  "(\<And>n. n \<in> set (template_placeholders t) \<Longrightarrow> map_of v n = map_of w n) \<Longrightarrow>
   interpolate rt v t = interpolate rt w t"
  by (induction t rule: template_placeholders.induct) (auto intro: interpolate_text_cong)

lemma interpolate_unbound:
  "(\<And>n. n \<in> set (template_placeholders t) \<Longrightarrow> map_of v n = None) \<Longrightarrow> interpolate rt v t = t"
proof (induction t rule: template_placeholders.induct)
  case (2 d)
  then have "map (\<lambda>p. (fst p, interpolate rt v (snd p))) d = d"
    by (intro map_idI) (auto simp: prod_eq_iff)
  then show ?case by simp
next
  case (3 xs)
  then have "map (interpolate rt v) xs = xs" by (intro map_idI) auto
  then show ?case by simp
qed (auto intro: interpolate_text_unbound)

text \<open>
  Filling a template depends on the variables only through the placeholders
  the template has; a template whose placeholders are all unknown comes out as it went in, and a
  text that is one known placeholder becomes the value itself, not its text.
\<close>

theorem interpolate_placeholders:
  assumes "list_all (\<lambda>n. map_of v n = map_of w n) (template_placeholders t)"
  shows "interpolate rt v t = interpolate rt w t \<and>
    (list_all (\<lambda>n. map_of v n = None) (template_placeholders t) \<longrightarrow> interpolate rt v t = t) \<and>
    (\<forall>s n x. t = PStr s \<and> full_param s = Some n \<and> map_of v n = Some x \<longrightarrow> interpolate rt v t = x)"
  using interpolate_cong [of t v w rt] interpolate_unbound [of t v rt] assms
  by (auto simp: list_all_iff interpolate_text_def)

definition sample_rt :: pyrt where
  "sample_rt = \<lparr>rt_getattr = (\<lambda>_ _. PNone), rt_float_str = (\<lambda>_. ''0.0'')\<rparr>"

lemma sample_full_param: "full_param ''{n}'' = Some ''n''"
  by code_simp

theorem interpolate_placeholders_witness:
  "interpolate sample_rt [(''n'', PInt 5), (''x'', PStr ''y'')] (PStr ''{n}'')
     = interpolate sample_rt [(''n'', PInt 5)] (PStr ''{n}'') \<and>
   interpolate sample_rt [(''n'', PInt 5), (''x'', PStr ''y'')] (PStr ''{n}'') = PInt 5"
proof -
  have "list_all (\<lambda>n. map_of [(''n'', PInt 5), (''x'', PStr ''y'')] n = map_of [(''n'', PInt 5)] n)
      (template_placeholders (PStr ''{n}''))" by code_simp
  from interpolate_placeholders [OF this, of sample_rt] show ?thesis
    using sample_full_param by auto
qed

section \<open>Where the input goes\<close>

lemma foldl_put_keys:
  "k \<in> fst ` set (foldl (put_parameter rt b payload) out parameters) \<Longrightarrow>
     k \<in> fst ` set out \<or> (k \<in> fst ` set payload \<and>
       (\<exists>p \<in> set parameters. parameter_name p = k \<and> py_str rt (dget_or p ''in'' (PStr ''body'')) = b))"
proof (induction parameters arbitrary: out)
  case Nil
  then show ?case by simp
next
  case (Cons p parameters)
  then have "k \<in> fst ` set (put_parameter rt b payload out p) \<or> (k \<in> fst ` set payload \<and>
       (\<exists>p \<in> set parameters. parameter_name p = k \<and> py_str rt (dget_or p ''in'' (PStr ''body'')) = b))"
    by simp
  then show ?case
    by (auto simp: put_parameter_def dom_update split: option.splits if_splits
        dest!: map_of_SomeD) force+
qed

lemma distribute_cases:
  assumes "distribute_input rt m parameters path input = (q, h, b)"
  shows "parameters = [] \<Longrightarrow> h = [] \<and> (q = [] \<or> b = [])
      \<and> fst ` set q \<union> fst ` set b = fst ` set input - set (path_placeholders path)"
    and "parameters \<noteq> [] \<Longrightarrow> k \<in> fst ` set q \<union> fst ` set h \<union> fst ` set b \<Longrightarrow>
      k \<in> fst ` set input - set (path_placeholders path)"
    and "distinct (map parameter_name parameters) \<Longrightarrow>
      fst ` set q \<inter> fst ` set h = {} \<and> fst ` set q \<inter> fst ` set b = {} \<and> fst ` set h \<inter> fst ` set b = {}"
proof -
  let ?payload = "filter (\<lambda>p. fst p \<notin> set (path_placeholders path)) input"
  show "parameters = [] \<Longrightarrow> h = [] \<and> (q = [] \<or> b = [])
      \<and> fst ` set q \<union> fst ` set b = fst ` set input - set (path_placeholders path)"
    using assms by (auto simp: distribute_input_def Let_def split: if_splits)
  have eqs: "q = foldl (put_parameter rt ''query'' ?payload) [] parameters"
    "h = foldl (put_parameter rt ''header'' ?payload) [] parameters"
    "b = foldl (put_parameter rt ''body'' ?payload) [] parameters" if "parameters \<noteq> []"
    using assms that by (auto simp: distribute_input_def Let_def)
  show "k \<in> fst ` set input - set (path_placeholders path)"
    if "parameters \<noteq> []" "k \<in> fst ` set q \<union> fst ` set h \<union> fst ` set b" for k
    using that eqs foldl_put_keys [of k rt _ ?payload "[]" parameters] by fastforce
  assume d: "distinct (map parameter_name parameters)"
  have same: "p = p'" if "p \<in> set parameters" "p' \<in> set parameters"
    "parameter_name p = parameter_name p'" for p p'
    using d that by (simp add: distinct_map inj_on_def)
  show "fst ` set q \<inter> fst ` set h = {} \<and> fst ` set q \<inter> fst ` set b = {} \<and> fst ` set h \<inter> fst ` set b = {}"
  proof (cases "parameters = []")
    case True
    with assms show ?thesis by (auto simp: distribute_input_def Let_def split: if_splits)
  next
    case False
    have dest: "\<exists>p \<in> set parameters. parameter_name p = k \<and> py_str rt (dget_or p ''in'' (PStr ''body'')) = bk"
      if "k \<in> fst ` set (foldl (put_parameter rt bk ?payload) [] parameters)" for k bk
      using foldl_put_keys [OF that] by auto
    have apart: "fst ` set (foldl (put_parameter rt x ?payload) [] parameters)
        \<inter> fst ` set (foldl (put_parameter rt y ?payload) [] parameters) = {}" if "x \<noteq> y" for x y
    proof (rule equals0I)
      fix k
      assume "k \<in> fst ` set (foldl (put_parameter rt x ?payload) [] parameters)
        \<inter> fst ` set (foldl (put_parameter rt y ?payload) [] parameters)"
      then obtain p p' where "p \<in> set parameters" "p' \<in> set parameters" "parameter_name p = k"
        "parameter_name p' = k" "py_str rt (dget_or p ''in'' (PStr ''body'')) = x"
        "py_str rt (dget_or p' ''in'' (PStr ''body'')) = y"
        using dest by (metis IntD1 IntD2)
      with same [of p p'] that show False by auto
    qed
    show ?thesis using eqs [OF False] by (simp add: apart)
  qed
qed

text \<open>
  Every value of the input is sent at most once: the query, the headers and the
  body root of the request have no key in common, none of them has a key that the path uses,
  and the body root repeats no key that the body template uses.  When an operation declares no
  parameters and has no template, nothing of the input is lost either.
\<close>

theorem input_sent_once:
  assumes "plan_request rt base_url m path parameters fixed_headers fixed_body input = Inr pl"
    and "distinct (map parameter_name parameters)"
  shows "fst ` set (pl_query pl) \<inter> fst ` set (pl_headers pl) = {} \<and>
    (fst ` set (pl_query pl) \<union> fst ` set (pl_headers pl)) \<inter> fst ` set (pl_body_vals pl) = {} \<and>
    (fst ` set (pl_query pl) \<union> fst ` set (pl_headers pl) \<union> fst ` set (pl_body_vals pl))
      \<inter> set (path_placeholders path) = {} \<and>
    (\<forall>t. fixed_body = Some t \<longrightarrow>
      fst ` set (pl_body_vals pl) \<inter> set (template_placeholders (PDict t)) = {}) \<and>
    (parameters = [] \<longrightarrow> fixed_body = None \<longrightarrow>
      fst ` set (pl_query pl) \<union> fst ` set (pl_body_vals pl) = fst ` set input - set (path_placeholders path))"
proof -
  obtain q h b where d: "distribute_input rt m parameters path
      (apply_parameter_defaults parameters input) = (q, h, b)" by (metis prod_cases3)
  have pl: "pl_query pl = q" "pl_headers pl = h"
    "pl_body_vals pl = (case map_option PDict fixed_body of None \<Rightarrow> b
       | Some t \<Rightarrow> filter (\<lambda>p. fst p \<notin> set (template_placeholders t)) b)"
    using assms(1) d by (auto simp: plan_request_def Let_def bindR_Return_iff split: prod.splits)
  have sub: "fst ` set (pl_body_vals pl) \<subseteq> fst ` set b"
    by (auto simp: pl(3) split: option.splits)
  have out: "(fst ` set q \<union> fst ` set h \<union> fst ` set b) \<inter> set (path_placeholders path) = {}"
    using distribute_cases(1,2) [OF d] by (cases "parameters = []") auto
  have "parameters = [] \<Longrightarrow> apply_parameter_defaults parameters input = input"
    by (simp add: apply_parameter_defaults_def)
  then have all: "parameters = [] \<Longrightarrow> fst ` set q \<union> fst ` set b = fst ` set input - set (path_placeholders path)"
    using distribute_cases(1) [OF d] by simp
  show ?thesis
    using distribute_cases(3) [OF d assms(2)] sub out all
    by (auto simp: pl split: option.splits)
qed

definition sample_parameters :: "pydict list" where
  "sample_parameters = [[(''name'', PStr ''id''), (''in'', PStr ''path'')],
     [(''name'', PStr ''skills''), (''in'', PStr ''body'')], [(''name'', PStr ''limit''), (''in'', PStr ''query'')]]"

definition sample_plan :: request_plan where
  "sample_plan = projr (plan_request sample_rt ''https://x/'' POST ''/jobs/{id}'' sample_parameters []
     (Some [(''filter'', PStr ''{skills}'')])
     [(''id'', PInt 7), (''skills'', PStr ''sql''), (''limit'', PInt 5)])"

theorem input_sent_once_witness:
  "pl_url sample_plan = ''https://x/jobs/7'' \<and> map fst (pl_query sample_plan) = [''limit''] \<and>
   fst ` set (pl_query sample_plan) \<inter> fst ` set (pl_body_vals sample_plan) = {} \<and>
   pl_body sample_plan = Some (PDict [(''filter'', PStr ''sql'')]) \<and> pl_body_vals sample_plan = []"
proof -
  have "plan_request sample_rt ''https://x/'' POST ''/jobs/{id}'' sample_parameters []
     (Some [(''filter'', PStr ''{skills}'')])
     [(''id'', PInt 7), (''skills'', PStr ''sql''), (''limit'', PInt 5)] = Inr sample_plan"
    by code_simp
  moreover have "distinct (map parameter_name sample_parameters)" by code_simp
  moreover have "pl_url sample_plan = ''https://x/jobs/7''" "map fst (pl_query sample_plan) = [''limit'']"
    "pl_body sample_plan = Some (PDict [(''filter'', PStr ''sql'')])" "pl_body_vals sample_plan = []"
    by code_simp+
  ultimately show ?thesis using input_sent_once by blast
qed

lemma mapR_Inr_iff: "(\<exists>ys. mapR f xs = Inr ys) \<longleftrightarrow> list_all (\<lambda>x. \<exists>y. f x = Inr y) xs"
  by (induction xs) (auto split: sum.splits)

text \<open>
  A request can be built exactly when every placeholder of the path has a value
  that is not null, in the input or as the default of a parameter.
\<close>

theorem plan_request_iff:
  "(\<exists>pl. plan_request rt base_url m path parameters fixed_headers fixed_body input = Inr pl) \<longleftrightarrow>
     list_all (\<lambda>n. dget (apply_parameter_defaults parameters input) n \<noteq> PNone) (path_placeholders path)"
proof -
  let ?in = "apply_parameter_defaults parameters input"
  have ok: "(\<exists>t. path_piece rt ?in p = Inr t) \<longleftrightarrow> (\<forall>n. p = Hole n \<longrightarrow> dget ?in n \<noteq> PNone)" for p
    by (cases p) (auto simp: path_piece_def dget_def split: option.splits)
  have "(\<exists>pl. plan_request rt base_url m path parameters fixed_headers fixed_body input = Inr pl)
      \<longleftrightarrow> (\<exists>ts. mapR (path_piece rt ?in) (pieces path) = Inr ts)"
    by (cases "mapR (path_piece rt ?in) (pieces path)";
        cases "distribute_input rt m parameters path ?in")
       (simp_all add: plan_request_def Let_def substitute_path_params_def)
  also have "\<dots> \<longleftrightarrow> list_all (\<lambda>p. \<forall>n. p = Hole n \<longrightarrow> dget ?in n \<noteq> PNone) (pieces path)"
    unfolding mapR_Inr_iff ok ..
  also have "\<dots> \<longleftrightarrow> list_all (\<lambda>n. dget ?in n \<noteq> PNone) (path_placeholders path)"
    unfolding list_all_iff path_placeholders_def by (auto simp only: holes_iff)
  finally show ?thesis .
qed

section \<open>Headers and delays\<close>

lemma dupdate_last:
  "distinct (map fst e) \<Longrightarrow> map_of e k = Some v \<Longrightarrow> map_of (dupdate d e) k = Some v"
  by (simp add: dupdate_conv)

definition header_parameter :: "string \<Rightarrow> pydict" where
  "header_parameter name = [(''name'', PStr name), (''in'', PStr ''header'')]"

definition bearer :: "string \<Rightarrow> prepared_request" where
  "bearer token = \<lparr>pr_headers = [(''Authorization'', ''Bearer '' @ token)], pr_params = [],
     pr_basic_auth = None, pr_refreshed = None\<rparr>"

text \<open>
  The headers of the authentication are the ones sent, whatever an operation or its
  caller put under the same name; a caller's header that differs from one of them in the case of
  its letters only is sent beside it.
\<close>

theorem auth_headers_sent:
  assumes "distinct (map fst (pr_headers prepared))" and "map_of (pr_headers prepared) k = Some v"
  shows "map_of (hq_headers (build_request rt m plan prepared)) k = Some v \<and>
    (\<exists>pl. plan_request sample_rt ''https://x'' GET ''/'' [header_parameter ''authorization''] [] None
        [(''authorization'', PStr ''other'')] = Inr pl \<and>
      filter (\<lambda>h. map lower_char (fst h) = ''authorization'')
        (hq_headers (build_request sample_rt GET pl (bearer ''t'')))
        = [(''authorization'', ''other''), (''Authorization'', ''Bearer t'')])"
proof
  show "map_of (hq_headers (build_request rt m plan prepared)) k = Some v"
    using assms by (simp add: build_request_def final_headers_def dupdate_last)
  show "\<exists>pl. plan_request sample_rt ''https://x'' GET ''/'' [header_parameter ''authorization''] [] None
        [(''authorization'', PStr ''other'')] = Inr pl \<and>
      filter (\<lambda>h. map lower_char (fst h) = ''authorization'')
        (hq_headers (build_request sample_rt GET pl (bearer ''t'')))
        = [(''authorization'', ''other''), (''Authorization'', ''Bearer t'')]"
  proof (intro exI conjI)
    let ?r = "plan_request sample_rt ''https://x'' GET ''/'' [header_parameter ''authorization''] [] None
        [(''authorization'', PStr ''other'')]"
    show "?r = Inr (projr ?r)" by code_simp
    show "filter (\<lambda>h. map lower_char (fst h) = ''authorization'')
        (hq_headers (build_request sample_rt GET (projr ?r) (bearer ''t'')))
        = [(''authorization'', ''other''), (''Authorization'', ''Bearer t'')]" by code_simp
  qed
qed

theorem auth_headers_sent_witness:
  "map_of (hq_headers (build_request sample_rt POST
     \<lparr>pl_url = ''u'', pl_query = [], pl_fixed_headers = [(''Authorization'', PStr ''mine'')],
      pl_headers = [], pl_body = None, pl_body_vals = []\<rparr> (bearer ''t''))) ''Authorization''
   = Some ''Bearer t''"
  using auth_headers_sent [of "bearer ''t''" "''Authorization''" "''Bearer t''"]
  by (simp add: bearer_def)

lemma parsed_policy:
  assumes "parse_retry_policy nt raw = Inr (Some p)"
  shows "1 \<le> rp_max_attempts p" "0 \<le> rp_initial_delay_ms p" "1 \<le> rp_multiplier p"
  using assms
  by (auto simp: parse_retry_policy_def bindR_Return_iff check_policy_def
      split: option.splits if_splits)

text \<open>
  A stored policy that parses waits at most thirty seconds before any retry, and
  never a negative time; it has at least one attempt and never retries 401 or 403.
\<close>

theorem retry_policy_bounds:
  assumes "parse_retry_policy nt raw = Inr (Some p)" and "0 \<le> u" and "u \<le> 1"
  shows "0 \<le> delay_seconds_for_retry p u i \<and> delay_seconds_for_retry p u i \<le> 30 \<and>
    1 \<le> rp_max_attempts p \<and> \<not> should_retry p (Some 401) \<and> \<not> should_retry p (Some 403)"
proof -
  note p = parsed_policy [OF assms(1)]
  let ?c = "min (of_int (rp_initial_delay_ms p) * rp_multiplier p ^ nat (i - 1)) (of_int MAX_DELAY_MS)"
  have c: "0 \<le> ?c" "?c \<le> 30000" using p by (auto simp: MAX_DELAY_MS_def)
  then have "?c * u \<le> 30000 * 1" using assms(2,3) by (intro mult_mono) auto
  moreover have "0 \<le> ?c * u" using c assms(2) by simp
  ultimately show ?thesis
    using c p(1)
    by (simp add: delay_seconds_for_retry_def Let_def should_retry_def AUTH_STATUSES_def)
qed

definition sample_number_texts :: number_texts where
  "sample_number_texts = \<lparr>nt_int = (\<lambda>_. None), nt_float = (\<lambda>_. None)\<rparr>"

definition sample_policy :: pydict where
  "sample_policy = [(''max_attempts'', PInt 3), (''retry_on_status'', PList [PInt 503, PInt 401])]"

lemma sample_policy_parsed:
  "parse_retry_policy sample_number_texts (Some sample_policy) =
     Inr (Some \<lparr>rp_max_attempts = 3, rp_retry_on_status = [503], rp_initial_delay_ms = 200,
       rp_multiplier = 3, rp_jitter = True\<rparr>)"
  by (simp add: parse_retry_policy_def sample_policy_def retry_statuses_def dget_def dget_or_def
      py_or_def AUTH_STATUSES_def check_policy_def DEFAULT_INITIAL_DELAY_MS_def DEFAULT_MULTIPLIER_def)

theorem retry_policy_bounds_witness:
  "\<exists>p. parse_retry_policy sample_number_texts (Some sample_policy) = Inr (Some p) \<and>
     rp_retry_on_status p = [503] \<and> delay_seconds_for_retry p 1 2 \<le> 30"
  using retry_policy_bounds [OF sample_policy_parsed, of 1 2] sample_policy_parsed by force

end
