(* ===== verification/ConnectorAuth.thy ===== *)
theory ConnectorAuth
  imports ConnectorRequest
begin

text \<open>
  Credentials of outbound calls (luna_core/connectors/auth.py).  The token endpoint, the clock,
  the encryption of credentials, the session and the lock of a connector are fields of
  \<open>connector_env\<close>; waiting for the lock lets other coroutines run.  Times are seconds.
\<close>

section \<open>Connectors and their environment\<close>

datatype auth_type = AuthNone | ApiKey | OAuth2 | Basic

record connector =
  co_id :: string
  co_name :: string
  co_auth_type :: auth_type
  co_base_url :: string
  co_credentials :: "string option"
  co_is_active :: bool

record operation =
  op_id :: string
  op_connector_id :: string
  op_name :: string
  op_method :: http_method
  op_path :: string
  op_parameters :: "pydict list"
  op_fixed_headers :: pydict
  op_fixed_body :: "pydict option"
  op_retry_policy :: "pydict option"
  op_is_active :: bool

record registry =
  rg_connectors :: "(string \<times> connector \<times> (string \<times> operation) list) list"
  rg_operations :: "(string \<times> string) list"

text \<open>\<open>datetime.fromisoformat\<close>: a moment, or a datetime without an offset.\<close>

datatype parsed_time = Aware rat | Naive

record 'w connector_env =
  ce_rt :: pyrt
  ce_numbers :: number_texts
  ce_registry :: "'w \<Rightarrow> registry"
  ce_set_registry :: "registry \<Rightarrow> 'w \<Rightarrow> 'w"
  ce_now :: "('w, rat) act"
  ce_perf :: "('w, rat) act"
  ce_parse_time :: "string \<Rightarrow> parsed_time option"
  ce_iso :: "rat \<Rightarrow> string"
  ce_post :: "string \<Rightarrow> (string \<times> string) list \<Rightarrow> (string \<times> string) option \<Rightarrow> ('w, http_response) act"
  ce_send :: "http_request \<Rightarrow> ('w, http_response) act"
  ce_http_error :: "exn \<Rightarrow> bool"
  ce_sleep :: "rat \<Rightarrow> ('w, unit) act"
  ce_random :: "('w, rat) act"
  ce_encrypt :: "pydict \<Rightarrow> string"
  ce_decrypt :: "string \<Rightarrow> exn + pydict"
  ce_has_session :: bool
  ce_open :: "('w, unit) act"
  ce_close :: "('w, unit) act"
  ce_update_row :: "string \<Rightarrow> string \<Rightarrow> ('w, unit) act"
  ce_rollback :: "('w, unit) act"
  ce_acquire :: "string \<Rightarrow> ('w, unit) act"
  ce_release :: "string \<Rightarrow> ('w, unit) act"

definition REFRESH_LEEWAY :: rat where "REFRESH_LEEWAY = 60"

definition auth_error :: "string \<Rightarrow> exn" where
  "auth_error m = OtherError ''ConnectorAuthError'' m"

definition is_auth_error :: "exn \<Rightarrow> bool" where
  "is_auth_error e \<longleftrightarrow> exn_name e = ''ConnectorAuthError''"

definition with_lock :: "'w connector_env \<Rightarrow> string \<Rightarrow> ('w, 'a) act \<Rightarrow> ('w, 'a) act" where
  "with_lock env cid m = bindA (ce_acquire env cid) (\<lambda>_. finallyA m (ce_release env cid))"

section \<open>Static credentials\<close>

definition plain_request :: "(string \<times> string) list \<Rightarrow> prepared_request" where
  "plain_request headers =
     \<lparr>pr_headers = headers, pr_params = [], pr_basic_auth = None, pr_refreshed = None\<rparr>"

definition bearer_header :: "pyrt \<Rightarrow> pyval \<Rightarrow> (string \<times> string) list" where
  "bearer_header rt token = [(''Authorization'', ''Bearer '' @ py_str rt token)]"

definition prepare_api_key :: "pyrt \<Rightarrow> pydict \<Rightarrow> exn + prepared_request" where
  "prepare_api_key rt creds =
     (let token = py_or (dget creds ''token'') (dget creds ''api_key'')
      in if \<not> truthy token then
           Inl (auth_error ''api_key auth requires credentials.token (or .api_key)'')
         else case py_or (dget creds ''scheme'') (PStr ''bearer'') of
           PStr s \<Rightarrow>
             (let scheme = str_lower s
              in if scheme = ''bearer'' then Inr (plain_request (bearer_header rt token))
                 else if scheme = ''header'' then
                   Inr (plain_request [(py_str rt (py_or (dget creds ''header_name'')
                          (PStr ''X-API-Key'')), py_str rt token)])
                 else if scheme = ''query'' then
                   Inr ((plain_request [])\<lparr>pr_params := [(py_str rt (py_or (dget creds ''param_name'')
                          (PStr ''api_key'')), py_str rt token)]\<rparr>)
                 else Inl (auth_error (''unknown api_key scheme '' @ CHR 0x27 # scheme
                        @ CHR 0x27 # '' (expected bearer|header|query)'')))
         | v \<Rightarrow> Inl (OtherError ''AttributeError'' (type_name v @ '' object has no attribute lower'')))"

definition prepare_basic :: "pyrt \<Rightarrow> pydict \<Rightarrow> exn + prepared_request" where
  "prepare_basic rt creds =
     (let username = dget creds ''username''; password = dget creds ''password''
      in if username = PNone \<or> password = PNone then
           Inl (auth_error ''basic auth requires credentials.username and credentials.password'')
         else Inr ((plain_request [])\<lparr>pr_basic_auth := Some (py_str rt username, py_str rt password)\<rparr>))"

section \<open>Tokens\<close>

definition parse_datetime :: "'w connector_env \<Rightarrow> pyval \<Rightarrow> parsed_time option" where
  "parse_datetime env raw =
     (let t = py_str (ce_rt env) raw
      in ce_parse_time env (if endswith t ''Z'' then take (length t - 1) t @ ''+00:00'' else t))"

text \<open>Comparing a moment with a datetime without an offset is a \<open>TypeError\<close>.\<close>

definition access_token_is_fresh :: "'w connector_env \<Rightarrow> pydict \<Rightarrow> ('w, bool) act" where
  "access_token_is_fresh env creds =
     (if \<not> truthy (dget creds ''access_token'') then returnA False
      else if \<not> truthy (dget creds ''expires_at'') then returnA True
      else case parse_datetime env (dget creds ''expires_at'') of
        None \<Rightarrow> returnA False
      | Some t \<Rightarrow> bindA (ce_now env) (\<lambda>now. case t of
            Aware expires_at \<Rightarrow> returnA (now + REFRESH_LEEWAY < expires_at)
          | Naive \<Rightarrow> raiseA (type_error ''offset-naive and offset-aware datetimes'')))"

definition refresh_form :: "pyrt \<Rightarrow> pydict \<Rightarrow> (string \<times> string) list" where
  "refresh_form rt creds =
     (let add = (\<lambda>k form. if truthy (dget creds k) then dset form k (py_str rt (dget creds k)) else form)
      in add ''client_secret'' (add ''client_id'' (add ''scope''
           (if truthy (dget creds ''refresh_token'')
            then [(''grant_type'', ''refresh_token''),
                  (''refresh_token'', py_str rt (dget creds ''refresh_token''))]
            else [(''grant_type'', ''client_credentials'')]))))"

definition refresh_auth :: "pyrt \<Rightarrow> pydict \<Rightarrow> (string \<times> string) option" where
  "refresh_auth rt creds =
     (if truthy (dget creds ''client_id'') \<and> truthy (dget creds ''client_secret'')
      then Some (py_str rt (dget creds ''client_id''), py_str rt (dget creds ''client_secret''))
      else None)"

text \<open>Whole seconds of a positive \<open>expires_in\<close>.\<close>

definition lifetime :: "pyval \<Rightarrow> int option" where
  "lifetime v = (case num_of v of None \<Rightarrow> None | Some r \<Rightarrow> if 0 < r then Some \<lfloor>r\<rfloor> else None)"

definition token_patch :: "'w connector_env \<Rightarrow> http_response \<Rightarrow> ('w, pydict) act" where
  "token_patch env response =
     (case hr_json response of
        None \<Rightarrow> raiseA (value_error ''token response is not JSON'')
      | Some (PDict body) \<Rightarrow>
          (case map_of body ''access_token'' of
             None \<Rightarrow> raiseA (OtherError ''KeyError'' ''access_token'')
           | Some token \<Rightarrow>
               let patch = [(''access_token'', token)]
                 @ (if truthy (dget body ''refresh_token'')
                    then [(''refresh_token'', dget body ''refresh_token'')] else [])
               in (case lifetime (dget body ''expires_in'') of
                     None \<Rightarrow> returnA patch
                   | Some secs \<Rightarrow> bindA (ce_now env) (\<lambda>now.
                       returnA (patch @ [(''expires_at'', PStr (ce_iso env (now + of_int secs)))]))))
      | Some _ \<Rightarrow> raiseA (type_error ''token response is not an object''))"

definition oauth2_refresh :: "'w connector_env \<Rightarrow> pydict \<Rightarrow> ('w, pydict) act" where
  "oauth2_refresh env creds =
     bindA (ce_post env (py_str (ce_rt env) (dget creds ''token_url''))
              (refresh_form (ce_rt env) creds) (refresh_auth (ce_rt env) creds)) (\<lambda>response.
       if 400 \<le> hr_status response then
         raiseA (auth_error (''oauth2 token refresh failed: HTTP '' @ int_str (hr_status response)
           @ '' '' @ take 300 (hr_text response)))
       else token_patch env response)"

text \<open>The cached row of the connector gets the new ciphertext, and so does the database.\<close>

definition remember_credentials :: "string \<Rightarrow> string \<Rightarrow> registry \<Rightarrow> registry" where
  "remember_credentials cid ciphertext reg =
     reg\<lparr>rg_connectors := map (\<lambda>(k, c, ops).
       (k, if co_id c = cid then c\<lparr>co_credentials := Some ciphertext\<rparr> else c, ops)) (rg_connectors reg)\<rparr>"

definition persist_credentials :: "'w connector_env \<Rightarrow> string \<Rightarrow> pydict \<Rightarrow> ('w, unit) act" where
  "persist_credentials env cid creds =
     (let ciphertext = ce_encrypt env creds
      in bindA (writeA (\<lambda>w. ce_set_registry env
                  (remember_credentials cid ciphertext (ce_registry env w)) w)) (\<lambda>_.
           tryA (ce_update_row env cid ciphertext)
             (\<lambda>e. bindA (ce_rollback env) (\<lambda>_. raiseA e))))"

definition prepare_oauth2 ::
  "'w connector_env \<Rightarrow> connector \<Rightarrow> pydict \<Rightarrow> bool \<Rightarrow> ('w, prepared_request) act" where
  "prepare_oauth2 env c creds with_db =
     (let current = plain_request (bearer_header (ce_rt env) (dget creds ''access_token''))
      in bindA (access_token_is_fresh env creds) (\<lambda>fresh.
         if fresh then returnA current
         else if \<not> truthy (dget creds ''token_url'') then
           raiseA (auth_error ''oauth2 auth requires credentials.token_url to refresh'')
         else
           bindA (with_lock env (co_id c)
             (bindA (access_token_is_fresh env creds) (\<lambda>fresh.
                if fresh then returnA None
                else bindA (oauth2_refresh env creds) (\<lambda>tokens. returnA (Some tokens))))) (\<lambda>tokens.
           case tokens of
             None \<Rightarrow> returnA current
           | Some new_tokens \<Rightarrow>
               let merged = dupdate creds new_tokens;
                   headers = bearer_header (ce_rt env) (dget merged ''access_token'')
               in if with_db then
                    bindA (persist_credentials env (co_id c) merged)
                      (\<lambda>_. returnA (plain_request headers))
                  else returnA ((plain_request headers)\<lparr>pr_refreshed := Some merged\<rparr>))))"

definition prepare ::
  "'w connector_env \<Rightarrow> connector \<Rightarrow> pydict \<Rightarrow> bool \<Rightarrow> ('w, prepared_request) act" where
  "prepare env c creds with_db =
     (case co_auth_type c of
        AuthNone \<Rightarrow> returnA (plain_request [])
      | ApiKey \<Rightarrow> liftR (prepare_api_key (ce_rt env) creds)
      | Basic \<Rightarrow> liftR (prepare_basic (ce_rt env) creds)
      | OAuth2 \<Rightarrow> prepare_oauth2 env c creds with_db)"

definition force_refresh_oauth2 ::
  "'w connector_env \<Rightarrow> connector \<Rightarrow> pydict \<Rightarrow> bool \<Rightarrow> ('w, pydict) act" where
  "force_refresh_oauth2 env c creds with_db =
     (if \<not> truthy (dget creds ''token_url'') then
        raiseA (auth_error ''oauth2 force-refresh requires credentials.token_url'')
      else
        bindA (with_lock env (co_id c) (oauth2_refresh env creds)) (\<lambda>new_tokens.
          let merged = dupdate creds new_tokens
          in if with_db then bindA (persist_credentials env (co_id c) merged) (\<lambda>_. returnA merged)
             else returnA merged))"

section \<open>A coroutine that waited for the lock\<close>

text \<open>
  What the proof needs of the host: clock, lock and token endpoint return, time does not run
  backwards, and \<open>posts\<close> counts the calls of the token endpoint.
\<close>

locale token_host =
  fixes env :: "'w connector_env" and clock :: "'w \<Rightarrow> rat" and posts :: "'w \<Rightarrow> nat"
  assumes now: "\<exists>w'. ce_now env w = Some (Inr (clock w), w') \<and> clock w \<le> clock w' \<and> posts w' = posts w"
    and acquire: "\<exists>w'. ce_acquire env i w = Some (Inr (), w') \<and> clock w \<le> clock w' \<and> posts w \<le> posts w'"
    and post: "\<exists>r w'. ce_post env u f a w = Some (r, w') \<and> posts w' = Suc (posts w)"
    and release: "\<exists>w'. ce_release env i w = Some (Inr (), w') \<and> posts w' = posts w"
begin

definition stale :: "pydict \<Rightarrow> 'w \<Rightarrow> bool" where
  "stale creds w \<longleftrightarrow> (\<exists>w'. access_token_is_fresh env creds w = Some (Inr False, w'))"

lemma stale_result:
  assumes "stale creds w"
  obtains w' where "access_token_is_fresh env creds w = Some (Inr False, w')"
    and "clock w \<le> clock w'" and "posts w' = posts w"
proof -
  obtain w1 where w1: "access_token_is_fresh env creds w = Some (Inr False, w1)"
    using assms by (auto simp: stale_def)
  obtain w2 where w2: "ce_now env w = Some (Inr (clock w), w2)" "clock w \<le> clock w2" "posts w2 = posts w"
    using now by blast
  from w1 w2 have "clock w \<le> clock w1 \<and> posts w1 = posts w"
    by (auto simp: access_token_is_fresh_def returnA_def raiseA_def bindA_def
        split: if_splits option.splits parsed_time.splits)
  with w1 that show thesis by blast
qed

lemma stale_later: "stale creds w \<Longrightarrow> clock w \<le> clock w1 \<Longrightarrow> stale creds w1"
proof -
  assume s: "stale creds w" and le: "clock w \<le> clock w1"
  obtain v where v: "ce_now env w = Some (Inr (clock w), v)" using now by blast
  obtain v1 where v1: "ce_now env w1 = Some (Inr (clock w1), v1)" using now by blast
  from s v v1 le show ?thesis
    by (auto simp: stale_def access_token_is_fresh_def returnA_def raiseA_def bindA_def
        split: if_splits option.splits parsed_time.splits)
qed

lemma refresh_posts:
  "\<exists>r w'. oauth2_refresh env creds w = Some (r, w') \<and> posts w' = Suc (posts w)"
proof -
  obtain r w1 where p: "ce_post env (py_str (ce_rt env) (dget creds ''token_url''))
      (refresh_form (ce_rt env) creds) (refresh_auth (ce_rt env) creds) w = Some (r, w1)"
    "posts w1 = Suc (posts w)" using post by blast
  have patch: "\<exists>r' w'. token_patch env resp w1 = Some (r', w') \<and> posts w' = posts w1" for resp
  proof -
    obtain w2 where "ce_now env w1 = Some (Inr (clock w1), w2)" "posts w2 = posts w1" using now by blast
    then show ?thesis
      by (auto simp: token_patch_def raiseA_def returnA_def bindA_def Let_def
          split: option.splits pyval.splits)
  qed
  show ?thesis
  proof (cases r)
    case (Inl e)
    with p show ?thesis by (simp add: oauth2_refresh_def bindA_def)
  next
    case (Inr resp)
    with p patch [of resp] show ?thesis by (auto simp: oauth2_refresh_def bindA_def raiseA_def)
  qed
qed

lemma waiter_posts:
  assumes fresh: "access_token_is_fresh env creds w = Some (Inr False, w1)"
    and "truthy (dget creds ''token_url'')"
  shows "\<exists>w2 r w'. ce_acquire env (co_id k) w1 = Some (Inr (), w2) \<and>
    prepare_oauth2 env k creds False w = Some (r, w') \<and> posts w2 < posts w'"
proof -
  have s: "stale creds w" using fresh by (auto simp: stale_def)
  have w1: "access_token_is_fresh env creds w = Some (Inr False, w1)" "clock w \<le> clock w1"
    using stale_result [OF s] fresh by auto
  obtain w2 where w2: "ce_acquire env (co_id k) w1 = Some (Inr (), w2)" "clock w1 \<le> clock w2"
    "posts w1 \<le> posts w2" using acquire by blast
  have "stale creds w2" using stale_later [OF s] w1 w2 by simp
  then obtain w3 where w3: "access_token_is_fresh env creds w2 = Some (Inr False, w3)"
    "posts w3 = posts w2" using stale_result by metis
  obtain r w4 where w4: "oauth2_refresh env creds w3 = Some (r, w4)" "posts w4 = Suc (posts w3)"
    using refresh_posts by blast
  obtain w5 where w5: "ce_release env (co_id k) w4 = Some (Inr (), w5)" "posts w5 = posts w4"
    using release by blast
  have "with_lock env (co_id k) (bindA (access_token_is_fresh env creds) (\<lambda>fresh.
                if fresh then returnA None
                else bindA (oauth2_refresh env creds) (\<lambda>tokens. returnA (Some tokens)))) w1
     = Some (map_sum id Some r, w5)"
    using w2 w3 w4 w5
    by (cases r) (simp_all add: with_lock_def finallyA_def try_allA_def bindA_def returnA_def liftR_def)
  with w1 assms(2) have "\<exists>r'. prepare_oauth2 env k creds False w = Some (r', w5)"
    by (cases r) (auto simp: prepare_oauth2_def bindA_def returnA_def Let_def)
  with w2 w3 w4 w5 show ?thesis by force
qed

end

record auth_world =
  aw_now :: rat
  aw_posts :: nat
  aw_sends :: nat
  aw_statuses :: "int list"
  aw_registry :: registry

definition fresh_body :: pydict where
  "fresh_body = [(''access_token'', PStr ''new''), (''expires_in'', PInt 3600)]"

text \<open>
  The lock of the sample is held by another coroutine, which refreshes the tokens of the
  connector and stores them before it lets go.
\<close>

definition sample_connector_env :: "auth_world connector_env" where
  "sample_connector_env =
     \<lparr>ce_rt = sample_rt, ce_numbers = sample_number_texts, ce_registry = aw_registry,
      ce_set_registry = (\<lambda>r w. w\<lparr>aw_registry := r\<rparr>),
      ce_now = (\<lambda>w. Some (Inr (aw_now w), w)), ce_perf = (\<lambda>w. Some (Inr (aw_now w), w)),
      ce_parse_time = (\<lambda>s. if s = ''soon'' then Some (Aware 10) else None), ce_iso = (\<lambda>_. ''later''),
      ce_post = (\<lambda>u f a w. Some (Inr \<lparr>hr_status = 200, hr_content_type = ''application/json'',
         hr_text = ''body'', hr_json = Some (PDict fresh_body)\<rparr>, w\<lparr>aw_posts := Suc (aw_posts w)\<rparr>)),
      ce_send = (\<lambda>q w. Some (Inr \<lparr>hr_status = (case aw_statuses w of [] \<Rightarrow> 200 | s # _ \<Rightarrow> s),
           hr_content_type = [], hr_text = [], hr_json = None\<rparr>,
         w\<lparr>aw_sends := Suc (aw_sends w), aw_statuses := tl (aw_statuses w)\<rparr>)),
      ce_http_error = (\<lambda>e. exn_name e = ''ConnectError''), ce_sleep = (\<lambda>_. returnA ()),
      ce_random = returnA 0, ce_encrypt = (\<lambda>d. py_str sample_rt (dget d ''access_token'')),
      ce_decrypt = (\<lambda>s. Inr [(''access_token'', PStr s)]), ce_has_session = True, ce_open = returnA (),
      ce_close = returnA (), ce_update_row = (\<lambda>_ _. returnA ()), ce_rollback = returnA (),
      ce_acquire = (\<lambda>i w. Some (Inr (), w\<lparr>aw_posts := Suc (aw_posts w),
         aw_registry := remember_credentials i ''new'' (aw_registry w)\<rparr>)),
      ce_release = (\<lambda>_. returnA ())\<rparr>"

interpretation sample_tokens: token_host sample_connector_env aw_now aw_posts
  by unfold_locales (auto simp: sample_connector_env_def returnA_def)

text \<open>
  A coroutine that finds its token stale calls the token endpoint even when another
  one refreshed the tokens while it waited for the lock (from \<open>w1\<close> to \<open>w2\<close>): the second look
  inside the lock is at the same credentials as the first.
\<close>

theorem oauth2_waiter_refreshes:
  assumes "token_host env clock posts" and "access_token_is_fresh env creds w = Some (Inr False, w1)"
    and "truthy (dget creds ''token_url'')"
  shows "\<exists>w2 r w'. ce_acquire env (co_id c) w1 = Some (Inr (), w2) \<and>
    prepare_oauth2 env c creds False w = Some (r, w') \<and> posts w2 < posts w'"
  by (rule token_host.waiter_posts [OF assms])

definition sample_connector :: connector where
  "sample_connector = \<lparr>co_id = ''k1'', co_name = ''jobs'', co_auth_type = OAuth2,
     co_base_url = ''https://x'', co_credentials = Some ''old'', co_is_active = True\<rparr>"

definition stale_creds :: pydict where
  "stale_creds = [(''access_token'', PStr ''old''), (''expires_at'', PStr ''soon''),
     (''token_url'', PStr ''https://idp'')]"

definition stale_world :: auth_world where
  "stale_world = \<lparr>aw_now = 5, aw_posts = 0, aw_sends = 0, aw_statuses = [401, 503, 503, 503],
     aw_registry = \<lparr>rg_connectors = [(''k1'', sample_connector, [])], rg_operations = []\<rparr>\<rparr>"

theorem oauth2_waiter_refreshes_witness:
  "\<exists>w2 r w'. ce_acquire sample_connector_env ''k1'' stale_world = Some (Inr (), w2) \<and>
     prepare_oauth2 sample_connector_env sample_connector stale_creds False stale_world
       = Some (r, w') \<and> aw_posts w2 < aw_posts w'"
proof -
  have "access_token_is_fresh sample_connector_env stale_creds stale_world
      = Some (Inr False, stale_world)"
    by (simp add: access_token_is_fresh_def stale_creds_def dget_def parse_datetime_def
        sample_connector_env_def endswith_def bindA_def returnA_def stale_world_def
        REFRESH_LEEWAY_def)
  from oauth2_waiter_refreshes [OF sample_tokens.token_host_axioms this, of sample_connector]
  show ?thesis by (simp add: stale_creds_def dget_def sample_connector_def)
qed

end
