(* ===== verification/ConnectorRegistry.thy ===== *)
theory ConnectorRegistry
  imports ConnectorAuth
begin

text \<open>
  The registry of connectors and operations and the execution of an operation
  (luna_core/connectors/registry.py).  The two maps of the registry are association lists; the
  rows of the database are arguments of the functions that load them.
\<close>

section \<open>The registry\<close>

definition empty_registry :: registry where
  "empty_registry = \<lparr>rg_connectors = [], rg_operations = []\<rparr>"

definition key_error :: "string \<Rightarrow> string \<Rightarrow> exn" where
  "key_error i problem = OtherError ''KeyError'' (''operation '' @ i @ problem)"

definition add_operation :: "operation \<Rightarrow> registry \<Rightarrow> registry" where
  "add_operation op reg =
     (case map_of (rg_connectors reg) (op_connector_id op) of
        None \<Rightarrow> reg
      | Some (c, ops) \<Rightarrow>
          reg\<lparr>rg_connectors := dset (rg_connectors reg) (op_connector_id op) (c, dset ops (op_id op) op),
              rg_operations := dset (rg_operations reg) (op_id op) (op_connector_id op)\<rparr>)"

definition load_from_db :: "connector list \<Rightarrow> operation list \<Rightarrow> registry \<Rightarrow> registry" where
  "load_from_db connectors operations reg =
     fold add_operation (filter op_is_active operations)
       \<lparr>rg_connectors = dupdate [] (map (\<lambda>c. (co_id c, c, [])) (filter co_is_active connectors)),
        rg_operations = []\<rparr>"

definition register :: "connector \<Rightarrow> operation list \<Rightarrow> registry \<Rightarrow> registry" where
  "register c operations reg =
     (let ops = (case map_of (rg_connectors reg) (co_id c) of None \<Rightarrow> [] | Some (_, ops) \<Rightarrow> ops)
      in reg\<lparr>rg_connectors := dset (rg_connectors reg) (co_id c)
               (c, dupdate ops (map (\<lambda>op. (op_id op, op)) operations)),
             rg_operations := dupdate (rg_operations reg)
               (map (\<lambda>op. (op_id op, co_id c)) operations)\<rparr>)"

definition unregister_operation :: "string \<Rightarrow> registry \<Rightarrow> registry" where
  "unregister_operation i reg =
     (case map_of (rg_operations reg) i of
        None \<Rightarrow> reg
      | Some cid \<Rightarrow>
          reg\<lparr>rg_operations := dpop (rg_operations reg) i,
              rg_connectors := (case map_of (rg_connectors reg) cid of
                 None \<Rightarrow> rg_connectors reg
               | Some (c, ops) \<Rightarrow> dset (rg_connectors reg) cid (c, dpop ops i))\<rparr>)"

definition unregister_connector :: "string \<Rightarrow> registry \<Rightarrow> registry" where
  "unregister_connector cid reg =
     (case map_of (rg_connectors reg) cid of
        None \<Rightarrow> reg
      | Some (c, ops) \<Rightarrow>
          reg\<lparr>rg_connectors := dpop (rg_connectors reg) cid,
              rg_operations := fold (\<lambda>i m. dpop m i) (dkeys ops) (rg_operations reg)\<rparr>)"

definition get_operation :: "registry \<Rightarrow> string \<Rightarrow> exn + operation" where
  "get_operation reg i =
     (case map_of (rg_operations reg) i of
        None \<Rightarrow> Inl (key_error i '' not registered'')
      | Some cid \<Rightarrow>
          (case map_of (rg_connectors reg) cid of
             None \<Rightarrow> Inl (OtherError ''KeyError'' cid)
           | Some (_, ops) \<Rightarrow>
               (case map_of ops i of None \<Rightarrow> Inl (OtherError ''KeyError'' i) | Some op \<Rightarrow> Inr op)))"

definition get_connector_for :: "registry \<Rightarrow> string \<Rightarrow> exn + connector" where
  "get_connector_for reg i =
     (case map_of (rg_operations reg) i of
        None \<Rightarrow> Inl (key_error i '' not registered'')
      | Some cid \<Rightarrow>
          (case map_of (rg_connectors reg) cid of
             None \<Rightarrow> Inl (OtherError ''KeyError'' cid) | Some (c, _) \<Rightarrow> Inr c))"

text \<open>\<open>rows\<close> gives the operation with its connector, active or not.\<close>

definition ensure_registered ::
  "(string \<Rightarrow> (operation \<times> connector) option) \<Rightarrow> string \<Rightarrow> registry \<Rightarrow> (exn + operation) \<times> registry" where
  "ensure_registered rows i reg =
     (if dhas (rg_operations reg) i then (get_operation reg i, reg)
      else case rows i of
        None \<Rightarrow> (Inl (key_error i '' not found''), reg)
      | Some (op, c) \<Rightarrow> (Inr op, register c [op] reg))"

definition credentials_for :: "'w connector_env \<Rightarrow> registry \<Rightarrow> string \<Rightarrow> exn + pydict option" where
  "credentials_for env reg cid =
     (case map_of (rg_connectors reg) cid of
        None \<Rightarrow> Inr None
      | Some (c, _) \<Rightarrow>
          (case co_credentials c of
             None \<Rightarrow> Inr None
           | Some ciphertext \<Rightarrow> bindR (ce_decrypt env ciphertext) (\<lambda>d. Inr (Some d))))"

section \<open>Executing an operation\<close>

record call_result =
  cr_ok :: bool
  cr_status_code :: "int option"
  cr_latency_ms :: int
  cr_method :: string
  cr_url :: string
  cr_response :: "pyval option"
  cr_error :: "string option"

definition with_session :: "'w connector_env \<Rightarrow> (bool \<Rightarrow> ('w, 'a) act) \<Rightarrow> ('w, 'a) act" where
  "with_session env m =
     (if ce_has_session env then bindA (ce_open env) (\<lambda>_. finallyA (m True) (ce_close env))
      else m False)"

definition prepare_auth :: "'w connector_env \<Rightarrow> connector \<Rightarrow> pydict \<Rightarrow> ('w, prepared_request) act" where
  "prepare_auth env c creds = with_session env (prepare env c creds)"

definition force_oauth2_refresh :: "'w connector_env \<Rightarrow> connector \<Rightarrow> pydict \<Rightarrow> ('w, pydict) act" where
  "force_oauth2_refresh env c creds = with_session env (force_refresh_oauth2 env c creds)"

definition wait_for_retry :: "'w connector_env \<Rightarrow> retry_policy \<Rightarrow> nat \<Rightarrow> ('w, unit) act" where
  "wait_for_retry env policy made =
     bindA (if rp_jitter policy then ce_random env else returnA 0) (\<lambda>u.
       ce_sleep env (delay_seconds_for_retry policy u (int made)))"

text \<open>
  What follows a response: one refresh of the tokens for an OAuth2 connector whose request was
  refused, a retry the policy still allows, or the end.
\<close>

datatype next_step = RefreshTokens | Retry retry_policy | Answer

definition next_step :: "auth_type \<Rightarrow> retry_policy option \<Rightarrow> bool \<Rightarrow> nat \<Rightarrow> int \<Rightarrow> next_step" where
  "next_step auth policy used left status =
     (if \<not> used \<and> status \<in> {401, 403} \<and> auth = OAuth2 then RefreshTokens
      else case policy of
        None \<Rightarrow> Answer
      | Some p \<Rightarrow> if 0 < left \<and> should_retry p (Some status) then Retry p else Answer)"

lemma next_step_Refresh: "next_step auth policy used left status = RefreshTokens \<Longrightarrow> \<not> used"
  and next_step_Retry: "next_step auth policy used left status = Retry p \<Longrightarrow>
    0 < left \<and> should_retry p (Some status) \<and> policy = Some p"
  by (auto simp: next_step_def split: if_splits option.splits)

text \<open>
  The loop of \<open>_execute_http\<close>: \<open>used\<close> is \<open>oauth2_refresh_used\<close>, \<open>left\<close> is
  \<open>policy_retries_left\<close>, \<open>made\<close> the retries so far.  \<open>Inl\<close> is the text of an error that
  ends the call.
\<close>

function request_loop ::
  "'w connector_env \<Rightarrow> connector \<Rightarrow> http_method \<Rightarrow> request_plan \<Rightarrow> retry_policy option
   \<Rightarrow> bool \<Rightarrow> nat \<Rightarrow> nat \<Rightarrow> pydict \<Rightarrow> ('w, string + prepared_request \<times> http_response) act" where
  "request_loop env c m plan policy used made left creds =
     bindA (attemptA is_auth_error (prepare_auth env c creds)) (\<lambda>p. case p of
       Inl e \<Rightarrow> returnA (Inl (exn_text e))
     | Inr prepared \<Rightarrow>
         bindA (attemptA (ce_http_error env) (ce_send env (build_request (ce_rt env) m plan prepared)))
           (\<lambda>r. case r of
             Inl e \<Rightarrow> returnA (Inl (exn_text e))
           | Inr response \<Rightarrow>
               (case next_step (co_auth_type c) policy used left (hr_status response) of
                  RefreshTokens \<Rightarrow>
                    bindA (attemptA is_auth_error (force_oauth2_refresh env c creds)) (\<lambda>f. case f of
                      Inl e \<Rightarrow> returnA (Inl (exn_text e))
                    | Inr creds' \<Rightarrow> request_loop env c m plan policy True made left creds')
                | Retry p \<Rightarrow>
                    bindA (wait_for_retry env p (Suc made)) (\<lambda>_.
                      request_loop env c m plan policy used (Suc made) (left - 1) creds)
                | Answer \<Rightarrow> returnA (Inr (prepared, response)))))"
  by pat_completeness auto
termination
  by (relation "measure (\<lambda>(_, _, _, _, _, used, _, left, _). left + (if used then 0 else 1))")
     (auto dest: next_step_Refresh next_step_Retry)

declare request_loop.simps [simp del]

definition persist_refreshed :: "'w connector_env \<Rightarrow> connector \<Rightarrow> pydict option \<Rightarrow> ('w, unit) act" where
  "persist_refreshed env c refreshed =
     (case refreshed of
        None \<Rightarrow> returnA ()
      | Some creds \<Rightarrow>
          if \<not> ce_has_session env then returnA ()
          else with_session env (\<lambda>_. persist_credentials env (co_id c) creds))"

definition latency_ms :: "rat \<Rightarrow> rat \<Rightarrow> int" where
  "latency_ms started now = (let d = (now - started) * 1000 in if 0 \<le> d then \<lfloor>d\<rfloor> else \<lceil>d\<rceil>)"

definition execute_http ::
  "'w connector_env \<Rightarrow> connector \<Rightarrow> pydict \<Rightarrow> http_method \<Rightarrow> string \<Rightarrow> pydict list \<Rightarrow> pydict
   \<Rightarrow> pydict option \<Rightarrow> retry_policy option \<Rightarrow> pydict \<Rightarrow> ('w, call_result) act" where
  "execute_http env c creds m path parameters fixed_headers fixed_body policy input =
     bindA (liftR (plan_request (ce_rt env) (co_base_url c) m path parameters fixed_headers fixed_body input))
       (\<lambda>plan.
     bindA (ce_perf env) (\<lambda>started.
     bindA (request_loop env c m plan policy False 0
       (case policy of None \<Rightarrow> 0 | Some p \<Rightarrow> nat (rp_max_attempts p - 1)) creds) (\<lambda>outcome.
     bindA (ce_perf env) (\<lambda>now.
       let result = \<lparr>cr_ok = False, cr_status_code = None, cr_latency_ms = latency_ms started now,
             cr_method = method_text m, cr_url = pl_url plan, cr_response = None, cr_error = None\<rparr>
       in (case outcome of
             Inl e \<Rightarrow> returnA (result\<lparr>cr_error := Some e\<rparr>)
           | Inr (prepared, response) \<Rightarrow>
               bindA (persist_refreshed env c (pr_refreshed prepared)) (\<lambda>_.
                 returnA (result\<lparr>cr_ok := hr_status response < 400,
                   cr_status_code := Some (hr_status response),
                   cr_response := Some (decode_response response)\<rparr>)))))))"

definition perform :: "'w connector_env \<Rightarrow> string \<Rightarrow> pydict \<Rightarrow> ('w, call_result) act" where
  "perform env i input =
     bindA (readA (ce_registry env)) (\<lambda>reg.
     bindA (liftR (get_operation reg i)) (\<lambda>op.
     bindA (liftR (get_connector_for reg i)) (\<lambda>c.
     bindA (liftR (credentials_for env reg (co_id c))) (\<lambda>creds.
     bindA (liftR (parse_retry_policy (ce_numbers env) (op_retry_policy op))) (\<lambda>policy.
       execute_http env c (case creds of None \<Rightarrow> [] | Some d \<Rightarrow> d) (op_method op) (op_path op)
         (op_parameters op) (op_fixed_headers op) (op_fixed_body op) policy input)))))"

definition perform_draft ::
  "'w connector_env \<Rightarrow> connector \<Rightarrow> string \<Rightarrow> string \<Rightarrow> pydict list \<Rightarrow> pydict \<Rightarrow> pydict option \<Rightarrow> pydict
   \<Rightarrow> pydict option \<Rightarrow> ('w, call_result) act" where
  "perform_draft env c m path parameters fixed_headers fixed_body input policy =
     bindA (readA (ce_registry env)) (\<lambda>reg.
     bindA (liftR (credentials_for env reg (co_id c))) (\<lambda>creds.
     bindA (liftR (case (creds, co_credentials c) of
         (None, Some ciphertext) \<Rightarrow> ce_decrypt env ciphertext
       | (None, None) \<Rightarrow> Inr [] | (Some d, _) \<Rightarrow> Inr d)) (\<lambda>creds.
     bindA (liftR (parse_retry_policy (ce_numbers env) policy)) (\<lambda>policy.
     bindA (liftR (coerce_method m)) (\<lambda>m.
       execute_http env c creds m path parameters fixed_headers fixed_body policy input)))))"

definition execute :: "'w connector_env \<Rightarrow> string \<Rightarrow> pydict \<Rightarrow> ('w, pyval) act" where
  "execute env i input =
     bindA (perform env i input) (\<lambda>result.
     bindA (readA (ce_registry env)) (\<lambda>reg.
     bindA (liftR (get_operation reg i)) (\<lambda>op.
     bindA (liftR (get_connector_for reg i)) (\<lambda>c.
       let label = ''connector '' @ co_name c @ ''.'' @ op_name op
       in case (cr_error result, cr_status_code result) of
            (Some e, _) \<Rightarrow> raiseA (connector_error (label @ '' transport error: '' @ e))
          | (None, Some code) \<Rightarrow>
              if 400 \<le> code then raiseA (connector_error (label @ '' returned HTTP '' @ int_str code
                @ '': '' @ (case cr_response result of None \<Rightarrow> []
                            | Some v \<Rightarrow> take 400 (py_str (ce_rt env) v))))
              else returnA (case cr_response result of None \<Rightarrow> PDict []
                            | Some v \<Rightarrow> py_or v (PDict []))
          | (None, None) \<Rightarrow> returnA (case cr_response result of None \<Rightarrow> PDict []
                            | Some v \<Rightarrow> py_or v (PDict []))))))"

section \<open>Every registered operation is found\<close>

definition registry_ok :: "registry \<Rightarrow> bool" where
  "registry_ok reg \<longleftrightarrow> (\<forall>i cid. map_of (rg_operations reg) i = Some cid \<longrightarrow>
     (\<exists>c ops op. map_of (rg_connectors reg) cid = Some (c, ops) \<and> map_of ops i = Some op))"

inductive registry_reach :: "registry \<Rightarrow> bool" where
  start: "registry_reach empty_registry"
| load: "registry_reach reg \<Longrightarrow> registry_reach (load_from_db cs ops reg)"
| register: "registry_reach reg \<Longrightarrow> registry_reach (register c ops reg)"
| drop_operation: "registry_reach reg \<Longrightarrow> registry_reach (unregister_operation i reg)"
| drop_connector: "registry_reach reg \<Longrightarrow> registry_reach (unregister_connector cid reg)"
| ensure: "registry_reach reg \<Longrightarrow> registry_reach (snd (ensure_registered rows i reg))"
| remember: "registry_reach reg \<Longrightarrow> registry_reach (remember_credentials cid text reg)"

lemma registry_okI:
  "(\<And>i cid. map_of (rg_operations reg) i = Some cid \<Longrightarrow>
     \<exists>c ops op. map_of (rg_connectors reg) cid = Some (c, ops) \<and> map_of ops i = Some op) \<Longrightarrow>
   registry_ok reg"
  by (simp add: registry_ok_def)

lemma registry_okD:
  "registry_ok reg \<Longrightarrow> map_of (rg_operations reg) i = Some cid \<Longrightarrow>
   \<exists>c ops op. map_of (rg_connectors reg) cid = Some (c, ops) \<and> map_of ops i = Some op"
  by (simp add: registry_ok_def)

lemma add_operation_ok: "registry_ok reg \<Longrightarrow> registry_ok (add_operation op reg)"
  by (auto simp: registry_ok_def add_operation_def split: option.splits prod.splits) fastforce+

lemma load_ok: "registry_ok (load_from_db cs ops reg)"
proof -
  have "registry_ok reg0 \<Longrightarrow> registry_ok (fold add_operation os reg0)" for os reg0
    by (induction os arbitrary: reg0) (auto intro: add_operation_ok)
  then show ?thesis by (simp add: load_from_db_def registry_ok_def)
qed

lemma dupdate_keys_map: "map_of (dupdate d e) k \<noteq> None \<longleftrightarrow> map_of d k \<noteq> None \<or> k \<in> fst ` set e"
  using dupdate_keys [of d e] by (metis (no_types, lifting) UnE UnI1 UnI2 dhas_def dhas_iff_fst)

lemma dupdate_const:
  "map_of (dupdate d (map (\<lambda>x. (f x, v)) xs)) k = (if k \<in> f ` set xs then Some v else map_of d k)"
  by (induction xs arbitrary: d) auto

lemma register_ok: "registry_ok reg \<Longrightarrow> registry_ok (register c ops reg)"
proof (rule registry_okI)
  fix i cid
  assume ok: "registry_ok reg" and i: "map_of (rg_operations (register c ops reg)) i = Some cid"
  let ?old = "case map_of (rg_connectors reg) (co_id c) of None \<Rightarrow> [] | Some (_, ops) \<Rightarrow> ops"
  have conn: "rg_connectors (register c ops reg) = dset (rg_connectors reg) (co_id c)
      (c, dupdate ?old (map (\<lambda>op. (op_id op, op)) ops))"
    by (simp add: register_def Let_def)
  have case_i: "i \<in> op_id ` set ops \<and> cid = co_id c \<or> map_of (rg_operations reg) i = Some cid"
    using i by (auto simp: register_def Let_def dupdate_const split: if_splits)
  show "\<exists>c' ops' op. map_of (rg_connectors (register c ops reg)) cid = Some (c', ops') \<and> map_of ops' i = Some op"
  proof (cases "cid = co_id c")
    case True
    have "map_of ?old i \<noteq> None \<or> i \<in> op_id ` set ops"
      using case_i registry_okD [OF ok, of i cid] True by auto
    then have "map_of (dupdate ?old (map (\<lambda>op. (op_id op, op)) ops)) i \<noteq> None"
      unfolding dupdate_keys_map by (auto simp: image_image)
    with True show ?thesis by (auto simp: conn)
  next
    case False
    with case_i registry_okD [OF ok, of i cid] show ?thesis by (auto simp: conn)
  qed
qed

lemma unregister_operation_ok: "registry_ok reg \<Longrightarrow> registry_ok (unregister_operation i reg)"
  by (rule registry_okI)
     (auto simp: unregister_operation_def dpop_conv registry_ok_def split: option.splits prod.splits
       if_splits, fastforce+)

lemma fold_dpop: "map_of (fold (\<lambda>i m. dpop m i) is m) k = (if k \<in> set is then None else map_of m k)"
  by (induction "is" arbitrary: m) (auto simp: dpop_conv)

lemma unregister_connector_ok: "registry_ok reg \<Longrightarrow> registry_ok (unregister_connector cid reg)"
proof (rule registry_okI)
  fix i k
  assume ok: "registry_ok reg" and i: "map_of (rg_operations (unregister_connector cid reg)) i = Some k"
  show "\<exists>c ops op. map_of (rg_connectors (unregister_connector cid reg)) k = Some (c, ops) \<and> map_of ops i = Some op"
  proof (cases "map_of (rg_connectors reg) cid")
    case None
    with i registry_okD [OF ok, of i k] show ?thesis by (simp add: unregister_connector_def)
  next
    case (Some p)
    obtain c ops where p: "p = (c, ops)" by fastforce
    have "map_of (rg_operations reg) i = Some k" and "map_of ops i = None"
      using i Some p by (auto simp: unregister_connector_def fold_dpop dkeys_def map_of_eq_None_iff
          split: if_splits)
    with registry_okD [OF ok, of i k] Some p show ?thesis
      by (auto simp: unregister_connector_def dpop_conv)
  qed
qed

lemma map_of_remember:
  "map_of (rg_connectors (remember_credentials cid text reg)) k =
     map_option (\<lambda>(c, ops). (if co_id c = cid then c\<lparr>co_credentials := Some text\<rparr> else c, ops))
       (map_of (rg_connectors reg) k)"
proof -
  have "map_of (map (\<lambda>(k, c, ops). (k, if co_id c = cid then c\<lparr>co_credentials := Some text\<rparr> else c, ops)) xs) k
    = map_option (\<lambda>(c, ops). (if co_id c = cid then c\<lparr>co_credentials := Some text\<rparr> else c, ops)) (map_of xs k)"
    for xs :: "(string \<times> connector \<times> (string \<times> operation) list) list"
    by (induction xs) auto
  then show ?thesis by (simp add: remember_credentials_def)
qed

lemma remember_ok: "registry_ok reg \<Longrightarrow> registry_ok (remember_credentials cid text reg)"
proof (rule registry_okI)
  fix i k
  assume ok: "registry_ok reg" and "map_of (rg_operations (remember_credentials cid text reg)) i = Some k"
  then have "map_of (rg_operations reg) i = Some k" by (simp add: remember_credentials_def)
  then obtain c ops op where "map_of (rg_connectors reg) k = Some (c, ops)" "map_of ops i = Some op"
    using registry_okD [OF ok] by blast
  then show "\<exists>c ops op. map_of (rg_connectors (remember_credentials cid text reg)) k = Some (c, ops) \<and>
      map_of ops i = Some op"
    unfolding map_of_remember by auto
qed

lemmas registry_ops_ok = load_ok register_ok unregister_operation_ok unregister_connector_ok remember_ok

lemma registry_reach_ok: "registry_reach reg \<Longrightarrow> registry_ok reg"
proof (induction rule: registry_reach.induct)
  case start
  then show ?case by (simp add: registry_ok_def empty_registry_def)
next
  case (ensure reg rows i)
  then show ?case by (auto simp: ensure_registered_def intro: registry_ops_ok split: option.splits)
qed (rule registry_ops_ok; assumption?)+

lemma lookup_cases:
  assumes "registry_ok reg"
  shows "case map_of (rg_operations reg) i of
      None \<Rightarrow> get_operation reg i = Inl (key_error i '' not registered'')
        \<and> get_connector_for reg i = Inl (key_error i '' not registered'')
    | Some cid \<Rightarrow> (\<exists>op c. get_operation reg i = Inr op \<and> get_connector_for reg i = Inr c)"
proof (cases "map_of (rg_operations reg) i")
  case (Some cid)
  with registry_okD [OF assms Some] show ?thesis
    by (auto simp: get_operation_def get_connector_for_def)
qed (simp add: get_operation_def get_connector_for_def)

text \<open>
  C36 (invariant). However the registry was filled and emptied, looking up an operation and its
  connector fails only for an operation that is not registered, and then with that message: no
  entry of the operations map points at a connector or an operation that is gone.
\<close>

theorem registry_lookup_safe:
  assumes "registry_reach reg"
  shows "(case map_of (rg_operations reg) i of
      None \<Rightarrow> get_operation reg i = Inl (key_error i '' not registered'')
        \<and> get_connector_for reg i = Inl (key_error i '' not registered'')
    | Some cid \<Rightarrow> (\<exists>op c. get_operation reg i = Inr op \<and> get_connector_for reg i = Inr c))"
  by (rule lookup_cases [OF registry_reach_ok [OF assms]])

definition sample_operation :: "string \<Rightarrow> operation" where
  "sample_operation i = \<lparr>op_id = i, op_connector_id = ''k1'', op_name = ''search'', op_method = POST,
     op_path = ''/jobs'', op_parameters = [], op_fixed_headers = [], op_fixed_body = None,
     op_retry_policy = Some sample_policy, op_is_active = True\<rparr>"

definition sample_registry :: registry where
  "sample_registry = unregister_operation ''o2'' (register sample_connector
     [sample_operation ''o1'', sample_operation ''o2''] empty_registry)"

theorem registry_lookup_safe_witness:
  "(\<exists>op. get_operation sample_registry ''o1'' = Inr op) \<and>
   get_operation sample_registry ''o2'' = Inl (key_error ''o2'' '' not registered'')"
proof -
  have "registry_reach sample_registry"
    unfolding sample_registry_def by (intro registry_reach.intros)
  moreover have "map_of (rg_operations sample_registry) ''o1'' = Some ''k1''"
    "map_of (rg_operations sample_registry) ''o2'' = None" by code_simp+
  ultimately show ?thesis
    using registry_lookup_safe [of sample_registry "''o1''"]
      registry_lookup_safe [of sample_registry "''o2''"] by auto
qed

section \<open>A call makes a bounded number of requests\<close>

definition connector_services :: "'w connector_env \<Rightarrow> ('w \<Rightarrow> nat) \<Rightarrow> bool" where
  "connector_services env calls \<longleftrightarrow>
     costs calls 0 (ce_now env) \<and> costs calls 0 (ce_perf env) \<and> (\<forall>u f a. costs calls 0 (ce_post env u f a)) \<and>
     (\<forall>q. costs calls 1 (ce_send env q)) \<and> (\<forall>s. costs calls 0 (ce_sleep env s)) \<and>
     costs calls 0 (ce_random env) \<and> costs calls 0 (ce_open env) \<and> costs calls 0 (ce_close env) \<and>
     (\<forall>i t. costs calls 0 (ce_update_row env i t)) \<and> costs calls 0 (ce_rollback env) \<and>
     (\<forall>i. costs calls 0 (ce_acquire env i)) \<and> (\<forall>i. costs calls 0 (ce_release env i)) \<and>
     (\<forall>r w. calls (ce_set_registry env r w) \<le> calls w)"

locale connector_host =
  fixes env :: "'w connector_env" and calls :: "'w \<Rightarrow> nat"
  assumes services: "connector_services env calls"
begin

lemma costs_session: "(\<And>b. costs calls 0 (m b)) \<Longrightarrow> costs calls 0 (with_session env m)"
  using services
  by (auto simp: connector_services_def with_session_def intro!: costs_bind0 costs_finally)

lemma costs_lock: "costs calls 0 m \<Longrightarrow> costs calls 0 (with_lock env i m)"
  using services
  by (auto simp: connector_services_def with_lock_def intro!: costs_bind0 costs_finally)

lemma costs_persist: "costs calls 0 (persist_credentials env i creds)"
  using services
  by (auto simp: connector_services_def persist_credentials_def Let_def
      intro!: costs_bind0 costs_write costs_try0)

lemma costs_fresh: "costs calls 0 (access_token_is_fresh env creds)"
  using services
  by (auto simp: connector_services_def access_token_is_fresh_def split: option.splits parsed_time.splits
      intro!: costs_bind0)

lemma costs_token: "costs calls 0 (oauth2_refresh env creds)"
  using services
  by (auto simp: connector_services_def oauth2_refresh_def token_patch_def Let_def
      split: option.splits pyval.splits intro!: costs_bind0)

lemma costs_prepare: "costs calls 0 (prepare env c creds b)"
proof -
  have "costs calls 0 (prepare_oauth2 env c creds b)"
    unfolding prepare_oauth2_def Let_def
    by (auto split: option.splits
        intro!: costs_bind0 costs_fresh costs_lock costs_token costs_persist costs_return)
  then show ?thesis by (auto simp: prepare_def split: auth_type.splits)
qed

lemma costs_force: "costs calls 0 (force_refresh_oauth2 env c creds b)"
  unfolding force_refresh_oauth2_def Let_def
  by (auto intro!: costs_bind0 costs_lock costs_token costs_persist)

lemma costs_wait: "costs calls 0 (wait_for_retry env p made)"
  using services by (auto simp: connector_services_def wait_for_retry_def intro!: costs_bind0)

lemma costs_request_loop:
  "costs calls (left + (if used then 0 else 1) + 1) (request_loop env c m plan policy used made left creds)"
proof (induction "left + (if used then 0 else 1 :: nat)" arbitrary: used made left creds rule: less_induct)
  case less
  let ?k = "left + (if used then 0 else 1 :: nat)"
  have loop: "costs calls ?k (request_loop env c m plan policy used' made' left' creds')"
    if "left' + (if used' then 0 else 1) < ?k" for used' made' left' creds'
    by (rule costs_mono [OF less.hyps [OF that]]) (use that in simp)
  have ret: "costs calls k (returnA x)" for k and x :: "string + prepared_request \<times> http_response" by auto
  have "costs calls ?k (case next_step (co_auth_type c) policy used left s of
      RefreshTokens \<Rightarrow>
        bindA (attemptA is_auth_error (force_oauth2_refresh env c creds)) (\<lambda>f. case f of
          Inl e \<Rightarrow> returnA (Inl (exn_text e))
        | Inr creds' \<Rightarrow> request_loop env c m plan policy True made left creds')
    | Retry p \<Rightarrow>
        bindA (wait_for_retry env p (Suc made)) (\<lambda>_.
          request_loop env c m plan policy used (Suc made) (left - 1) creds)
    | Answer \<Rightarrow> returnA x)" for s x
  proof (cases "next_step (co_auth_type c) policy used left s")
    case RefreshTokens
    from next_step_Refresh [OF this]
    have "costs calls ?k (request_loop env c m plan policy True made left creds')" for creds'
      by (intro loop) simp
    then show ?thesis
      unfolding RefreshTokens next_step.case force_oauth2_refresh_def
      by (intro costs_bind0 costs_attempt costs_session costs_force) (metis ret sum.case sum.exhaust)
  next
    case (Retry p)
    from next_step_Retry [OF this] show ?thesis
      unfolding Retry next_step.case by (intro costs_bind0 costs_wait loop) auto
  qed (simp add: ret)
  moreover have "costs calls 1 (attemptA (ce_http_error env) (ce_send env q))" for q
    using services by (auto simp: connector_services_def intro: costs_attempt)
  ultimately have "costs calls (1 + ?k) (request_loop env c m plan policy used made left creds)"
    unfolding request_loop.simps [of env c m plan policy used made left creds] prepare_auth_def
    by (intro costs_bind0 costs_attempt costs_session costs_prepare)
       (auto simp only: sum.case split: sum.splits intro!: costs_bind ret)
  then show ?case by (simp add: add.commute)
qed

lemma costs_execute_http:
  "costs calls (2 + (case policy of None \<Rightarrow> 0 | Some p \<Rightarrow> nat (rp_max_attempts p - 1)))
     (execute_http env c creds m path parameters fixed_headers fixed_body policy input)"
proof -
  let ?left = "case policy of None \<Rightarrow> 0 | Some p \<Rightarrow> nat (rp_max_attempts p - 1)"
  have perf: "costs calls 0 (ce_perf env)" using services by (simp add: connector_services_def)
  have loop: "costs calls (?left + 2) (request_loop env c m plan policy False 0 ?left creds)" for plan
    using costs_request_loop [of ?left False c m plan policy 0 creds] by simp
  have fin: "costs calls 0 (persist_refreshed env c r)" for r
    by (auto simp: persist_refreshed_def split: option.splits
        intro!: costs_session costs_persist costs_return)
  have rest: "costs calls 0 (bindA (ce_perf env) (\<lambda>now. f now))" if "\<And>x. costs calls 0 (f x)"
    for f :: "rat \<Rightarrow> ('w, call_result) act"
    using perf that by (rule costs_bind0)
  have "costs calls (?left + 2 + 0)
     (execute_http env c creds m path parameters fixed_headers fixed_body policy input)"
    unfolding execute_http_def Let_def
    by (intro costs_bind0 [OF costs_liftR] costs_bind0 [OF perf] costs_bind [OF loop] rest)
       (auto split: sum.splits prod.splits intro!: costs_bind0 fin costs_return)
  then show ?thesis by (simp add: add.commute)
qed

lemma costs_perform:
  assumes "get_operation (ce_registry env w) i = Inr op"
    and "parse_retry_policy (ce_numbers env) (op_retry_policy op) = Inr policy"
  shows "\<exists>r w'. perform env i input w = Some (r, w') \<and>
    calls w' \<le> calls w + (2 + (case policy of None \<Rightarrow> 0 | Some p \<Rightarrow> nat (rp_max_attempts p - 1)))"
proof -
  let ?n = "2 + (case policy of None \<Rightarrow> 0 | Some p \<Rightarrow> nat (rp_max_attempts p - 1))"
  have run: "\<exists>r w'. execute_http env c creds (op_method op) (op_path op) (op_parameters op)
      (op_fixed_headers op) (op_fixed_body op) policy input w = Some (r, w') \<and> calls w' \<le> calls w + ?n"
    for c creds
    using costs_execute_http unfolding costs_def by blast
  have stop: "\<exists>r w'. Some (Inl e, w) = Some (r, w') \<and> calls w' \<le> calls w + ?n" for e :: exn by auto
  show ?thesis
    using assms run
    by (auto simp: perform_def bindA_def readA_def liftR_def split: sum.splits option.splits)
qed

end
text \<open>Requests sent by the sample.\<close>

interpretation sample_calls: connector_host sample_connector_env aw_sends
  by unfold_locales
     (auto simp: connector_services_def sample_connector_env_def costs_def returnA_def)

text \<open>
  C35 (termination). Performing an operation returns whenever the services it calls do, after at
  most one request more than the attempts of its policy: the extra one follows the refresh of
  refused OAuth2 tokens, which happens once.  Without a policy there are at most two requests.
\<close>

theorem connector_call_bounded:
  assumes "connector_services env calls" and "get_operation (ce_registry env w) i = Inr op"
    and "parse_retry_policy (ce_numbers env) (op_retry_policy op) = Inr policy"
  shows "\<exists>r w'. perform env i input w = Some (r, w') \<and>
    calls w' \<le> calls w + (1 + (case policy of None \<Rightarrow> 1 | Some p \<Rightarrow> nat (rp_max_attempts p)))"
proof -
  have "2 + (case policy of None \<Rightarrow> 0 | Some p \<Rightarrow> nat (rp_max_attempts p - 1))
      = 1 + (case policy of None \<Rightarrow> 1 | Some p \<Rightarrow> nat (rp_max_attempts p))"
    using parsed_policy(1) [of "ce_numbers env" "op_retry_policy op"] assms(3) by (cases policy) auto
  from this connector_host.costs_perform [OF connector_host.intro [OF assms(1)] assms(2,3), of input]
  show ?thesis by (simp only:)
qed

definition flaky_world :: auth_world where
  "flaky_world = stale_world\<lparr>aw_registry := sample_registry\<rparr>"

text \<open>A refused request, a refresh, and three attempts that the policy allows.\<close>

theorem connector_call_bounded_witness:
  "\<exists>r w'. perform sample_connector_env ''o1'' [(''q'', PStr ''sql'')] flaky_world = Some (r, w') \<and>
     aw_sends w' \<le> 4"
proof -
  have op: "get_operation (ce_registry sample_connector_env flaky_world) ''o1'' = Inr (sample_operation ''o1'')"
    by (simp add: sample_connector_env_def flaky_world_def sample_registry_def get_operation_def
        unregister_operation_def register_def empty_registry_def sample_operation_def
        sample_connector_def dpop_def Let_def)
  have p: "parse_retry_policy (ce_numbers sample_connector_env) (op_retry_policy (sample_operation ''o1''))
      = Inr (Some \<lparr>rp_max_attempts = 3, rp_retry_on_status = [503], rp_initial_delay_ms = 200,
          rp_multiplier = 3, rp_jitter = True\<rparr>)"
    by (simp add: sample_connector_env_def sample_operation_def sample_policy_parsed)
  show ?thesis
    using connector_call_bounded [OF sample_calls.services op p, of "[(''q'', PStr ''sql'')]"]
    by (simp add: flaky_world_def stale_world_def)
qed

end
