(* ===== verification/SqlText.thy ===== *)
theory SqlText
  imports Prelude
begin

text \<open>
  The \<open>LIKE\<close> operator of the database, as an interface: \<open>%\<close> stands for any text, \<open>_\<close> for any
  character, a backslash makes the next character stand for itself.  The components that search
  by a pattern take the operator as an argument; \<open>sql_like\<close> is one that obeys the laws.
\<close>

definition wild :: "char \<Rightarrow> bool" where
  "wild c \<longleftrightarrow> c = CHR ''%'' \<or> c = CHR ''_'' \<or> c = backslash"

locale like_operator =
  fixes like :: "string \<Rightarrow> string \<Rightarrow> bool"
  assumes like_Nil: "like [] t \<longleftrightarrow> t = []"
    and like_percent: "like (CHR ''%'' # p) t \<longleftrightarrow> (\<exists>n \<le> length t. like p (drop n t))"
    and like_underscore: "like (CHR ''_'' # p) t \<longleftrightarrow> (\<exists>c u. t = c # u \<and> like p u)"
    and like_escape: "like (backslash # c # p) t \<longleftrightarrow> (\<exists>u. t = c # u \<and> like p u)"
    and like_char: "\<not> wild c \<Longrightarrow> like (c # p) t \<longleftrightarrow> (\<exists>u. t = c # u \<and> like p u)"
begin

lemma like_all: "like [CHR ''%''] t"
  by (auto simp: like_percent like_Nil)

lemma like_plain: "list_all (\<lambda>c. \<not> wild c) p \<Longrightarrow> like (p @ q) t \<longleftrightarrow> (\<exists>u. t = p @ u \<and> like q u)"
  by (induction p arbitrary: t) (auto simp: like_char)

lemma like_prefix: "list_all (\<lambda>c. \<not> wild c) p \<Longrightarrow> like (p @ ''%'') t \<longleftrightarrow> (\<exists>u. t = p @ u)"
  by (simp add: like_plain like_all)

text \<open>A pattern in which every character that means more than itself is escaped.\<close>

lemma like_escaped:
  "like (concat (map (\<lambda>c. if wild c then [backslash, c] else [c]) s) @ q) t \<longleftrightarrow>
     (\<exists>u. t = s @ u \<and> like q u)"
  by (induction s arbitrary: t) (auto simp: like_char like_escape)

lemma like_contains:
  "like (CHR ''%'' # concat (map (\<lambda>c. if wild c then [backslash, c] else [c]) s) @ ''%'') t \<longleftrightarrow>
     (\<exists>a b. t = a @ s @ b)"
proof
  assume "like (CHR ''%'' # concat (map (\<lambda>c. if wild c then [backslash, c] else [c]) s) @ ''%'') t"
  then obtain n where "n \<le> length t"
    and "like (concat (map (\<lambda>c. if wild c then [backslash, c] else [c]) s) @ ''%'') (drop n t)"
    by (auto simp: like_percent)
  then obtain u where "drop n t = s @ u" unfolding like_escaped by blast
  then have "t = take n t @ s @ u" by (metis append_take_drop_id)
  then show "\<exists>a b. t = a @ s @ b" by blast
next
  assume "\<exists>a b. t = a @ s @ b"
  then obtain a b where t: "t = a @ s @ b" by blast
  then have "\<exists>u. drop (length a) t = s @ u \<and> like [CHR ''%''] u" by (simp add: like_all)
  with t show "like (CHR ''%'' # concat (map (\<lambda>c. if wild c then [backslash, c] else [c]) s) @ ''%'') t"
    unfolding like_percent like_escaped by (intro exI [of _ "length a"]) simp
qed

end

fun sql_like :: "string \<Rightarrow> string \<Rightarrow> bool" where
  "sql_like [] t \<longleftrightarrow> t = []"
| "sql_like (c # p) t \<longleftrightarrow>
     (if c = CHR ''%'' then sql_like p t \<or> (case t of [] \<Rightarrow> False | _ # u \<Rightarrow> sql_like (c # p) u)
      else if c = CHR ''_'' then (case t of [] \<Rightarrow> False | _ # u \<Rightarrow> sql_like p u)
      else if c = backslash then
        (case p of [] \<Rightarrow> False
         | d # q \<Rightarrow> (case t of [] \<Rightarrow> False | x # u \<Rightarrow> x = d \<and> sql_like q u))
      else (case t of [] \<Rightarrow> False | x # u \<Rightarrow> x = c \<and> sql_like p u))"

lemma sql_like_percent: "sql_like (CHR ''%'' # p) t \<longleftrightarrow> (\<exists>n \<le> length t. sql_like p (drop n t))"
proof (induction t)
  case Nil
  then show ?case by simp
next
  case (Cons x u)
  have "(\<exists>n \<le> length (x # u). sql_like p (drop n (x # u))) \<longleftrightarrow>
      sql_like p (x # u) \<or> (\<exists>n \<le> length u. sql_like p (drop n u))"
    by (metis (no_types, opaque_lifting) Suc_le_mono drop0 drop_Suc_Cons le0 length_Cons old.nat.exhaust)
  with Cons show ?case by simp
qed

interpretation sample_like: like_operator sql_like
proof
  show "sql_like (CHR ''%'' # p) t \<longleftrightarrow> (\<exists>n \<le> length t. sql_like p (drop n t))" for p t
    by (rule sql_like_percent)
qed (auto simp: wild_def backslash_def split: list.splits)

end
