(* ===== verification/Usage.thy ===== *)
theory Usage
  imports SqlText Actions "HOL-Library.Multiset"
begin

text \<open>
  The ledger of token usage (luna_core/services/usage.py): who a model call is attributed to,
  the rows that are written, and what the rows cost.

  \<open>_ATTRIBUTION\<close> is a part of the world that \<open>us_attribution\<close> reads; the session a row is
  added to belongs to the world too.  Identifiers are texts, which are true when present.
  Figures of the database are rationals; \<open>ld_usd\<close> is what it makes of
  \<open>cast(x, Numeric(20, 8)) / 1_000_000\<close>, and \<open>ld_like\<close> its pattern operator.
\<close>

section \<open>Attribution\<close>

record attribution =
  at_user :: "string option"
  at_purpose :: "string option"
  at_agent :: "string option"
  at_scope :: "string option"

definition no_attribution :: attribution where
  "no_attribution = \<lparr>at_user = None, at_purpose = None, at_agent = None, at_scope = None\<rparr>"

text \<open>\<open>a or b\<close> for an identifier and for a text.\<close>

definition or_id :: "string option \<Rightarrow> string option \<Rightarrow> string option" where
  "or_id a b = (case a of None \<Rightarrow> b | Some x \<Rightarrow> Some x)"

definition or_text :: "string option \<Rightarrow> string option \<Rightarrow> string option" where
  "or_text a b = (case a of None \<Rightarrow> b | Some x \<Rightarrow> if x = [] then b else Some x)"

definition nest :: "string option \<Rightarrow> string option \<Rightarrow> string option" where
  "nest outer inner =
     (case inner of
        None \<Rightarrow> outer
      | Some i \<Rightarrow>
          if i = [] then outer
          else (case outer of
              None \<Rightarrow> Some i
            | Some out \<Rightarrow>
                if out = [] then Some i
                else if i \<in> set (split_on CHR ''.'' out) then Some out
                else Some (out @ ''.'' @ i)))"

definition nested ::
  "string option \<Rightarrow> string option \<Rightarrow> string option \<Rightarrow> string option \<Rightarrow> attribution \<Rightarrow> attribution" where
  "nested user purpose agent scope out =
     \<lparr>at_user = or_id user (at_user out), at_purpose = nest (at_purpose out) purpose,
      at_agent = or_text agent (at_agent out), at_scope = or_id scope (at_scope out)\<rparr>"

record usage_row =
  ur_scope :: string
  ur_message :: "string option"
  ur_model :: string
  ur_user :: "string option"
  ur_purpose :: "string option"
  ur_agent :: "string option"
  ur_input :: int
  ur_output :: int
  ur_cached :: "int option"
  ur_cache_write :: "int option"
  ur_audio :: "int option"
  ur_total :: int

record 'w usage_env =
  us_rt :: pyrt
  us_numbers :: number_texts
  us_attribution :: "'w \<Rightarrow> attribution"
  us_set_attribution :: "attribution \<Rightarrow> 'w \<Rightarrow> 'w"
  us_add :: "usage_row \<Rightarrow> ('w, unit) act"
  us_open :: "('w, unit) act"
  us_commit :: "('w, unit) act"
  us_close :: "('w, unit) act"

definition usage_context ::
  "'w usage_env \<Rightarrow> string option \<Rightarrow> string option \<Rightarrow> string option \<Rightarrow> string option \<Rightarrow> ('w, 'a) act
   \<Rightarrow> ('w, 'a) act" where
  "usage_context env user purpose agent scope block =
     bindA (readA (us_attribution env)) (\<lambda>out.
     bindA (writeA (us_set_attribution env (nested user purpose agent scope out))) (\<lambda>_.
       finallyA block (writeA (us_set_attribution env out))))"

definition bind_request_user :: "'w usage_env \<Rightarrow> string \<Rightarrow> ('w, unit) act" where
  "bind_request_user env user =
     bindA (readA (us_attribution env)) (\<lambda>who.
       if at_user who = None then writeA (us_set_attribution env (who\<lparr>at_user := Some user\<rparr>))
       else returnA ())"

section \<open>Writing rows\<close>

definition int_or_zero :: "number_texts \<Rightarrow> pyval \<Rightarrow> int" where
  "int_or_zero nt v = (case py_int nt v of Inl _ \<Rightarrow> 0 | Inr i \<Rightarrow> i)"

text \<open>\<open>_cached_tokens\<close> and \<open>_cache_write_tokens\<close>; a missing attribute reads as \<open>None\<close>.\<close>

definition prompt_detail :: "'w usage_env \<Rightarrow> string \<Rightarrow> pyval \<Rightarrow> int option" where
  "prompt_detail env key usage =
     (let details = rt_getattr (us_rt env) usage ''prompt_tokens_details'';
          v = (if details = PNone then PNone else rt_getattr (us_rt env) details key)
      in if v = PNone then None else Some (int_or_zero (us_numbers env) v))"

definition cached_tokens :: "'w usage_env \<Rightarrow> pyval \<Rightarrow> int option" where
  "cached_tokens env = prompt_detail env ''cached_tokens''"

definition cache_write_tokens :: "'w usage_env \<Rightarrow> pyval \<Rightarrow> int option" where
  "cache_write_tokens env = prompt_detail env ''cache_write_tokens''"

definition attributed :: "attribution \<Rightarrow> string option \<Rightarrow> usage_row \<Rightarrow> usage_row" where
  "attributed who user row = row\<lparr>ur_user := or_id user (at_user who),
     ur_purpose := at_purpose who, ur_agent := at_agent who\<rparr>"

definition add_row :: "'w usage_env \<Rightarrow> string option \<Rightarrow> usage_row \<Rightarrow> ('w, usage_row) act" where
  "add_row env user row =
     bindA (readA (us_attribution env)) (\<lambda>who.
     bindA (us_add env (attributed who user row)) (\<lambda>_. returnA (attributed who user row)))"

definition record_usage ::
  "'w usage_env \<Rightarrow> string \<Rightarrow> string option \<Rightarrow> string \<Rightarrow> pyval \<Rightarrow> ('w, usage_row) act" where
  "record_usage env scope message model usage =
     (let count = (\<lambda>k. int_or_zero (us_numbers env) (rt_getattr (us_rt env) usage k))
      in add_row env None
           \<lparr>ur_scope = scope, ur_message = message, ur_model = model, ur_user = None,
            ur_purpose = None, ur_agent = None, ur_input = count ''prompt_tokens'',
            ur_output = count ''completion_tokens'', ur_cached = cached_tokens env usage,
            ur_cache_write = cache_write_tokens env usage, ur_audio = None,
            ur_total = count ''total_tokens''\<rparr>)"

definition usage_scope :: "pyrt \<Rightarrow> pyval \<Rightarrow> pyval \<Rightarrow> pyval" where
  "usage_scope rt emitter fallback =
     py_or (py_or (rt_getattr rt emitter ''usage_scope_id'') (rt_getattr rt emitter ''scope_id''))
       fallback"

definition record_usage_counts ::
  "'w usage_env \<Rightarrow> string \<Rightarrow> string option \<Rightarrow> string \<Rightarrow> int \<Rightarrow> int \<Rightarrow> int \<Rightarrow> int option \<Rightarrow> int option
   \<Rightarrow> string option \<Rightarrow> ('w, usage_row) act" where
  "record_usage_counts env scope message model input_tokens output_tokens total_tokens
     cached audio user =
     add_row env user
       \<lparr>ur_scope = scope, ur_message = message, ur_model = model, ur_user = None,
        ur_purpose = None, ur_agent = None, ur_input = input_tokens, ur_output = output_tokens,
        ur_cached = cached, ur_cache_write = None, ur_audio = audio, ur_total = total_tokens\<rparr>"

definition no_id :: string where
  "no_id = ''00000000-0000-0000-0000-000000000000''"

definition embedding_scope :: "attribution \<Rightarrow> string" where
  "embedding_scope who =
     (case or_id (at_scope who) (at_user who) of None \<Rightarrow> no_id | Some i \<Rightarrow> i)"

definition record_embedding_usage :: "'w usage_env \<Rightarrow> string \<Rightarrow> int \<Rightarrow> ('w, unit) act" where
  "record_embedding_usage env model input_tokens =
     bindA (readA (us_attribution env)) (\<lambda>who.
       tryA (usage_context env None (Some ''embedding'') None None
         (bindA (us_open env) (\<lambda>_.
            finallyA (bindA (record_usage_counts env (embedding_scope who) None model input_tokens
                0 input_tokens None None None) (\<lambda>_. us_commit env)) (us_close env))))
         (\<lambda>_. returnA ()))"

section \<open>Prices\<close>

record price_row =
  lp_model :: string
  lp_input :: rat
  lp_output :: rat
  lp_cache_read :: "rat option"
  lp_cache_write :: "rat option"
  lp_audio :: "rat option"
  lp_threshold :: "int option"
  lp_multiplier :: "rat option"
  lp_source :: string

record token_prices =
  tp_input :: rat
  tp_output :: rat
  tp_cache_read :: rat
  tp_cache_write :: rat
  tp_audio :: rat

definition coalesce :: "'a option \<Rightarrow> 'a \<Rightarrow> 'a" where
  "coalesce a b = (case a of None \<Rightarrow> b | Some x \<Rightarrow> x)"

text \<open>The prices of a row, where a price that is not entered is the one of plain input.\<close>

definition prices_of :: "price_row \<Rightarrow> token_prices" where
  "prices_of p = \<lparr>tp_input = lp_input p, tp_output = lp_output p,
     tp_cache_read = coalesce (lp_cache_read p) (lp_input p),
     tp_cache_write = coalesce (lp_cache_write p) (lp_input p),
     tp_audio = coalesce (lp_audio p) (lp_input p)\<rparr>"

definition dearest :: "price_row list \<Rightarrow> token_prices option" where
  "dearest prices =
     (if prices = [] then None
      else let highest = (\<lambda>f. Max (set (map (f \<circ> prices_of) prices)))
           in Some \<lparr>tp_input = highest tp_input, tp_output = highest tp_output,
                tp_cache_read = highest tp_cache_read, tp_cache_write = highest tp_cache_write,
                tp_audio = highest tp_audio\<rparr>)"

record ledger_db =
  ld_like :: "string \<Rightarrow> string \<Rightarrow> bool"
  ld_usd :: "rat \<Rightarrow> rat"
  ld_day :: "int \<Rightarrow> int"

record ledger_row = usage_row +
  ur_created_at :: int

definition price_for :: "price_row list \<Rightarrow> string \<Rightarrow> price_row option" where
  "price_for prices model = List.find (\<lambda>p. lp_model p = model) prices"

text \<open>The tier of the price a row is joined to.\<close>

definition tier :: "price_row option \<Rightarrow> 'z usage_row_scheme \<Rightarrow> rat" where
  "tier price row =
     (case price of
        None \<Rightarrow> 1
      | Some p \<Rightarrow>
          (case lp_threshold p of
             None \<Rightarrow> 1
           | Some t \<Rightarrow> if t < ur_input row then coalesce (lp_multiplier p) 1 else 1))"

definition token_cost :: "token_prices \<Rightarrow> 'z usage_row_scheme \<Rightarrow> rat" where
  "token_cost tp row =
     (let read = coalesce (ur_cached row) 0; written = coalesce (ur_cache_write row) 0;
          audio = coalesce (ur_audio row) 0;
          plain = max (ur_input row - read - written - audio) 0
      in of_int plain * tp_input tp + of_int read * tp_cache_read tp
         + of_int written * tp_cache_write tp + of_int audio * tp_audio tp
         + of_int (ur_output row) * tp_output tp)"

definition row_cost ::
  "ledger_db \<Rightarrow> token_prices \<Rightarrow> price_row option \<Rightarrow> 'z usage_row_scheme \<Rightarrow> rat" where
  "row_cost db fallback price row =
     ld_usd db (token_cost (case price of None \<Rightarrow> fallback | Some p \<Rightarrow> prices_of p) row
       * tier price row)"

section \<open>Reading the ledger\<close>

definition usage_totals_for_scope :: "ledger_row list \<Rightarrow> string \<Rightarrow> int \<times> int \<times> int" where
  "usage_totals_for_scope rows scope =
     (let mine = filter (\<lambda>r. ur_scope r = scope) rows
      in (sum_list (map ur_input mine), sum_list (map ur_output mine), sum_list (map ur_total mine)))"

text \<open>A comparison with \<open>NULL\<close> selects nothing.\<close>

definition under :: "ledger_db \<Rightarrow> string \<Rightarrow> 'z usage_row_scheme \<Rightarrow> bool" where
  "under db prefix row \<longleftrightarrow>
     (case ur_purpose row of
        None \<Rightarrow> False | Some p \<Rightarrow> p = prefix \<or> ld_like db (prefix @ ''.%'') p)"

definition outside :: "ledger_db \<Rightarrow> string \<Rightarrow> 'z usage_row_scheme \<Rightarrow> bool" where
  "outside db prefix row \<longleftrightarrow>
     (let p = coalesce (ur_purpose row) [] in \<not> (p = prefix \<or> ld_like db (prefix @ ''.%'') p))"

definition spend_usd ::
  "ledger_db \<Rightarrow> price_row list \<Rightarrow> ledger_row list \<Rightarrow> string \<Rightarrow> int \<Rightarrow> string option \<Rightarrow> string option
   \<Rightarrow> rat option" where
  "spend_usd db prices rows user since purpose exclude =
     map_option (\<lambda>d. sum_list (map (\<lambda>r. row_cost db d (price_for prices (ur_model r)) r)
         (filter (\<lambda>r. ur_user r = Some user \<and> since \<le> ur_created_at r
             \<and> (case purpose of None \<Rightarrow> True | Some p \<Rightarrow> p \<noteq> [] \<longrightarrow> under db p r)
             \<and> (case exclude of None \<Rightarrow> True | Some p \<Rightarrow> p \<noteq> [] \<longrightarrow> outside db p r)) rows)))
       (dearest prices)"

definition REPORT_GROUPS :: "string list" where
  "REPORT_GROUPS = [''user_id'', ''purpose'', ''model'', ''agent_name'', ''day'']"

definition text_or_none :: "string option \<Rightarrow> pyval" where
  "text_or_none t = (case t of None \<Rightarrow> PNone | Some s \<Rightarrow> PStr s)"

definition report_column :: "ledger_db \<Rightarrow> ledger_row \<Rightarrow> string \<Rightarrow> pyval" where
  "report_column db r g =
     (if g = ''user_id'' then text_or_none (ur_user r)
      else if g = ''purpose'' then text_or_none (ur_purpose r)
      else if g = ''model'' then PStr (ur_model r)
      else if g = ''agent_name'' then text_or_none (ur_agent r)
      else PInt (ld_day db (ur_created_at r)))"

record report_line =
  rl_keys :: "pyval list"
  rl_calls :: nat
  rl_input :: int
  rl_cache_read :: int
  rl_cache_write :: int
  rl_output :: int
  rl_cost :: "rat option"
  rl_unpriced :: "bool option"

definition report_line_of ::
  "ledger_db \<Rightarrow> price_row list \<Rightarrow> ledger_row list \<Rightarrow> pyval list \<Rightarrow> report_line" where
  "report_line_of db prices rows keys =
     (let sum = (\<lambda>f. sum_list (map f rows)) in
      \<lparr>rl_keys = keys, rl_calls = length rows, rl_input = sum ur_input,
       rl_cache_read = sum (\<lambda>r. coalesce (ur_cached r) 0),
       rl_cache_write = sum (\<lambda>r. coalesce (ur_cache_write r) 0), rl_output = sum ur_output,
       rl_cost = (if rows = [] then None else map_option (\<lambda>d.
           sum_list (map (\<lambda>r. row_cost db d (price_for prices (ur_model r)) r) rows)) (dearest prices)),
       rl_unpriced = (if rows = [] then None
         else Some (list_ex (\<lambda>r. price_for prices (ur_model r) = None) rows))\<rparr>)"

definition reported :: "int \<Rightarrow> int option \<Rightarrow> string option \<Rightarrow> ledger_row \<Rightarrow> bool" where
  "reported since until user r \<longleftrightarrow> since \<le> ur_created_at r
     \<and> (case until of None \<Rightarrow> True | Some u \<Rightarrow> ur_created_at r < u)
     \<and> (case user of None \<Rightarrow> True | Some u \<Rightarrow> ur_user r = Some u)"

text \<open>A line comes before those whose cost, or without any price whose input, is less.\<close>

definition report_order :: "price_row list \<Rightarrow> report_line \<Rightarrow> rat" where
  "report_order prices l =
     (if dearest prices = None then - of_int (rl_input l) else - coalesce (rl_cost l) 0)"

text \<open>
  Without a group the query has one line, of all rows.  Lines come dearest first, or without
  any price those with the most input first; lines that tie are in an order of the database's
  choice, here the one in which their keys first appear.
\<close>

definition usage_report ::
  "ledger_db \<Rightarrow> price_row list \<Rightarrow> ledger_row list \<Rightarrow> int \<Rightarrow> int option \<Rightarrow> string list \<Rightarrow> string option
   \<Rightarrow> exn + report_line list" where
  "usage_report db prices rows since until group_by user =
     (let unknown = filter (\<lambda>g. g \<notin> set REPORT_GROUPS) group_by in
      if unknown \<noteq> [] then Inl (value_error (''cannot group usage by ''
               @ ''['' @ join_with '', '' (map str_repr unknown) @ '']''))
      else let chosen = filter (reported since until user) rows;
               key = (\<lambda>r. map (report_column db r) group_by);
               keys = (if group_by = [] then [[]] else remdups (map key chosen));
               lines = map (\<lambda>k. report_line_of db prices (filter (\<lambda>r. key r = k) chosen) k) keys
           in Inr (sort_key (report_order prices) lines))"

section \<open>The purpose of a nested block\<close>

locale attribution_cell =
  fixes env :: "'w usage_env"
  assumes get_set: "us_attribution env (us_set_attribution env a w) = a"
begin

lemma finally_restore:
  "finallyA m (writeA f) w = (case m w of None \<Rightarrow> None | Some (r, w1) \<Rightarrow> Some (r, f w1))"
  by (cases "m w")
     (auto simp: finallyA_def try_allA_def bindA_def returnA_def writeA_def liftR_def split: sum.splits)

lemma bind_read: "bindA (readA f) g w = g (f w) w"
  and bind_write: "bindA (writeA h) k w = k () (h w)"
  by (simp_all add: bindA_def readA_def writeA_def)

lemma context_run:
  "usage_context env user purpose agent scope m w =
     (case m (us_set_attribution env (nested user purpose agent scope (us_attribution env w)) w) of
        None \<Rightarrow> None
      | Some (r, w1) \<Rightarrow> Some (r, us_set_attribution env (us_attribution env w) w1))"
  by (simp add: usage_context_def bind_read bind_write finally_restore)

lemma context_restores:
  "usage_context env user purpose agent scope m w = Some (r, w') \<Longrightarrow>
   us_attribution env w' = us_attribution env w"
  by (auto simp: context_run get_set split: option.splits)

text \<open>Recording an embedding raises no exception of the program, and attributes nothing else.\<close>

lemma embedding_contained:
  assumes "record_embedding_usage env model n w = Some (r, w')"
  shows "us_attribution env w' = us_attribution env w \<and> (\<forall>e. r = Inl e \<longrightarrow> \<not> catchable e)"
  using assms context_restores
  by (auto simp: record_embedding_usage_def bindA_def readA_def tryA_def returnA_def
      split: option.splits sum.splits if_splits)

end

text \<open>The words of a path, each where it first occurs, and the purpose they make.\<close>

definition first_occurrences :: "string list \<Rightarrow> string list" where
  "first_occurrences ws = fold (\<lambda>w us. if w \<in> set us then us else us @ [w]) ws []"

definition purpose_of :: "string list \<Rightarrow> string option" where
  "purpose_of ws = (if ws = [] then None else Some (join_with ''.'' ws))"

definition word :: "string \<Rightarrow> bool" where
  "word w \<longleftrightarrow> w \<noteq> [] \<and> CHR ''.'' \<notin> set w"

lemma join_with_snoc: "us \<noteq> [] \<Longrightarrow> join_with sep (us @ [w]) = join_with sep us @ sep @ w"
proof (induction us)
  case (Cons u us)
  then show ?case by (cases us) auto
qed simp

lemma nest_word:
  assumes "list_all word us" and "word w"
  shows "nest (purpose_of us) (Some w) = purpose_of (if w \<in> set us then us else us @ [w])"
proof (cases us)
  case (Cons u rest)
  then have "us \<noteq> []" and "join_with ''.'' us \<noteq> []"
    using assms(1) by (auto simp: word_def neq_Nil_conv) (cases rest; auto)+
  moreover have "split_on CHR ''.'' (join_with ''.'' us) = us"
    using assms(1) \<open>us \<noteq> []\<close> by (intro split_on_join) (auto simp: word_def list_all_iff)
  ultimately show ?thesis
    using assms(2) by (simp add: nest_def purpose_of_def word_def join_with_snoc)
qed (use assms in \<open>simp add: nest_def purpose_of_def word_def\<close>)

fun activities :: "'w usage_env \<Rightarrow> string list \<Rightarrow> ('w, 'a) act \<Rightarrow> ('w, 'a) act" where
  "activities env [] m = m"
| "activities env (p # ps) m = usage_context env None (Some p) None None (activities env ps m)"

context attribution_cell begin

lemma activities_path:
  assumes "list_all word ws" and "list_all word us" and "at_purpose (us_attribution env w) = purpose_of us"
    and "activities env ws m w = Some (r, w')"
  shows "(\<exists>w1 w2. m w1 = Some (r, w2) \<and> us_attribution env w1 =
      (us_attribution env w)\<lparr>at_purpose :=
        purpose_of (fold (\<lambda>w us. if w \<in> set us then us else us @ [w]) ws us)\<rparr>)"
  using assms
proof (induction ws arbitrary: us w r w')
  case Nil
  then show ?case by (intro exI [of _ w] exI [of _ w']) auto
next
  case (Cons p ps)
  let ?us = "if p \<in> set us then us else us @ [p]"
  let ?w = "us_set_attribution env (nested None (Some p) None None (us_attribution env w)) w"
  have nested: "nested None (Some p) None None (us_attribution env w)
      = (us_attribution env w)\<lparr>at_purpose := purpose_of ?us\<rparr>"
    using Cons.prems nest_word [of us p] by (simp add: nested_def or_id_def or_text_def)
  obtain w1 where "activities env ps m ?w = Some (r, w1)"
    using Cons.prems(4) by (auto simp: context_run split: option.splits)
  moreover have "at_purpose (us_attribution env ?w) = purpose_of ?us" by (simp add: get_set nested)
  moreover have "list_all word ?us" using Cons.prems by auto
  ultimately show ?case
    using Cons.IH [of ?us ?w r w1] Cons.prems(1) by (auto simp: get_set nested)
qed

end

text \<open>
  Inside blocks that name their activities one in another, with nothing named
  outside, the purpose of a call is the path of the activities, each where it was first named;
  after the blocks the attribution is the one before them, whether the call raised or not.
\<close>

theorem nested_purpose_path:
  assumes "\<And>a w. us_attribution env (us_set_attribution env a w) = a"
    and "list_all word (p # ps)" and "at_purpose (us_attribution env w) = None"
    and "activities env (p # ps) m w = Some (r, w')"
  shows "us_attribution env w' = us_attribution env w \<and>
    (\<exists>w1 w2. m w1 = Some (r, w2) \<and> us_attribution env w1 =
      (us_attribution env w)\<lparr>at_purpose := Some (join_with ''.'' (first_occurrences (p # ps)))\<rparr>)"
proof -
  have cell: "attribution_cell env" using assms(1) by unfold_locales
  have "us_attribution env w' = us_attribution env w"
    using attribution_cell.context_restores [OF cell] assms(4) by simp
  moreover have "us \<noteq> [] \<Longrightarrow> fold (\<lambda>w us. if w \<in> set us then us else us @ [w]) ws us \<noteq> []" for ws us :: "string list"
    by (induction ws arbitrary: us) auto
  then have "first_occurrences (p # ps) \<noteq> []" by (simp add: first_occurrences_def)
  ultimately show ?thesis
    using attribution_cell.activities_path [OF cell assms(2), of "[]" w m r w'] assms(3,4)
    by (simp add: purpose_of_def first_occurrences_def)
qed

definition sample_usage_env :: "(attribution \<times> ledger_row list) usage_env" where
  "sample_usage_env = \<lparr>us_rt = \<lparr>rt_getattr = (\<lambda>_ _. PNone), rt_float_str = (\<lambda>_. [])\<rparr>,
     us_numbers = \<lparr>nt_int = (\<lambda>_. None), nt_float = (\<lambda>_. None)\<rparr>, us_attribution = fst,
     us_set_attribution = (\<lambda>a w. (a, snd w)),
     us_add = (\<lambda>row. writeA (\<lambda>w. (fst w, snd w @ [usage_row.extend row \<lparr>ur_created_at = 0\<rparr>]))),
     us_open = returnA (), us_commit = returnA (), us_close = returnA ()\<rparr>"

interpretation sample_cell: attribution_cell sample_usage_env
  by unfold_locales (simp add: sample_usage_env_def)

theorem nested_purpose_path_witness:
  "\<exists>w'. activities sample_usage_env [''chat'', ''title'', ''chat'']
      (raiseA Cancelled :: (_, unit) act) (no_attribution, []) = Some (Inl Cancelled, w') \<and> us_attribution sample_usage_env w' = no_attribution \<and>
    join_with ''.'' (first_occurrences [''chat'', ''title'', ''chat'']) = ''chat.title''"
proof -
  have cell: "us_attribution sample_usage_env (us_set_attribution sample_usage_env a w) = a" for a w
    by (rule sample_cell.get_set)
  obtain w' where w': "activities sample_usage_env [''chat'', ''title'', ''chat'']
      (raiseA Cancelled :: (_, unit) act) (no_attribution, [] :: ledger_row list) = Some (Inl Cancelled, w')"
    by (simp add: sample_cell.context_run raiseA_def)
  moreover have "us_attribution sample_usage_env (no_attribution, [] :: ledger_row list) = no_attribution"
    by (simp add: sample_usage_env_def)
  moreover have "list_all word [''chat'', ''title'', ''chat'']" by (simp add: word_def)
  ultimately have "us_attribution sample_usage_env w' = no_attribution"
    using conjunct1 [OF nested_purpose_path [OF cell _ _ w']] by (simp add: no_attribution_def)
  with w' show ?thesis by (intro exI [of _ w'] conjI) (simp_all add: first_occurrences_def)
qed

section \<open>What is selected and what it costs\<close>

context like_operator begin

lemma like_dot_Nil: "\<not> like (p @ ''.%'') []"
proof (induction p rule: length_induct)
  case (1 p)
  show ?case
  proof (cases p)
    case Nil
    then show ?thesis by (simp add: like_char wild_def backslash_def)
  next
    case (Cons c q)
    show ?thesis
    proof (cases "wild c")
      case False
      with Cons show ?thesis by (simp add: like_char)
    next
      case True
      then consider "c = CHR ''%''" | "c = CHR ''_''" | "c = backslash" by (auto simp: wild_def)
      then show ?thesis
      proof cases
        case 1
        with Cons "1.IH" show ?thesis by (simp add: like_percent)
      next
        case 2
        with Cons show ?thesis by (simp add: like_underscore)
      next
        case 3
        with Cons show ?thesis by (cases "q @ ''.%''") (auto simp: like_escape)
      qed
    qed
  qed
qed

end

lemma outside_not_under:
  assumes "like_operator (ld_like db)" and "p \<noteq> []"
  shows "outside db p r \<longleftrightarrow> \<not> under db p r"
  using assms like_operator.like_dot_Nil [OF assms(1), of p]
  by (auto simp: outside_def under_def coalesce_def split: option.splits)

lemma sum_list_split:
  "sum_list (map f (filter P xs)) + sum_list (map f (filter (\<lambda>x. \<not> P x) xs)) = (sum_list (map f xs) :: rat)"
  by (induction xs) auto

text \<open>
  C33 (equivalence). What a user spent on an activity and what the user spent on everything but
  that activity add up to what the user spent, rows without a purpose and rows without a price
  included.
\<close>

theorem spend_partition:
  assumes "like_operator (ld_like db)" and "p \<noteq> []"
  shows "spend_usd db prices rows user since None None =
    (case (spend_usd db prices rows user since (Some p) None,
           spend_usd db prices rows user since None (Some p)) of
       (Some a, Some b) \<Rightarrow> Some (a + b) | _ \<Rightarrow> None)"
proof (cases "dearest prices")
  case None
  then show ?thesis by (simp add: spend_usd_def)
next
  case (Some d)
  let ?mine = "filter (\<lambda>r. ur_user r = Some user \<and> since \<le> ur_created_at r) rows"
  let ?f = "\<lambda>r. row_cost db d (price_for prices (ur_model r)) r"
  have "spend_usd db prices rows user since None None = Some (sum_list (map ?f ?mine))"
    by (simp add: spend_usd_def Some)
  moreover have "spend_usd db prices rows user since (Some p) None
      = Some (sum_list (map ?f (filter (under db p) ?mine)))"
    using assms(2) by (simp add: spend_usd_def Some conj_commute conj_left_commute)
  moreover have "spend_usd db prices rows user since None (Some p)
      = Some (sum_list (map ?f (filter (\<lambda>r. \<not> under db p r) ?mine)))"
    using assms by (simp add: spend_usd_def Some outside_not_under conj_commute conj_left_commute)
  ultimately show ?thesis
    by (simp only: option.case prod.case sum_list_split)
qed

definition exact_db :: ledger_db where
  "exact_db = \<lparr>ld_like = sql_like,
     ld_usd = (\<lambda>x. x / 1000000), ld_day = (\<lambda>t. t div 86400)\<rparr>"

definition sample_price :: price_row where
  "sample_price = \<lparr>lp_model = ''m1'', lp_input = 5, lp_output = 25, lp_cache_read = Some (1 / 2),
     lp_cache_write = None, lp_audio = None, lp_threshold = Some 200000, lp_multiplier = Some 2,
     lp_source = ''manual''\<rparr>"

definition sample_row :: "string \<Rightarrow> string option \<Rightarrow> int \<Rightarrow> ledger_row" where
  "sample_row model purpose n = \<lparr>ur_scope = ''s'', ur_message = None, ur_model = model,
     ur_user = Some ''u'', ur_purpose = purpose, ur_agent = None, ur_input = n, ur_output = 0,
     ur_cached = None, ur_cache_write = None, ur_audio = None, ur_total = n, ur_created_at = 10\<rparr>"

definition sample_ledger :: "ledger_row list" where
  "sample_ledger = [sample_row ''m1'' (Some ''chat.title'') 1000000, sample_row ''m2'' None 1000000]"

lemma sql_like_ok: "like_operator sql_like"
  by (rule sample_like.like_operator_axioms)

theorem spend_partition_witness:
  "spend_usd exact_db [sample_price] sample_ledger ''u'' 0 None None =
    (case (spend_usd exact_db [sample_price] sample_ledger ''u'' 0 (Some ''chat'') None,
           spend_usd exact_db [sample_price] sample_ledger ''u'' 0 None (Some ''chat'')) of
       (Some a, Some b) \<Rightarrow> Some (a + b) | _ \<Rightarrow> None)"
  by (rule spend_partition) (simp_all add: exact_db_def sql_like_ok)

text \<open>
  A purpose without pattern characters selects the rows of that purpose and of
  the purposes nested under it; an underscore in it selects rows of other purposes as well.
\<close>

theorem purpose_filter_selects:
  assumes "like_operator (ld_like db)" and "list_all (\<lambda>c. \<not> wild c) p"
  shows "(under db p row \<longleftrightarrow> (\<exists>q. ur_purpose row = Some q \<and> (q = p \<or> (\<exists>r. q = p @ ''.'' @ r)))) \<and>
    (ur_purpose other = Some ''dayXjob.title'' \<longrightarrow> under db ''day_job'' other)"
proof
  have "list_all (\<lambda>c. \<not> wild c) (p @ ''.'')" using assms(2) by (simp add: wild_def backslash_def)
  from like_operator.like_prefix [OF assms(1) this]
  show "under db p row \<longleftrightarrow> (\<exists>q. ur_purpose row = Some q \<and> (q = p \<or> (\<exists>r. q = p @ ''.'' @ r)))"
    by (auto simp: under_def split: option.splits)
  have "list_all (\<lambda>c. \<not> wild c) ''day''" and "list_all (\<lambda>c. \<not> wild c) ''job.''"
    by (simp_all add: wild_def backslash_def)
  then show "ur_purpose other = Some ''dayXjob.title'' \<longrightarrow> under db ''day_job'' other"
    using like_operator.like_plain [OF assms(1), of "''day''" "''_job.%''" "''dayXjob.title''"]
      like_operator.like_prefix [OF assms(1), of "''job.''" "''job.title''"]
    by (simp add: under_def like_operator.like_underscore [OF assms(1)])
qed

theorem purpose_filter_selects_witness:
  "under exact_db ''chat'' (sample_row ''m1'' (Some ''chat.title'') 1) \<and>
   \<not> under exact_db ''chat'' (sample_row ''m1'' (Some ''chatter'') 1) \<and>
   under exact_db ''day_job'' (sample_row ''m1'' (Some ''dayXjob.title'') 1)"
proof -
  have like: "like_operator (ld_like exact_db)" by (simp add: exact_db_def sql_like_ok)
  have "list_all (\<lambda>c. \<not> wild c) ''chat''" by (simp add: wild_def backslash_def)
  note select = purpose_filter_selects [OF like this]
  have "under exact_db ''chat'' row \<longleftrightarrow>
      (\<exists>q. ur_purpose row = Some q \<and> (q = ''chat'' \<or> (\<exists>r. q = ''chat.'' @ r)))" for row :: ledger_row
    using select [of row row] by simp
  moreover have "under exact_db ''day_job'' (sample_row ''m1'' (Some ''dayXjob.title'') 1)"
    by (rule mp [OF conjunct2 [OF select]]) (simp add: sample_row_def)
  ultimately show ?thesis by (simp add: sample_row_def)
qed

definition counted_well :: "'z usage_row_scheme \<Rightarrow> bool" where
  "counted_well r \<longleftrightarrow> 0 \<le> ur_output r \<and> 0 \<le> coalesce (ur_cached r) 0 \<and>
     0 \<le> coalesce (ur_cache_write r) 0 \<and> 0 \<le> coalesce (ur_audio r) 0"

lemma dearest_ge:
  assumes "dearest prices = Some d" and "p \<in> set prices"
  shows "tp_input (prices_of p) \<le> tp_input d \<and> tp_output (prices_of p) \<le> tp_output d \<and>
    tp_cache_read (prices_of p) \<le> tp_cache_read d \<and> tp_cache_write (prices_of p) \<le> tp_cache_write d \<and>
    tp_audio (prices_of p) \<le> tp_audio d"
  using assms by (auto simp: dearest_def Let_def split: if_splits intro!: Max_ge)

lemma token_cost_mono:
  assumes "counted_well r" and "tp_input a \<le> tp_input b" and "tp_output a \<le> tp_output b"
    and "tp_cache_read a \<le> tp_cache_read b" and "tp_cache_write a \<le> tp_cache_write b"
    and "tp_audio a \<le> tp_audio b"
  shows "token_cost a r \<le> token_cost b r"
  unfolding token_cost_def Let_def
  using assms by (intro add_mono mult_left_mono) (auto simp: counted_well_def)

text \<open>
  A row of a model without a price costs at least what any known model would be
  charged for it at the prices of its tokens.  The multiple for long prompts is not among those
  prices: past the threshold of a model that has one, a row of a model without a price costs
  less than the same row of the priced model, even when that model is the only one.
\<close>

theorem unpriced_charged_dearest:
  assumes "mono (ld_usd db)" and "dearest prices = Some d" and "p \<in> set prices"
    and "counted_well row" and "tier (Some p) row = 1"
  shows "row_cost db d (Some p) row \<le> row_cost db d None row \<and>
    (\<exists>q e big. dearest [q] = Some e \<and> counted_well (big :: ledger_row) \<and>
      row_cost exact_db e None big < row_cost exact_db e (Some q) big)"
proof
  have "token_cost (prices_of p) row \<le> token_cost d row"
    using dearest_ge [OF assms(2,3)] assms(4) by (intro token_cost_mono) auto
  with assms(1,5) show "row_cost db d (Some p) row \<le> row_cost db d None row"
    by (simp add: row_cost_def tier_def monoD)
  show "\<exists>q e big. dearest [q] = Some e \<and> counted_well (big :: ledger_row) \<and>
      row_cost exact_db e None big < row_cost exact_db e (Some q) big"
    by (rule exI [of _ sample_price], rule exI [of _ "prices_of sample_price"],
        rule exI [of _ "sample_row ''m2'' None 300000"])
       (simp add: dearest_def counted_well_def row_cost_def token_cost_def tier_def sample_row_def
          sample_price_def prices_of_def coalesce_def exact_db_def)
qed

theorem unpriced_charged_dearest_witness:
  "row_cost exact_db (prices_of sample_price) (Some sample_price) (sample_row ''m1'' None 1000)
     \<le> row_cost exact_db (prices_of sample_price) None (sample_row ''m1'' None 1000)"
proof -
  have "mono (ld_usd exact_db)" by (auto simp: exact_db_def mono_def divide_right_mono)
  moreover have "dearest [sample_price] = Some (prices_of sample_price)"
    by (simp add: dearest_def Let_def)
  moreover have "counted_well (sample_row ''m1'' None 1000)" and "tier (Some sample_price) (sample_row ''m1'' None 1000) = 1"
    by (simp_all add: counted_well_def sample_row_def coalesce_def tier_def sample_price_def)
  ultimately show ?thesis
    by (intro conjunct1 [OF unpriced_charged_dearest [of exact_db "[sample_price]"]]) simp_all
qed

section \<open>The report\<close>

lemma sum_list_at:
  "distinct ks \<Longrightarrow> sum_list (map (\<lambda>k. if k = x then c else 0) ks) = (if x \<in> set ks then c else (0 :: 'a :: comm_monoid_add))"
  by (induction ks) auto

lemma group_not_empty: "k \<in> key ` set xs \<Longrightarrow> filter (\<lambda>r. key r = k) xs \<noteq> []"
  by (auto simp: filter_empty_conv)

text \<open>Summing group by group is summing all.\<close>

lemma sum_groups:
  fixes f :: "'r \<Rightarrow> 'a :: comm_monoid_add"
  assumes "distinct ks" and "key ` set xs \<subseteq> set ks"
  shows "sum_list (map (\<lambda>k. sum_list (map f (filter (\<lambda>r. key r = k) xs))) ks) = sum_list (map f xs)"
  using assms(2)
proof (induction xs)
  case Nil
  then show ?case by (induction ks) auto
next
  case (Cons x xs)
  have "sum_list (map f (filter (\<lambda>r. key r = k) (x # xs)))
      = (if k = key x then f x else 0) + sum_list (map f (filter (\<lambda>r. key r = k) xs))" for k
    by simp
  then have "sum_list (map (\<lambda>k. sum_list (map f (filter (\<lambda>r. key r = k) (x # xs)))) ks)
      = sum_list (map (\<lambda>k. if k = key x then f x else 0) ks)
        + sum_list (map (\<lambda>k. sum_list (map f (filter (\<lambda>r. key r = k) xs))) ks)"
    by (simp only: sum_list_addf)
  with Cons assms(1) show ?case by (simp add: sum_list_at)
qed

lemma sum_list_sort_key:
  "sum_list (map g (sort_key h ls)) = sum_list (map (g :: 'b \<Rightarrow> 'a :: comm_monoid_add) ls)"
  by (metis mset_map mset_sort sum_mset_sum_list)

lemma report_lines:
  assumes "usage_report db prices rows since until group_by user = Inr lines" and "group_by \<noteq> []"
  obtains keys where "distinct keys"
    and "set keys = (\<lambda>r. map (report_column db r) group_by) ` set (filter (reported since until user) rows)"
    and "lines = sort_key (report_order prices) (map (\<lambda>k. report_line_of db prices
      (filter (\<lambda>r. map (report_column db r) group_by = k) (filter (reported since until user) rows)) k) keys)"
  by (rule that [of "remdups (map (\<lambda>r. map (report_column db r) group_by) (filter (reported since until user) rows))"])
     (use assms in \<open>auto simp: usage_report_def Let_def split: if_splits\<close>)

text \<open>
  A report accounts for the whole ledger: with any grouping, its lines have
  distinct keys and no line is empty, the calls and the tokens of its lines add up to those of
  the rows it is about, its lines are ordered by their cost, and the costs of a user's report
  add up to what the user spent.
\<close>

theorem report_accounts:
  assumes "usage_report db prices rows since until group_by user = Inr lines" and "group_by \<noteq> []"
    and "dearest prices \<noteq> None"
  shows "distinct (map rl_keys lines) \<and> list_all (\<lambda>l. 0 < rl_calls l \<and> rl_cost l \<noteq> None) lines \<and>
    sum_list (map rl_calls lines) = length (filter (reported since until user) rows) \<and>
    sum_list (map rl_input lines) = sum_list (map ur_input (filter (reported since until user) rows)) \<and>
    sum_list (map rl_output lines) = sum_list (map ur_output (filter (reported since until user) rows)) \<and>
    sorted (map (\<lambda>l. - the (rl_cost l)) lines) \<and>
    (\<forall>u. user = Some u \<and> until = None \<longrightarrow>
       spend_usd db prices rows u since None None = Some (sum_list (map (the \<circ> rl_cost) lines)))"
proof -
  let ?rows = "filter (reported since until user) rows"
  let ?key = "\<lambda>r. map (report_column db r) group_by"
  let ?line = "\<lambda>k. report_line_of db prices (filter (\<lambda>r. ?key r = k) ?rows) k"
  obtain d where d: "dearest prices = Some d" using assms(3) by blast
  let ?cost = "\<lambda>r. row_cost db d (price_for prices (ur_model r)) r"
  obtain keys where keys: "distinct keys" "set keys = ?key ` set ?rows"
    and lines: "lines = sort_key (report_order prices) (map ?line keys)"
    by (rule report_lines [OF assms(1,2)])
  have some: "filter (\<lambda>r. ?key r = k) ?rows \<noteq> []" if "k \<in> set keys" for k
    using that unfolding keys(2) by (rule group_not_empty)
  have cost: "rl_cost (?line k) = Some (sum_list (map ?cost (filter (\<lambda>r. ?key r = k) ?rows)))"
    if "k \<in> set keys" for k
    using some [OF that] by (simp add: report_line_of_def d del: filter_filter)
  have sums: "sum_list (map g lines) = sum_list (map (g \<circ> ?line) keys)"
    for g :: "report_line \<Rightarrow> 'x :: comm_monoid_add"
    by (simp only: lines sum_list_sort_key list.map_comp)
  have "mset (map rl_keys lines) = mset (map (rl_keys \<circ> ?line) keys)"
    by (simp only: lines mset_map mset_sort image_mset.compositionality)
  moreover have "map (rl_keys \<circ> ?line) keys = keys" by (simp add: report_line_of_def map_idI)
  ultimately have "distinct (map rl_keys lines)"
    using keys(1) by (metis mset_eq_imp_distinct_iff)
  moreover have "list_all (\<lambda>l. 0 < rl_calls l \<and> rl_cost l \<noteq> None) lines"
    using some cost by (auto simp: lines list_all_iff report_line_of_def simp del: filter_filter)
  moreover have "sum_list (map rl_calls lines) = length ?rows"
    using sum_groups [OF keys(1), of ?key ?rows "\<lambda>_. 1 :: nat"] keys(2)
    by (simp add: sums report_line_of_def comp_def sum_list_triv del: filter_filter)
  moreover have "sum_list (map rl_input lines) = sum_list (map ur_input ?rows)"
    "sum_list (map rl_output lines) = sum_list (map ur_output ?rows)"
    using sum_groups [OF keys(1), of ?key ?rows ur_input] sum_groups [OF keys(1), of ?key ?rows ur_output]
      keys(2) by (simp_all add: sums report_line_of_def comp_def Let_def del: filter_filter)
  moreover have "sorted (map (\<lambda>l. - the (rl_cost l)) lines)"
  proof -
    have "map (\<lambda>l. - the (rl_cost l)) lines = map (report_order prices) lines"
      using cost by (auto simp: lines report_order_def d coalesce_def simp del: filter_filter)
    then show ?thesis by (simp only: lines sorted_sort_key)
  qed
  moreover have "spend_usd db prices rows u since None None = Some (sum_list (map (the \<circ> rl_cost) lines))"
    if "user = Some u \<and> until = None" for u
  proof -
    have "sum_list (map (the \<circ> rl_cost) lines)
        = sum_list (map (\<lambda>k. sum_list (map ?cost (filter (\<lambda>r. ?key r = k) ?rows))) keys)"
      unfolding sums using cost by (intro arg_cong [where f = sum_list] map_cong) simp_all
    also have "\<dots> = sum_list (map ?cost ?rows)" using keys by (intro sum_groups) auto
    also have "?rows = filter (\<lambda>r. ur_user r = Some u \<and> since \<le> ur_created_at r) rows"
      using that by (intro filter_cong) (auto simp: reported_def)
    finally show ?thesis by (simp add: spend_usd_def d comp_def)
  qed
  ultimately show ?thesis by blast
qed

theorem report_accounts_witness:
  "\<exists>lines. usage_report exact_db [sample_price] sample_ledger 0 None [''model''] (Some ''u'') = Inr lines \<and>
    distinct (map rl_keys lines) \<and> sum_list (map rl_calls lines) = 2 \<and>
    spend_usd exact_db [sample_price] sample_ledger ''u'' 0 None None
      = Some (sum_list (map (the \<circ> rl_cost) lines))"
proof -
  obtain lines where lines:
    "usage_report exact_db [sample_price] sample_ledger 0 None [''model''] (Some ''u'') = Inr lines"
    by (simp add: usage_report_def Let_def REPORT_GROUPS_def)
  moreover have "length (filter (reported 0 None (Some ''u'')) sample_ledger) = 2"
    by (simp add: reported_def sample_ledger_def sample_row_def)
  moreover have "dearest [sample_price] \<noteq> None" by (simp add: dearest_def Let_def)
  ultimately show ?thesis using report_accounts [OF lines] by auto
qed

end
