(* ===== verification/Pricing.thy ===== *)
theory Pricing
  imports Usage
begin

text \<open>
  Prices from a published page (luna_core/services/pricing.py): the scanners that stand for its
  regular expressions, the table of models, and the update of the price rows.

  Figures are rationals; \<open>pv_div\<close> is the quotient of two of them as the database stores it.
\<close>

definition parse_error :: "string \<Rightarrow> exn" where
  "parse_error m = OtherError ''PricingParseError'' m"

record published_price =
  pb_input :: rat
  pb_cache_write :: rat
  pb_cache_read :: rat
  pb_output :: rat
  pb_threshold :: "int option"
  pb_multiplier :: "rat option"

section \<open>Scanning text\<close>

text \<open>
  \<open>re.sub\<close>: a matcher gives the replacement of a match at the beginning of a text and what
  follows the match, which is never empty.
\<close>

function sub_with :: "(string \<Rightarrow> (string \<times> string) option) \<Rightarrow> string \<Rightarrow> string" where
  "sub_with match [] = []"
| "sub_with match (c # s) =
     (case match (c # s) of
        None \<Rightarrow> c # sub_with match s
      | Some (r, rest) \<Rightarrow>
          if length rest \<le> length s then r @ sub_with match rest else c # sub_with match s)"
  by pat_completeness auto
termination by (relation "measure (\<lambda>(_, s). length s)") auto

text \<open>\<open>re.search\<close>: the leftmost match.\<close>

fun search_with :: "(string \<Rightarrow> 'a option) \<Rightarrow> string \<Rightarrow> 'a option" where
  "search_with match [] = match []"
| "search_with match (c # s) = (case match (c # s) of None \<Rightarrow> search_with match s | Some x \<Rightarrow> Some x)"

text \<open>\<open>[^c]*c\<close>: the text before the first \<open>c\<close> and the one behind it.\<close>

definition until :: "char \<Rightarrow> string \<Rightarrow> (string \<times> string) option" where
  "until c s =
     (case dropWhile (\<lambda>x. x \<noteq> c) s of [] \<Rightarrow> None | _ # rest \<Rightarrow> Some (takeWhile (\<lambda>x. x \<noteq> c) s, rest))"

definition link_at :: "string \<Rightarrow> (string \<times> string) option" where
  "link_at s =
     (if \<not> startswith s ''['' then None
      else case until CHR '']'' (tl s) of
        None \<Rightarrow> None
      | Some (name, r) \<Rightarrow>
          if startswith r ''('' then map_option (\<lambda>(_, rest). (name, rest)) (until CHR '')'' (tl r))
          else None)"

definition tag_at :: "string \<Rightarrow> (string \<times> string) option" where
  "tag_at s =
     (if \<not> startswith s ''<'' then None
      else case until CHR ''>'' (tl s) of
        None \<Rightarrow> None | Some (inner, rest) \<Rightarrow> if inner = [] then None else Some ([], rest))"

definition parens_at :: "string \<Rightarrow> (string \<times> string) option" where
  "parens_at s =
     (let t = dropWhile is_space s
      in if startswith t ''('' then map_option (\<lambda>(_, rest). ([], rest)) (until CHR '')'' (tl t)) else None)"

definition sub_links :: "string \<Rightarrow> string" where
  "sub_links = sub_with link_at"

definition sub_tags :: "string \<Rightarrow> string" where
  "sub_tags = sub_with tag_at"

definition cell :: "string \<Rightarrow> string" where
  "cell text = str_strip (sub_tags (sub_links text))"

definition is_digit :: "char \<Rightarrow> bool" where
  "is_digit c \<longleftrightarrow> (let n = (of_char c :: nat) in 48 \<le> n \<and> n \<le> 57)"

definition digits_value :: "string \<Rightarrow> int" where
  "digits_value s = foldl (\<lambda>n c. 10 * n + (of_char c - 48)) 0 s"

text \<open>A figure as its digits and how many of them are decimals.\<close>

definition figure_at :: "string \<Rightarrow> (int \<times> nat) option" where
  "figure_at s =
     (if \<not> startswith s ''$'' then None
      else let r = dropWhile is_space (tl s); whole = takeWhile is_digit r;
               t = drop (length whole) r;
               frac = (if startswith t ''.'' then takeWhile is_digit (tl t) else [])
           in if whole = [] then None else Some (digits_value (whole @ frac), length frac))"

definition money :: "string \<Rightarrow> exn + rat" where
  "money text =
     (case search_with figure_at (sub_tags text) of
        None \<Rightarrow> Inl (parse_error (''no price in '' @ str_repr text))
      | Some (n, decimals) \<Rightarrow> Inr (of_int n / 10 ^ decimals))"

text \<open>\<open>_TIER\<close>, in any case of the letters: whether it says \<open>over\<close>, and the figure.\<close>

definition starts_ci :: "string \<Rightarrow> string \<Rightarrow> bool" where
  "starts_ci s p \<longleftrightarrow> map lower_char (take (length p) s) = p"

definition tier_at :: "string \<Rightarrow> (bool \<times> int) option" where
  "tier_at s =
     (if \<not> starts_ci s ''(for prompts '' then None
      else let r = drop 13 s;
               over = starts_ci r ''over '';
               t = drop (if over then 5 else 6) r;
               ds = takeWhile (\<lambda>c. is_digit c \<or> c = CHR '','') t
           in if (over \<or> starts_ci r ''up to '') \<and> ds \<noteq> [] \<and> is_digit (hd ds)
                 \<and> starts_ci (drop (length ds) t) '' tokens)''
              then Some (over, digits_value (filter is_digit ds)) else None)"

section \<open>The table\<close>

definition line_break :: "char \<Rightarrow> bool" where
  "line_break c \<longleftrightarrow> (of_char c :: nat) \<in> {10, 11, 12, 13, 28, 29, 30, 133}"

function split_lines :: "string \<Rightarrow> string list" where
  "split_lines s =
     (if s = [] then []
      else let l = takeWhile (\<lambda>c. \<not> line_break c) s; r = drop (length l) s
           in l # (case r of
                [] \<Rightarrow> []
              | c # t \<Rightarrow>
                  if c = CHR 0x0D \<and> startswith t [CHR 0x0A] then split_lines (tl t) else split_lines t))"
  by pat_completeness auto
termination
proof (relation "measure length", goal_cases)
  case (2 s l r c t)
  then have "length (c # t) \<le> length s" by (metis length_drop diff_le_self)
  then show ?case by simp
next
  case (3 s l r c t)
  then have "length (c # t) \<le> length s" by (metis length_drop diff_le_self)
  then show ?case by simp
qed simp

declare split_lines.simps [simp del]

definition strip_bars :: "string \<Rightarrow> string" where
  "strip_bars s = (let bar = (\<lambda>c. c = CHR ''|'') in rev (dropWhile bar (rev (dropWhile bar s))))"

definition row_cells :: "string \<Rightarrow> string list" where
  "row_cells line = split_on CHR ''|'' (strip_bars (str_strip line))"

definition price_header :: "string list \<Rightarrow> bool" where
  "price_header header \<longleftrightarrow> ''base input tokens'' \<in> set header \<and> ''output tokens'' \<in> set header
     \<and> list_ex (\<lambda>h. find_sub ''cache hits'' h \<noteq> None) header"

fun find_table :: "string list \<Rightarrow> (string list \<times> string list list) option" where
  "find_table [] = None"
| "find_table (line # ls) =
     (let header = map (\<lambda>c. str_lower (cell c)) (row_cells line)
      in if price_header header then
           Some (header, map row_cells (takeWhile (\<lambda>r. startswith (str_strip r) ''|'') (drop 1 ls)))
         else find_table ls)"

definition model_table :: "string \<Rightarrow> exn + string list \<times> string list list" where
  "model_table markdown =
     (case find_table (split_lines markdown) of
        None \<Rightarrow> Inl (parse_error ''no model price table found'') | Some t \<Rightarrow> Inr t)"

definition column :: "string list \<Rightarrow> string \<Rightarrow> exn + nat" where
  "column header name =
     (case List.find (\<lambda>i. startswith (header ! i) name) [0..<length header] of
        None \<Rightarrow> Inl (parse_error (''no '' @ str_repr name @ '' column'')) | Some i \<Rightarrow> Inr i)"

definition row_name :: "string list \<Rightarrow> string" where
  "row_name row = str_strip (sub_with parens_at (cell (sub_links (row ! 0))))"

definition row_tier :: "string list \<Rightarrow> (bool \<times> int) option" where
  "row_tier row = search_with tier_at (sub_links (row ! 0))"

record price_columns =
  pc_in :: nat
  pc_write :: nat
  pc_read :: nat
  pc_out :: nat

definition price_columns_of :: "string list \<Rightarrow> exn + price_columns" where
  "price_columns_of header =
     bindR (column header ''base input'') (\<lambda>i. bindR (column header ''5m cache writes'') (\<lambda>w.
     bindR (column header ''cache hits'') (\<lambda>r. bindR (column header ''output'') (\<lambda>out.
       Inr \<lparr>pc_in = i, pc_write = w, pc_read = r, pc_out = out\<rparr>))))"

definition wide_enough :: "price_columns \<Rightarrow> string list \<Rightarrow> bool" where
  "wide_enough cols row \<longleftrightarrow>
     Max {pc_in cols, pc_write cols, pc_read cols, pc_out cols} < length row"

definition row_price :: "price_columns \<Rightarrow> string list \<Rightarrow> exn + published_price" where
  "row_price cols row =
     bindR (money (row ! pc_in cols)) (\<lambda>i. bindR (money (row ! pc_write cols)) (\<lambda>w.
     bindR (money (row ! pc_read cols)) (\<lambda>r. bindR (money (row ! pc_out cols)) (\<lambda>out.
       Inr \<lparr>pb_input = i, pb_cache_write = w, pb_cache_read = r, pb_output = out,
            pb_threshold = None, pb_multiplier = None\<rparr>))))"

type_synonym price_list = "(string \<times> published_price) list"

text \<open>One row: the prices of its model, or the figures past a prompt length.\<close>

definition read_row ::
  "string list \<Rightarrow> published_price \<Rightarrow> price_list \<times> (string \<times> int \<times> rat) list
   \<Rightarrow> price_list \<times> (string \<times> int \<times> rat) list" where
  "read_row row price acc =
     (case row_tier row of
        Some (True, n) \<Rightarrow> (fst acc, dset (snd acc) (row_name row) (n, pb_input price))
      | _ \<Rightarrow> (if dhas (fst acc) (row_name row) then acc
             else (fst acc @ [(row_name row, price)], snd acc)))"

fun read_rows ::
  "price_columns \<Rightarrow> string list list \<Rightarrow> price_list \<times> (string \<times> int \<times> rat) list
   \<Rightarrow> exn + price_list \<times> (string \<times> int \<times> rat) list" where
  "read_rows cols [] acc = Inr acc"
| "read_rows cols (row # rows) acc =
     (if \<not> wide_enough cols row then read_rows cols rows acc
      else bindR (row_price cols row) (\<lambda>price. read_rows cols rows (read_row row price acc)))"

record 'w pricing_env =
  pv_div :: "rat \<Rightarrow> rat \<Rightarrow> rat"
  pv_fetch :: "('w, string) act"
  pv_ledger_models :: "('w, string list) act"
  pv_display_names :: "string list \<Rightarrow> ('w, (string \<times> string) list) act"
  pv_prices :: "'w \<Rightarrow> price_row list"
  pv_commit :: "price_row list \<Rightarrow> ('w, unit) act"

definition add_tier ::
  "(rat \<Rightarrow> rat \<Rightarrow> rat) \<Rightarrow> (string \<times> int \<times> rat) list \<Rightarrow> string \<times> published_price \<Rightarrow> string \<times> published_price" where
  "add_tier ratio over entry =
     (case map_of over (fst entry) of
        None \<Rightarrow> entry
      | Some (threshold, long_input) \<Rightarrow>
          if pb_input (snd entry) = 0 then entry
          else (fst entry, (snd entry)\<lparr>pb_threshold := Some threshold,
                 pb_multiplier := Some (ratio long_input (pb_input (snd entry)))\<rparr>))"

definition parse_pricing :: "(rat \<Rightarrow> rat \<Rightarrow> rat) \<Rightarrow> string \<Rightarrow> exn + price_list" where
  "parse_pricing ratio markdown =
     bindR (model_table markdown) (\<lambda>(header, rows).
     bindR (price_columns_of header) (\<lambda>cols.
     bindR (read_rows cols rows ([], [])) (\<lambda>(base, over).
       if length base < 3 then
         Inl (parse_error (''only '' @ nat_str (length base) @ '' models read from the price list''))
       else Inr (map (add_tier ratio over) base))))"

section \<open>Writing the prices\<close>

definition priced_as :: "published_price \<Rightarrow> string \<Rightarrow> price_row \<Rightarrow> price_row" where
  "priced_as price source row = row\<lparr>lp_input := pb_input price, lp_output := pb_output price,
     lp_cache_read := Some (pb_cache_read price), lp_cache_write := Some (pb_cache_write price),
     lp_threshold := pb_threshold price, lp_multiplier := pb_multiplier price, lp_source := source\<rparr>"

definition new_price :: "string \<Rightarrow> price_row" where
  "new_price model = \<lparr>lp_model = model, lp_input = 0, lp_output = 0, lp_cache_read = None,
     lp_cache_write = None, lp_audio = None, lp_threshold = None, lp_multiplier = None,
     lp_source = []\<rparr>"

definition set_price :: "string \<Rightarrow> published_price \<Rightarrow> string \<Rightarrow> price_row list \<Rightarrow> price_row list" where
  "set_price model price source prices =
     (case price_for prices model of
        None \<Rightarrow> prices @ [priced_as price source (new_price model)]
      | Some _ \<Rightarrow> map (\<lambda>row. if lp_model row = model then priced_as price source row else row) prices)"

definition SOURCE_ANTHROPIC :: string where
  "SOURCE_ANTHROPIC = ''anthropic-docs''"

record sync_result =
  sr_updated :: "(string \<times> string) list"
  sr_unpriced :: "string list"

text \<open>One model id and its name.\<close>

definition price_model ::
  "price_list \<Rightarrow> string \<times> string \<Rightarrow> price_row list \<times> sync_result \<Rightarrow> price_row list \<times> sync_result" where
  "price_model published named acc =
     (case map_of published (snd named) of
        None \<Rightarrow> (fst acc, (snd acc)\<lparr>sr_unpriced := sr_unpriced (snd acc) @ [fst named]\<rparr>)
      | Some price \<Rightarrow>
          (set_price (fst named) price SOURCE_ANTHROPIC (fst acc),
           (snd acc)\<lparr>sr_updated := dset (sr_updated (snd acc)) (fst named) (snd named)\<rparr>))"

fun insert_named :: "string \<times> string \<Rightarrow> (string \<times> string) list \<Rightarrow> (string \<times> string) list" where
  "insert_named p [] = [p]"
| "insert_named p (q # ps) = (if str_less (fst q) (fst p) then q # insert_named p ps else p # q # ps)"

definition sync_prices :: "'w pricing_env \<Rightarrow> string option \<Rightarrow> ('w, sync_result) act" where
  "sync_prices env markdown =
     bindA (case markdown of Some t \<Rightarrow> if t = [] then pv_fetch env else returnA t
            | None \<Rightarrow> pv_fetch env) (\<lambda>page.
     bindA (liftR (parse_pricing (pv_div env) page)) (\<lambda>published.
     bindA (pv_ledger_models env) (\<lambda>models.
     bindA (pv_display_names env models) (\<lambda>names.
     bindA (readA (pv_prices env)) (\<lambda>prices.
       let (prices', result) = fold (price_model published) (foldr insert_named names [])
             (prices, \<lparr>sr_updated = [], sr_unpriced = []\<rparr>)
       in bindA (pv_commit env prices') (\<lambda>_. returnA result))))))"

section \<open>A page that is read is read whole\<close>

text \<open>Where the entries come from.\<close>

definition from_rows ::
  "price_columns \<Rightarrow> string list list \<Rightarrow> price_list \<times> (string \<times> int \<times> rat) list \<Rightarrow> bool" where
  "from_rows cols rows acc \<longleftrightarrow> distinct (map fst (fst acc)) \<and>
     (\<forall>(name, p) \<in> set (fst acc). \<exists>row \<in> set rows. wide_enough cols row \<and> row_name row = name
        \<and> row_price cols row = Inr p) \<and>
     (\<forall>name t x. map_of (snd acc) name = Some (t, x) \<longrightarrow> (\<exists>row \<in> set rows. row_name row = name
        \<and> row_tier row = Some (True, t) \<and> (\<exists>p. row_price cols row = Inr p \<and> x = pb_input p)))"

lemma read_row_from:
  assumes "from_rows cols rows acc" and "row \<in> set rows" and "wide_enough cols row"
    and "row_price cols row = Inr price"
  shows "from_rows cols rows (read_row row price acc)"
proof (cases "\<exists>n. row_tier row = Some (True, n)")
  case True
  then obtain n where "row_tier row = Some (True, n)" by blast
  with assms show ?thesis by (auto simp: from_rows_def read_row_def)
next
  case False
  then have r: "read_row row price acc = (if dhas (fst acc) (row_name row) then acc
      else (fst acc @ [(row_name row, price)], snd acc))"
    by (auto simp: read_row_def split: option.splits bool.splits)
  show ?thesis
  proof (cases "dhas (fst acc) (row_name row)")
    case False
    then have "row_name row \<notin> fst ` set (fst acc)" by (simp add: dhas_iff_fst)
    with assms False show ?thesis by (fastforce simp: from_rows_def r)
  qed (simp add: r assms(1))
qed

lemma read_rows_from:
  "read_rows cols rest acc = Inr acc' \<Longrightarrow> set rest \<subseteq> set rows \<Longrightarrow> from_rows cols rows acc \<Longrightarrow>
   from_rows cols rows acc'"
  by (induction cols rest acc rule: read_rows.induct)
     (auto simp: bindR_Return_iff read_row_from split: if_splits)

text \<open>
  A page is read whole or not at all: what is read has at least three models, each
  once, and every model has all four of its figures from one row of the table that bears its
  name; a threshold and its multiple come from another row of that name.
\<close>

theorem parse_pricing_complete:
  assumes "parse_pricing ratio markdown = Inr published"
  shows "3 \<le> length published \<and> distinct (map fst published) \<and>
    (\<exists>header rows cols. model_table markdown = Inr (header, rows) \<and> price_columns_of header = Inr cols \<and>
      (\<forall>(name, p) \<in> set published. \<exists>row \<in> set rows. row_name row = name \<and>
        (\<exists>base. row_price cols row = Inr base \<and>
          (p = base \<or> (\<exists>tier_row \<in> set rows. \<exists>t long. row_name tier_row = name
             \<and> row_tier tier_row = Some (True, t) \<and> row_price cols tier_row = Inr long \<and>
             p = base\<lparr>pb_threshold := Some t,
                   pb_multiplier := Some (ratio (pb_input long) (pb_input base))\<rparr>)))))"
proof -
  obtain header rows cols base over where parsed: "model_table markdown = Inr (header, rows)"
    "price_columns_of header = Inr cols" "read_rows cols rows ([], []) = Inr (base, over)"
    "3 \<le> length base" "published = map (add_tier ratio over) base"
    using assms by (auto simp: parse_pricing_def bindR_Return_iff split: if_splits)
  have "from_rows cols rows ([], [])" by (simp add: from_rows_def)
  then have from_rows: "from_rows cols rows (base, over)"
    by (rule read_rows_from [OF parsed(3) subset_refl])
  have names: "map fst published = map fst base"
    by (auto simp: parsed(5) add_tier_def split: option.splits)
  have entry: "\<exists>row \<in> set rows. row_name row = name \<and>
        (\<exists>base. row_price cols row = Inr base \<and>
          (p = base \<or> (\<exists>tier_row \<in> set rows. \<exists>t long. row_name tier_row = name
             \<and> row_tier tier_row = Some (True, t) \<and> row_price cols tier_row = Inr long \<and>
             p = base\<lparr>pb_threshold := Some t,
                   pb_multiplier := Some (ratio (pb_input long) (pb_input base))\<rparr>)))"
    if "(name, p) \<in> set published" for name p
  proof -
    from that have "(name, p) \<in> add_tier ratio over ` set base" by (simp add: parsed(5))
    then obtain e where e: "(name, p) = add_tier ratio over e" "e \<in> set base" by (rule imageE)
    then have "fst e = name" by (auto simp: add_tier_def split: option.splits if_splits)
    then obtain q where "e = (name, q)" by (cases e) simp
    with e have q: "(name, q) \<in> set base" "(name, p) = add_tier ratio over (name, q)" by auto
    then obtain row where row: "row \<in> set rows" "row_name row = name" "row_price cols row = Inr q"
      using from_rows by (auto simp: from_rows_def)
    show ?thesis
    proof (cases "map_of over name")
      case None
      with q row show ?thesis by (auto simp: add_tier_def)
    next
      case (Some tx)
      obtain t x where tx: "tx = (t, x)" by fastforce
      have "\<forall>name t x. map_of over name = Some (t, x) \<longrightarrow> (\<exists>row \<in> set rows. row_name row = name
          \<and> row_tier row = Some (True, t) \<and> (\<exists>p. row_price cols row = Inr p \<and> x = pb_input p))"
        using from_rows by (simp add: from_rows_def)
      with Some tx obtain tier_row long where "tier_row \<in> set rows" "row_name tier_row = name"
        "row_tier tier_row = Some (True, t)" "row_price cols tier_row = Inr long" "x = pb_input long"
        by blast
      with q row Some tx show ?thesis
        by (intro bexI [of _ row]) (auto simp: add_tier_def split: if_splits)
    qed
  qed
  have "distinct (map fst published)" unfolding names using from_rows by (simp add: from_rows_def)
  moreover have "3 \<le> length published" using parsed(4) by (simp add: parsed(5))
  ultimately show ?thesis using parsed(1,2) entry by blast
qed

text \<open>A page with a link, a tag and a model priced by prompt length.\<close>

definition sample_page :: string where
  "sample_page = join_with [CHR 0x0A]
     [''# Pricing'',
      ''| Model | Base Input Tokens | 5m Cache Writes | Cache Hits | Output Tokens |'',
      ''|---|---|---|---|---|'',
      ''| [Opus](/opus) | $4 / MTok | $5 | $0.20 | $20 |'',
      ''| Haiku (for prompts up to 100,000 tokens) | $0.1 | $0.2 | $0.01 | $0.5 |'',
      ''| Haiku (for prompts over 100,000 tokens) | $0.5 | $1 | $0.05 | $2.5 |'',
      ''| <b>Sonnet</b> | $ 2 | $3 | $0.3 | $10 |'',
      ''Notes'']"

definition sample_published :: price_list where
  "sample_published =
     (let p = (\<lambda>i w r out. \<lparr>pb_input = i, pb_cache_write = w, pb_cache_read = r, pb_output = out,
          pb_threshold = None, pb_multiplier = None\<rparr>)
      in [(''Opus'', p 4 5 (1 / 5) 20),
          (''Haiku'', (p (1 / 10) (1 / 5) (1 / 100) (1 / 2))\<lparr>pb_threshold := Some 100000, pb_multiplier := Some 5\<rparr>),
          (''Sonnet'', p 2 3 (3 / 10) 10)])"

lemma sample_table: "model_table sample_page = Inr
    ([''model'', ''base input tokens'', ''5m cache writes'', ''cache hits'', ''output tokens''],
     [['' [Opus](/opus) '', '' $4 / MTok '', '' $5 '', '' $0.20 '', '' $20 ''],
      ['' Haiku (for prompts up to 100,000 tokens) '', '' $0.1 '', '' $0.2 '', '' $0.01 '', '' $0.5 ''],
      ['' Haiku (for prompts over 100,000 tokens) '', '' $0.5 '', '' $1 '', '' $0.05 '', '' $2.5 ''],
      ['' <b>Sonnet</b> '', '' $ 2 '', '' $3 '', '' $0.3 '', '' $10 '']])"
  by code_simp

lemma sample_figures:
  "map (\<lambda>c. search_with figure_at (sub_tags c))
     ['' $4 / MTok '', '' $5 '', '' $0.20 '', '' $20 '', '' $0.1 '', '' $0.2 '', '' $0.01 '', '' $0.5 '',
      '' $0.5 '', '' $1 '', '' $0.05 '', '' $2.5 '', '' $ 2 '', '' $3 '', '' $0.3 '', '' $10 '']
   = map Some [(4, 0), (5, 0), (20, 2), (20, 0), (1, 1), (2, 1), (1, 2), (5, 1),
      (5, 1), (1, 0), (5, 2), (25, 1), (2, 0), (3, 0), (3, 1), (10, 0)]"
  by code_simp

lemma sample_names:
  "map (\<lambda>c. (row_name [c], row_tier [c]))
     ['' [Opus](/opus) '', '' Haiku (for prompts up to 100,000 tokens) '',
      '' Haiku (for prompts over 100,000 tokens) '', '' <b>Sonnet</b> '']
   = [(''Opus'', None), (''Haiku'', Some (False, 100000)), (''Haiku'', Some (True, 100000)), (''Sonnet'', None)]"
  by code_simp

lemma row_name_Cons: "row_name (c # cs) = row_name [c]"
  and row_tier_Cons: "row_tier (c # cs) = row_tier [c]"
  by (simp_all add: row_name_def row_tier_def)

lemma sample_page_parsed: "parse_pricing (/) sample_page = Inr sample_published"
proof -
  have cols: "price_columns_of [''model'', ''base input tokens'', ''5m cache writes'', ''cache hits'',
      ''output tokens''] = Inr \<lparr>pc_in = 1, pc_write = 2, pc_read = 3, pc_out = 4\<rparr>"
    by code_simp
  have figure: "search_with figure_at (sub_tags c) = Some (n, k) \<Longrightarrow> money c = Inr (of_int n / 10 ^ k)"
    for c n k by (simp add: money_def)
  show ?thesis
    using sample_figures sample_names
    by (simp add: parse_pricing_def sample_table cols bindR_def row_price_def wide_enough_def
        read_row_def figure row_name_Cons [where cs = "_ # _"] row_tier_Cons [where cs = "_ # _"]
        sample_published_def add_tier_def Let_def dhas_def)
qed

theorem parse_pricing_complete_witness:
  "3 \<le> length sample_published \<and> distinct (map fst sample_published)"
  using parse_pricing_complete [OF sample_page_parsed] by blast

section \<open>What a synchronisation writes\<close>

lemma price_for_append:
  "price_for (prices @ [x]) m =
     (case price_for prices m of None \<Rightarrow> if lp_model x = m then Some x else None | Some r \<Rightarrow> Some r)"
  by (induction prices) (auto simp: price_for_def)

lemma price_for_map:
  assumes "\<And>row. lp_model (f row) = lp_model row"
  shows "price_for (map (\<lambda>row. if lp_model row = m then f row else row) prices) m' =
    map_option (\<lambda>row. if m' = m then f row else row) (price_for prices m')"
  by (induction prices) (auto simp: price_for_def assms)

lemma price_for_set:
  "price_for (set_price m price source prices) m' =
     (if m' = m then Some (priced_as price source
        (case price_for prices m of None \<Rightarrow> new_price m | Some r \<Rightarrow> r))
      else price_for prices m')"
  by (auto simp: set_price_def price_for_append price_for_map priced_as_def new_price_def
      split: option.split)

lemma price_models:
  assumes "distinct (map fst ns)" and "fold (price_model published) ns (prices, res) = (prices', res')"
    and "fst ` set ns \<inter> fst ` set (sr_updated res) = {}"
  shows "\<forall>m. map_of (sr_updated res') m = (case map_of ns m of
        Some name \<Rightarrow> if dhas published name then Some name else None
      | None \<Rightarrow> map_of (sr_updated res) m) \<and>
    price_for prices' m = (case map_of ns m of
        None \<Rightarrow> price_for prices m
      | Some name \<Rightarrow> (case map_of published name of
            None \<Rightarrow> price_for prices m
          | Some p \<Rightarrow> Some (priced_as p SOURCE_ANTHROPIC
              (case price_for prices m of None \<Rightarrow> new_price m | Some r \<Rightarrow> r))))"
  using assms
proof (induction ns arbitrary: prices res)
  case Nil
  then show ?case by simp
next
  case (Cons n ns)
  obtain m name where n: "n = (m, name)" by fastforce
  have new: "map_of ns m = None" using Cons.prems(1) n by (simp add: map_of_eq_None_iff)
  have fresh: "map_of (sr_updated res) m = None" using Cons.prems(3) n by (auto simp: map_of_eq_None_iff)
  show ?case
  proof (cases "map_of published name")
    case None
    let ?res = "res\<lparr>sr_unpriced := sr_unpriced res @ [m]\<rparr>"
    have "price_model published n (prices, res) = (prices, ?res)"
      by (simp add: price_model_def n None)
    then have "fold (price_model published) ns (prices, ?res) = (prices', res')"
      using Cons.prems(2) by simp
    with Cons.IH [of prices ?res] Cons.prems n None new fresh show ?thesis
      by (auto simp: dhas_def split: option.splits)
  next
    case (Some p)
    let ?res = "res\<lparr>sr_updated := dset (sr_updated res) m name\<rparr>"
    let ?prices = "set_price m p SOURCE_ANTHROPIC prices"
    have "price_model published n (prices, res) = (?prices, ?res)"
      by (simp add: price_model_def n Some)
    then have "fold (price_model published) ns (?prices, ?res) = (prices', res')"
      using Cons.prems(2) by simp
    moreover have "fst ` set ns \<inter> fst ` set (sr_updated ?res) = {}"
      using Cons.prems(1,3) n by (auto simp: dom_update)
    ultimately show ?thesis
      using Cons.IH [of ?prices ?res] Cons.prems(1) n Some new
      by (auto simp: dhas_def price_for_set split: option.splits if_splits)
  qed
qed

lemma insert_named_mset: "mset (insert_named p ps) = add_mset p (mset ps)"
  by (induction ps) auto

lemma sorted_names:
  assumes "distinct (map fst names)"
  shows "distinct (map fst (foldr insert_named names []))"
    and "map_of (foldr insert_named names []) = map_of names"
proof -
  have m: "mset (foldr insert_named names []) = mset names"
    by (induction names) (auto simp: insert_named_mset)
  then have "mset (map fst (foldr insert_named names [])) = mset (map fst names)" by simp
  with assms show d: "distinct (map fst (foldr insert_named names []))"
    by (metis mset_eq_imp_distinct_iff)
  show "map_of (foldr insert_named names []) = map_of names"
    using d assms mset_eq_setD [OF m] by (simp add: map_of_inject_set)
qed

lemma hoare_keeps_post:
  "keeps view m \<Longrightarrow> (\<And>w x w'. m w = Some (Inr x, w') \<Longrightarrow> Q x) \<Longrightarrow>
   hoare (\<lambda>w. view w = v) m (\<lambda>x w. view w = v \<and> Q x) (\<lambda>_ w. view w = v)"
  unfolding hoare_def keeps_def by (auto split: sum.splits)

text \<open>
  The services: reading changes no price, the names are a dictionary, and a commit stores all
  the rows of the session or none.
\<close>

locale price_host =
  fixes env :: "'w pricing_env"
  assumes fetch: "keeps (pv_prices env) (pv_fetch env)"
    and ledger: "keeps (pv_prices env) (pv_ledger_models env)"
    and names: "keeps (pv_prices env) (pv_display_names env ms)"
    and names_distinct: "pv_display_names env ms w = Some (Inr ns, w') \<Longrightarrow> distinct (map fst ns)"
    and commit: "pv_commit env ps w = Some (r, w') \<Longrightarrow>
      pv_prices env w' = (case r of Inl _ \<Rightarrow> pv_prices env w | Inr _ \<Rightarrow> ps)"
begin

definition synced :: "price_row list \<Rightarrow> sync_result \<Rightarrow> 'w \<Rightarrow> bool" where
  "synced before result w \<longleftrightarrow> (\<exists>page published. parse_pricing (pv_div env) page = Inr published \<and>
     (\<forall>m. case map_of (sr_updated result) m of
        None \<Rightarrow> price_for (pv_prices env w) m = price_for before m
      | Some name \<Rightarrow> \<exists>p. map_of published name = Some p \<and>
          price_for (pv_prices env w) m = Some (priced_as p SOURCE_ANTHROPIC
            (case price_for before m of None \<Rightarrow> new_price m | Some r \<Rightarrow> r))))"

lemma commit_synced:
  assumes "distinct (map fst names)" and "parse_pricing (pv_div env) page = Inr published"
    and "fold (price_model published) (foldr insert_named names [])
      (before, \<lparr>sr_updated = [], sr_unpriced = []\<rparr>) = (prices', result)"
  shows "hoare (\<lambda>w. pv_prices env w = before) (bindA (pv_commit env prices') (\<lambda>_. returnA result))
    (synced before) (\<lambda>_ w. pv_prices env w = before)"
proof (rule hoare_bind [where R = "\<lambda>_ w. pv_prices env w = prices'"])
  show "hoare (\<lambda>w. pv_prices env w = before) (pv_commit env prices') (\<lambda>_ w. pv_prices env w = prices')
      (\<lambda>_ w. pv_prices env w = before)"
    using commit by (fastforce simp: hoare_def split: sum.splits)
next
  have "synced before result w" if "pv_prices env w = prices'" for w
    unfolding synced_def
  proof (intro exI conjI allI)
    show "parse_pricing (pv_div env) page = Inr published" by fact
    fix m
    show "case map_of (sr_updated result) m of
        None \<Rightarrow> price_for (pv_prices env w) m = price_for before m
      | Some name \<Rightarrow> \<exists>p. map_of published name = Some p \<and>
          price_for (pv_prices env w) m = Some (priced_as p SOURCE_ANTHROPIC
            (case price_for before m of None \<Rightarrow> new_price m | Some r \<Rightarrow> r))"
      using price_models [OF sorted_names(1) [OF assms(1)] assms(3)] sorted_names(2) [OF assms(1)] that
      by (auto simp: dhas_def split: option.splits)
  qed
  then show "hoare (\<lambda>w. pv_prices env w = prices') (returnA result) (synced before)
      (\<lambda>_ w. pv_prices env w = before)" for x :: unit
    by (rule hoare_return)
qed

lemma sync_outcome:
  "hoare (\<lambda>w. pv_prices env w = before) (sync_prices env markdown) (synced before)
     (\<lambda>_ w. pv_prices env w = before)"
  unfolding sync_prices_def
proof (rule hoare_bind [OF hoare_keeps], goal_cases)
  case 1
  show ?case by (auto intro: fetch keeps_intros split: option.splits)
next
  case (2 page)
  show ?case
  proof (rule hoare_bind [where R = "\<lambda>published w. pv_prices env w = before \<and>
      parse_pricing (pv_div env) page = Inr published"], goal_cases)
    case 1
    show ?case by (rule hoare_liftR) (cases "parse_pricing (pv_div env) page"; simp)
  next
    case (2 published)
    show ?case
    proof (cases "parse_pricing (pv_div env) page = Inr published")
      case True
      have names: "hoare (\<lambda>w. pv_prices env w = before) (pv_display_names env models)
          (\<lambda>ns w. pv_prices env w = before \<and> distinct (map fst ns)) (\<lambda>_ w. pv_prices env w = before)" for models
        by (rule hoare_keeps_post [OF names]) (rule names_distinct)
      have final: "hoare (\<lambda>w. pv_prices env w = before \<and> distinct (map fst ns))
          (bindA (readA (pv_prices env)) (\<lambda>prices.
             let (prices', result) = fold (price_model published) (foldr insert_named ns [])
                   (prices, \<lparr>sr_updated = [], sr_unpriced = []\<rparr>)
             in bindA (pv_commit env prices') (\<lambda>_. returnA result)))
          (synced before) (\<lambda>_ w. pv_prices env w = before)" for ns
      proof (rule hoare_bind [where R = "\<lambda>prices w. pv_prices env w = before \<and> prices = before
          \<and> distinct (map fst ns)"], goal_cases)
        case 1
        show ?case by (rule hoare_read) simp
      next
        case (2 prices)
        obtain prices' result where "fold (price_model published) (foldr insert_named ns [])
            (before, \<lparr>sr_updated = [], sr_unpriced = []\<rparr>) = (prices', result)" by fastforce
        with commit_synced [OF _ True this] show ?case
          by (auto simp: hoare_def)
      qed
      show ?thesis
        by (rule hoare_weaken [where P = "\<lambda>w. pv_prices env w = before",
              OF hoare_bind [OF hoare_keeps [OF ledger] hoare_bind [OF names final]]]) auto
    qed (simp add: hoare_def)
  qed
qed

end

definition sample_pricing_env :: "price_row list pricing_env" where
  "sample_pricing_env = \<lparr>pv_div = (/), pv_fetch = returnA sample_page,
     pv_ledger_models = returnA [''claude-opus-5''],
     pv_display_names = (\<lambda>_. returnA [(''claude-zed'', ''Zed''), (''claude-opus-5'', ''Opus'')]),
     pv_prices = id, pv_commit = (\<lambda>ps. writeA (\<lambda>_. ps))\<rparr>"

interpretation sample_pricing: price_host sample_pricing_env
  by unfold_locales (auto simp: sample_pricing_env_def keeps_def returnA_def writeA_def)



end
