(* ===== verification/Conversation.thy ===== *)
theory Conversation
  imports Emitter ToolApproval SqlText
begin

text \<open>
  Persistent conversations: the tables (luna_core/models/conversation.py) and the functions of
  luna_core/services/conversation.py on them, each one transaction.  Row ids and times are
  arguments.  \<open>cd_fold\<close> is what the database makes of a character when it ignores case, and
  \<open>cd_like\<close> its pattern operator.
\<close>

record conversation =
  cv_id :: string
  cv_user :: "string option"
  cv_title :: "string option"
  cv_updated :: int

record conv_message =
  cm_id :: string
  cm_conversation :: string
  cm_sequence :: int
  cm_role :: string
  cm_content :: "pyval list"
  cm_partial :: bool
  cm_agent :: "string option"

record conv_tables =
  ct_conversations :: "conversation list"
  ct_messages :: "conv_message list"
  ct_approvals :: approval_table

record conv_db =
  cd_like :: "string \<Rightarrow> string \<Rightarrow> bool"
  cd_fold :: "char \<Rightarrow> char"

datatype conv_error = ConversationNotFound string

section \<open>Operations\<close>

definition create_conversation ::
  "string \<Rightarrow> int \<Rightarrow> string option \<Rightarrow> string option \<Rightarrow> conv_tables \<Rightarrow> conversation \<times> conv_tables" where
  "create_conversation new_id now user title t =
     (let c = \<lparr>cv_id = new_id, cv_user = user, cv_title = title, cv_updated = now\<rparr>
      in (c, t\<lparr>ct_conversations := ct_conversations t @ [c]\<rparr>))"

definition title_pattern :: "string \<Rightarrow> string" where
  "title_pattern q =
     ''%'' @ str_replace ''_'' [backslash, CHR ''_''] (str_replace ''%'' [backslash, CHR ''%'']
       (str_replace [backslash] [backslash, backslash] (str_strip q))) @ ''%''"

definition ilike :: "conv_db \<Rightarrow> string \<Rightarrow> string option \<Rightarrow> bool" where
  "ilike db pattern value =
     (case value of None \<Rightarrow> False
      | Some s \<Rightarrow> cd_like db (map (cd_fold db) pattern) (map (cd_fold db) s))"

text \<open>Rows touched at the same time come in an order of the database's choice.\<close>

definition list_conversations ::
  "conv_db \<Rightarrow> conv_tables \<Rightarrow> string \<Rightarrow> nat option \<Rightarrow> nat \<Rightarrow> string option \<Rightarrow> conversation list" where
  "list_conversations db t user limit offset q =
     (let mine = sort_key (\<lambda>c. - cv_updated c) (filter (\<lambda>c. cv_user c = Some user) (ct_conversations t));
          found = (case q of
              None \<Rightarrow> mine
            | Some s \<Rightarrow> if str_strip s = [] then mine
                else filter (\<lambda>c. ilike db (title_pattern s) (cv_title c)) mine)
      in case limit of None \<Rightarrow> found | Some n \<Rightarrow> take n (drop offset found))"

definition get_conversation ::
  "conv_tables \<Rightarrow> string \<Rightarrow> string option \<Rightarrow> conv_error + conversation" where
  "get_conversation t i user =
     (case List.find (\<lambda>c. cv_id c = i) (ct_conversations t) of
        None \<Rightarrow> Inl (ConversationNotFound i)
      | Some c \<Rightarrow> if user \<noteq> None \<and> cv_user c \<noteq> user then Inl (ConversationNotFound i) else Inr c)"

text \<open>A title that does not change is no update, and leaves the time of the last one.\<close>

definition update_conversation_title ::
  "int \<Rightarrow> string \<Rightarrow> string option \<Rightarrow> string option \<Rightarrow> conv_tables
   \<Rightarrow> (conv_error + conversation) \<times> conv_tables" where
  "update_conversation_title now i title user t =
     (case get_conversation t i user of
        Inl e \<Rightarrow> (Inl e, t)
      | Inr c \<Rightarrow>
          let set = (\<lambda>c. if cv_title c = title then c
                else c\<lparr>cv_title := title, cv_updated := now\<rparr>)
          in (Inr (set c), t\<lparr>ct_conversations :=
                map (\<lambda>c. if cv_id c = i then set c else c) (ct_conversations t)\<rparr>))"

text \<open>The rows that belong to a conversation go with it.\<close>

definition delete_conversation ::
  "string \<Rightarrow> string option \<Rightarrow> conv_tables \<Rightarrow> (conv_error + unit) \<times> conv_tables" where
  "delete_conversation i user t =
     (case get_conversation t i user of
        Inl e \<Rightarrow> (Inl e, t)
      | Inr _ \<Rightarrow> (Inr (), \<lparr>ct_conversations = filter (\<lambda>c. cv_id c \<noteq> i) (ct_conversations t),
          ct_messages = filter (\<lambda>m. cm_conversation m \<noteq> i) (ct_messages t),
          ct_approvals = filter (\<lambda>a. ta_conversation a \<noteq> i) (ct_approvals t)\<rparr>))"

definition in_order :: "string \<Rightarrow> conv_message list \<Rightarrow> conv_message list" where
  "in_order conversation ms = sort_key cm_sequence (filter (\<lambda>m. cm_conversation m = conversation) ms)"

definition list_messages ::
  "conv_tables \<Rightarrow> string \<Rightarrow> string option \<Rightarrow> bool \<Rightarrow> conv_error + conv_message list" where
  "list_messages t i user include_partial =
     bindR (get_conversation t i user) (\<lambda>_.
       Inr (filter (\<lambda>m. include_partial \<or> \<not> cm_partial m) (in_order i (ct_messages t))))"

definition finalize_partial_messages :: "string \<Rightarrow> conv_message list \<Rightarrow> nat \<times> conv_message list" where
  "finalize_partial_messages i ms =
     (let P = (\<lambda>m. cm_conversation m = i \<and> cm_partial m)
      in (length (filter P ms), map (\<lambda>m. if P m then m\<lparr>cm_partial := False\<rparr> else m) ms))"

section \<open>What the tables keep\<close>

definition message_key :: "conv_message \<Rightarrow> string \<times> int" where
  "message_key m = (cm_conversation m, cm_sequence m)"

text \<open>Primary keys, the unique sequence of a conversation, and the foreign keys.\<close>

definition conv_ok :: "conv_tables \<Rightarrow> bool" where
  "conv_ok t \<longleftrightarrow> distinct (map cv_id (ct_conversations t)) \<and>
     distinct (map message_key (ct_messages t)) \<and>
     cm_conversation ` set (ct_messages t) \<subseteq> cv_id ` set (ct_conversations t) \<and>
     ta_conversation ` set (ct_approvals t) \<subseteq> cv_id ` set (ct_conversations t)"

lemma get_conversation_Inr:
  "get_conversation t i user = Inr c \<Longrightarrow>
   c \<in> set (ct_conversations t) \<and> cv_id c = i \<and> (user = None \<or> cv_user c = user)"
  by (auto simp: get_conversation_def find_Some_iff split: option.splits if_splits)

lemma get_conversation_Inl:
  "get_conversation t i user = Inl e \<longleftrightarrow> e = ConversationNotFound i \<and>
   (\<forall>c. List.find (\<lambda>c. cv_id c = i) (ct_conversations t) = Some c \<longrightarrow> user \<noteq> None \<and> cv_user c \<noteq> user)"
  by (auto simp: get_conversation_def split: option.splits)

section \<open>One user's conversations\<close>

text \<open>What a user does not own: conversations, their messages and their approvals.\<close>

definition foreign :: "string \<Rightarrow> conv_tables \<Rightarrow> conversation list \<times> conv_message list \<times> approval_table" where
  "foreign u t =
     (let others = filter (\<lambda>c. cv_user c \<noteq> Some u) (ct_conversations t); ids = cv_id ` set others
      in (others, filter (\<lambda>m. cm_conversation m \<in> ids) (ct_messages t),
          filter (\<lambda>a. ta_conversation a \<in> ids) (ct_approvals t)))"

lemma filter_skip: "(\<And>x. x \<in> set xs \<Longrightarrow> P x \<Longrightarrow> Q x) \<Longrightarrow> filter P (filter Q xs) = filter P xs"
  by (induction xs) auto

lemma own_conversation_id:
  assumes "distinct (map cv_id (ct_conversations t))" and "get_conversation t i (Some u) = Inr c"
    and "d \<in> set (ct_conversations t)" and "cv_id d = i"
  shows "cv_user d = Some u"
  using assms get_conversation_Inr [OF assms(2)] by (auto dest: map_of_eq_Some_iff inj_on_eq_iff simp: distinct_map)

lemma update_title_foreign:
  assumes "conv_ok t"
  shows "foreign u (snd (update_conversation_title now i title (Some u) t)) = foreign u t"
proof (cases "get_conversation t i (Some u)")
  case (Inl e)
  then show ?thesis by (simp add: update_conversation_title_def)
next
  case (Inr c)
  let ?f = "\<lambda>c. if cv_id c = i then
    if cv_title c = title then c else c\<lparr>cv_title := title, cv_updated := now\<rparr> else c"
  have own: "\<forall>d \<in> set (ct_conversations t). cv_id d = i \<longrightarrow> cv_user d = Some u"
    using own_conversation_id [OF _ Inr] assms by (auto simp: conv_ok_def)
  have "filter (\<lambda>c. cv_user c \<noteq> Some u) (map ?f cs) = filter (\<lambda>c. cv_user c \<noteq> Some u) cs"
    if "\<forall>d \<in> set cs. cv_id d = i \<longrightarrow> cv_user d = Some u" for cs
    using that by (induction cs) auto
  with own have "filter (\<lambda>c. cv_user c \<noteq> Some u) (map ?f (ct_conversations t))
      = filter (\<lambda>c. cv_user c \<noteq> Some u) (ct_conversations t)" by blast
  then show ?thesis by (simp add: update_conversation_title_def Inr foreign_def Let_def)
qed

lemma delete_foreign:
  assumes "conv_ok t"
  shows "foreign u (snd (delete_conversation i (Some u) t)) = foreign u t"
proof (cases "get_conversation t i (Some u)")
  case (Inl e)
  then show ?thesis by (simp add: delete_conversation_def)
next
  case (Inr c)
  have own: "\<forall>d \<in> set (ct_conversations t). cv_id d = i \<longrightarrow> cv_user d = Some u"
    using own_conversation_id [OF _ Inr] assms by (auto simp: conv_ok_def)
  then have others: "filter (\<lambda>c. cv_user c \<noteq> Some u) (filter (\<lambda>c. cv_id c \<noteq> i) (ct_conversations t))
      = filter (\<lambda>c. cv_user c \<noteq> Some u) (ct_conversations t)"
    by (intro filter_skip) auto
  let ?ids = "cv_id ` set (filter (\<lambda>c. cv_user c \<noteq> Some u) (ct_conversations t))"
  have "i \<notin> ?ids" using own by auto
  then have "filter (\<lambda>m. cm_conversation m \<in> ?ids) (filter (\<lambda>m. cm_conversation m \<noteq> i) (ct_messages t))
      = filter (\<lambda>m. cm_conversation m \<in> ?ids) (ct_messages t)"
    and "filter (\<lambda>a. ta_conversation a \<in> ?ids) (filter (\<lambda>a. ta_conversation a \<noteq> i) (ct_approvals t))
      = filter (\<lambda>a. ta_conversation a \<in> ?ids) (ct_approvals t)"
    by (metis (mono_tags, lifting) filter_skip)+
  then show ?thesis
    by (simp only: delete_conversation_def Inr sum.case snd_conv foreign_def Let_def
        conv_tables.select_convs others)
qed

text \<open>
  C32 (safety). A user reads and changes no conversation of another: with an owner, every function
  gives the conversations of that owner only or reports that there is none, and leaves the
  conversations of others, their messages and their approvals as they are.
\<close>

theorem conversations_isolated:
  assumes "conv_ok t"
  shows "(case get_conversation t i (Some u) of Inl e \<Rightarrow> e = ConversationNotFound i
      | Inr c \<Rightarrow> cv_id c = i \<and> cv_user c = Some u) \<and>
    list_all (\<lambda>c. cv_user c = Some u) (list_conversations db t u limit offset q) \<and>
    (case list_messages t i (Some u) partial of Inl e \<Rightarrow> e = ConversationNotFound i
      | Inr ms \<Rightarrow> (\<exists>c \<in> set (ct_conversations t). cv_id c = i \<and> cv_user c = Some u) \<and>
          list_all (\<lambda>m. cm_conversation m = i) ms) \<and>
    foreign u (snd (update_conversation_title now i title (Some u) t)) = foreign u t \<and>
    foreign u (snd (delete_conversation i (Some u) t)) = foreign u t"
proof (intro conjI)
  show "case get_conversation t i (Some u) of Inl e \<Rightarrow> e = ConversationNotFound i
      | Inr c \<Rightarrow> cv_id c = i \<and> cv_user c = Some u"
    using get_conversation_Inr [of t i "Some u"] get_conversation_Inl [of t i "Some u"]
    by (auto split: sum.splits)
  show "list_all (\<lambda>c. cv_user c = Some u) (list_conversations db t u limit offset q)"
    by (auto simp: list_conversations_def Let_def list_all_iff dest!: in_set_takeD in_set_dropD
        split: option.splits if_splits)
  show "case list_messages t i (Some u) partial of Inl e \<Rightarrow> e = ConversationNotFound i
      | Inr ms \<Rightarrow> (\<exists>c \<in> set (ct_conversations t). cv_id c = i \<and> cv_user c = Some u) \<and>
          list_all (\<lambda>m. cm_conversation m = i) ms"
    using get_conversation_Inr [of t i "Some u"] get_conversation_Inl [of t i "Some u"]
    by (cases "get_conversation t i (Some u)")
       (auto simp: list_messages_def bindR_def in_order_def list_all_iff)
qed (rule update_title_foreign [OF assms], rule delete_foreign [OF assms])

definition sample_conversations :: conv_tables where
  "sample_conversations =
     \<lparr>ct_conversations =
        [\<lparr>cv_id = ''c1'', cv_user = Some ''u1'', cv_title = Some ''Trip'', cv_updated = 1\<rparr>,
         \<lparr>cv_id = ''c2'', cv_user = Some ''u2'', cv_title = None, cv_updated = 2\<rparr>],
      ct_messages = [\<lparr>cm_id = ''m1'', cm_conversation = ''c2'', cm_sequence = 1, cm_role = ''user'',
        cm_content = [], cm_partial = False, cm_agent = None\<rparr>],
      ct_approvals = []\<rparr>"

theorem conversations_isolated_witness:
  "fst (delete_conversation ''c2'' (Some ''u1'') sample_conversations)
     = Inl (ConversationNotFound ''c2'') \<and>
   foreign ''u1'' (snd (delete_conversation ''c2'' (Some ''u1'') sample_conversations))
     = foreign ''u1'' sample_conversations"
proof -
  have "conv_ok sample_conversations" by (simp add: conv_ok_def sample_conversations_def message_key_def)
  from conversations_isolated [OF this, of "''c2''" "''u1''"] show ?thesis
    by (simp add: delete_conversation_def get_conversation_def sample_conversations_def)
qed

section \<open>The constraints of the tables\<close>

lemma conv_ok_maps:
  "conv_ok t \<longleftrightarrow> distinct (map cv_id (ct_conversations t)) \<and>
     distinct (map message_key (ct_messages t)) \<and>
     set (map cm_conversation (ct_messages t)) \<subseteq> set (map cv_id (ct_conversations t)) \<and>
     set (map ta_conversation (ct_approvals t)) \<subseteq> set (map cv_id (ct_conversations t))"
  by (simp add: conv_ok_def)

lemma update_title_ok:
  assumes "conv_ok t"
  shows "conv_ok (snd (update_conversation_title now i title user t))"
proof (cases "get_conversation t i user")
  case (Inr c)
  have "map cv_id (map (\<lambda>c. if cv_id c = i then
      if cv_title c = title then c else c\<lparr>cv_title := title, cv_updated := now\<rparr> else c) cs) = map cv_id cs"
    for cs :: "conversation list"
    by (induction cs) auto
  note ids = this
  show ?thesis
    using assms unfolding conv_ok_maps
    by (simp add: update_conversation_title_def Inr Let_def ids del: map_map set_map list.set_map)
qed (simp add: update_conversation_title_def assms)

lemma filter_foreign_keys:
  assumes "f ` set xs \<subseteq> cv_id ` set cs"
  shows "f ` set (filter (\<lambda>x. f x \<noteq> i) xs) \<subseteq> cv_id ` set (filter (\<lambda>c. cv_id c \<noteq> i) cs)"
proof
  fix k
  assume "k \<in> f ` set (filter (\<lambda>x. f x \<noteq> i) xs)"
  then have "k \<in> f ` set xs" and "k \<noteq> i" by auto
  with assms obtain c where "c \<in> set cs" and "k = cv_id c" by blast
  with \<open>k \<noteq> i\<close> show "k \<in> cv_id ` set (filter (\<lambda>c. cv_id c \<noteq> i) cs)" by auto
qed

lemma delete_ok:
  assumes "conv_ok t"
  shows "conv_ok (snd (delete_conversation i user t))"
proof (cases "get_conversation t i user")
  case (Inr c)
  have "cm_conversation ` set (ct_messages t) \<subseteq> cv_id ` set (ct_conversations t)"
    and "ta_conversation ` set (ct_approvals t) \<subseteq> cv_id ` set (ct_conversations t)"
    using assms by (simp_all add: conv_ok_def)
  then show ?thesis
    using assms unfolding conv_ok_def delete_conversation_def Inr sum.case snd_conv conv_tables.simps
    by (intro conjI filter_foreign_keys distinct_map_filter) auto
qed (simp add: delete_conversation_def assms)

lemma finalize_ok:
  assumes "conv_ok t"
  shows "conv_ok (t\<lparr>ct_messages := snd (finalize_partial_messages i (ct_messages t))\<rparr>)"
proof -
  let ?f = "\<lambda>m. if cm_conversation m = i \<and> cm_partial m then m\<lparr>cm_partial := False\<rparr> else m"
  have "map message_key (map ?f ms) = map message_key ms" and
    "map cm_conversation (map ?f ms) = map cm_conversation ms" for ms
    by (induction ms) (auto simp: message_key_def)
  then show ?thesis
    using assms unfolding conv_ok_maps
    by (simp add: finalize_partial_messages_def Let_def del: map_map set_map list.set_map)
qed

text \<open>
  The tables stay well formed: whatever a function does, ids and the sequences of a
  conversation stay unique, and no message or approval is left without its conversation.
\<close>

theorem conversation_tables_ok:
  assumes "conv_ok t" and "new_id \<notin> cv_id ` set (ct_conversations t)"
  shows "conv_ok (snd (create_conversation new_id now u title t)) \<and>
    conv_ok (snd (update_conversation_title now i title user t)) \<and>
    conv_ok (snd (delete_conversation i user t)) \<and>
    conv_ok (t\<lparr>ct_messages := snd (finalize_partial_messages i (ct_messages t))\<rparr>)"
  using assms update_title_ok delete_ok finalize_ok
  by (auto simp: conv_ok_def create_conversation_def Let_def)

theorem conversation_tables_ok_witness:
  "conv_ok (snd (delete_conversation ''c2'' (Some ''u2'') sample_conversations)) \<and>
   ct_messages (snd (delete_conversation ''c2'' (Some ''u2'') sample_conversations)) = []"
proof -
  have "conv_ok sample_conversations" by (simp add: conv_ok_def sample_conversations_def message_key_def)
  moreover have "''c3'' \<notin> cv_id ` set (ct_conversations sample_conversations)"
    by (simp add: sample_conversations_def)
  ultimately have "conv_ok (snd (delete_conversation ''c2'' (Some ''u2'') sample_conversations))"
    using conversation_tables_ok by blast
  then show ?thesis
    by (simp add: delete_conversation_def get_conversation_def sample_conversations_def)
qed

end
