(* ===== verification/ConversationIO.thy ===== *)
theory ConversationIO
  imports Conversation AgentLoop Usage
begin

text \<open>
  Turns of a conversation (luna_core/engine/chat.py), the compaction of its history
  (luna_core/llm/context.py), and the two calls of \<open>AgentRunner\<close> a compaction makes
  (luna_core/engine/agent.py).  The same loop as in flows runs over the rows of a conversation.

  The tables are a part of the world, \<open>ch_rows\<close> and \<open>ch_put\<close>; Redis, the pub/sub channel and
  what other requests do meanwhile are those of \<open>emitter_env\<close>.  The summary and the count of a
  prompt are the provider's: \<open>ch_summary\<close> and \<open>ch_count\<close>.
\<close>

section \<open>The environment of a turn\<close>

text \<open>What \<open>AgentRunner.compact\<close> and \<open>count_prompt\<close> hand to the router.\<close>

record summary_call =
  sc_agent :: agent
  sc_messages :: "pydict list"
  sc_system :: string
  sc_tools :: "llm_tool list"
  sc_scope :: string
  sc_timezone :: pyval
  sc_instructions :: "string option"

record context_policy =
  cp_clear_tool_results_at :: "int option"
  cp_keep_tool_results :: int
  cp_clear_at_least :: int
  cp_compact_at :: "int option"
  cp_compact_min_gain :: int
  cp_instructions :: "string option"

record ('w, 'h) chat_env =
  ch_em :: "'w emitter_env"
  ch_agent :: "('w, 'h) agent_env"
  ch_numbers :: number_texts
  ch_rows :: "'w \<Rightarrow> conv_message list"
  ch_put :: "conv_message list \<Rightarrow> 'w \<Rightarrow> 'w"
  ch_usage :: "'w \<Rightarrow> ledger_row list"
  ch_model :: "agent \<Rightarrow> pyval"
  ch_summary :: "summary_call \<Rightarrow> ('w, pydict option) act"
  ch_count :: "context_policy \<Rightarrow> summary_call \<Rightarrow> ('w, int option) act"

section \<open>Events\<close>

definition redis_event_sequence :: "'w emitter_env \<Rightarrow> string \<Rightarrow> ('w, int) act" where
  "redis_event_sequence em scope =
     readA (\<lambda>w. mark_value (r_get (em_redis em) (max_seq_key scope) w) + 1)"

definition ephemeral_emit ::
  "'w emitter_env \<Rightarrow> string \<Rightarrow> string \<Rightarrow> string option \<Rightarrow> pydict \<Rightarrow> ('w, int) act" where
  "ephemeral_emit em scope event_type node_id payload =
     bindA (redis_event_sequence em scope) (\<lambda>sequence.
     bindA (await_others em) (\<lambda>_.
     bindA (publish_run_event em scope None event_type node_id payload sequence None) (\<lambda>_.
       returnA sequence)))"

definition named_payload :: "string option \<Rightarrow> string \<Rightarrow> pydict \<Rightarrow> pydict" where
  "named_payload agent_name event_type payload =
     (case agent_name of
        Some n \<Rightarrow>
          if event_type = ''agent_message_started'' \<and> n \<noteq> [] \<and> \<not> dhas payload ''agent_name''
          then dset payload ''agent_name'' (PStr n) else payload
      | None \<Rightarrow> payload)"

definition conversation_emit ::
  "'w emitter_env \<Rightarrow> string \<Rightarrow> string option \<Rightarrow> string \<Rightarrow> string option \<Rightarrow> pydict
   \<Rightarrow> ('w, int) act" where
  "conversation_emit em conversation agent_name event_type node_id payload =
     ephemeral_emit em conversation event_type node_id (named_payload agent_name event_type payload)"

section \<open>Messages\<close>

definition rows_of :: "string \<Rightarrow> conv_message list \<Rightarrow> conv_message list" where
  "rows_of conversation ms = filter (\<lambda>m. cm_conversation m = conversation) ms"

definition next_conversation_sequence :: "('w, 'h) chat_env \<Rightarrow> string \<Rightarrow> ('w, int) act" where
  "next_conversation_sequence env conversation =
     readA (\<lambda>w. max_sequence cm_sequence (rows_of conversation (ch_rows env w)) + 1)"

definition build_conv_message ::
  "('w, 'h) chat_env \<Rightarrow> string \<Rightarrow> string option \<Rightarrow> string \<Rightarrow> pyval list \<Rightarrow> bool \<Rightarrow> string option
   \<Rightarrow> ('w, conv_message) act" where
  "build_conv_message env conversation agent_name role content is_partial message_id =
     bindA (next_conversation_sequence env conversation) (\<lambda>sequence.
     bindA (case message_id of None \<Rightarrow> em_new_id (ch_em env) | Some i \<Rightarrow> returnA i) (\<lambda>i.
       returnA \<lparr>cm_id = i, cm_conversation = conversation, cm_sequence = sequence, cm_role = role,
         cm_content = content, cm_partial = is_partial,
         cm_agent = (case agent_name of
            Some n \<Rightarrow> if role = ''assistant'' \<and> n \<noteq> [] then Some n else None
          | None \<Rightarrow> None)\<rparr>))"

definition commit_conv_message :: "('w, 'h) chat_env \<Rightarrow> conv_message \<Rightarrow> ('w, bool) act" where
  "commit_conv_message env m = stepA (\<lambda>w.
     if message_key m \<in> message_key ` set (ch_rows env w) then (Inr False, w)
     else (Inr True, ch_put env (ch_rows env w @ [m]) w))"

definition conversation_save ::
  "('w, 'h) chat_env \<Rightarrow> string \<Rightarrow> string option \<Rightarrow> string \<Rightarrow> pyval list \<Rightarrow> bool \<Rightarrow> string option
   \<Rightarrow> ('w, conv_message) act" where
  "conversation_save env conversation agent_name role content is_partial message_id =
     insert_retrying (ch_em env) EMIT_MAX_RETRIES
       (build_conv_message env conversation agent_name role content is_partial message_id)
       (commit_conv_message env)"

text \<open>\<open>(block.get("native") or {}).get("type")\<close>: a native block that is no dictionary has no \<open>get\<close>.\<close>

definition thinking_block :: "pyval \<Rightarrow> exn + bool" where
  "thinking_block block =
     (case block of
        PDict d \<Rightarrow>
          if dget d ''type'' = PStr ''thinking'' then Inr True
          else (case py_or (dget d ''native'') (PDict []) of
              PDict n \<Rightarrow> Inr (dget n ''type'' \<in> {PStr ''thinking'', PStr ''redacted_thinking''})
            | _ \<Rightarrow> Inl (OtherError ''AttributeError'' ''object has no attribute 'get' ''))
      | _ \<Rightarrow> Inr False)"

fun leading_thinking :: "pyval list \<Rightarrow> exn + nat" where
  "leading_thinking [] = Inr 0"
| "leading_thinking (b # bs) =
     bindR (thinking_block b) (\<lambda>t.
       if t then bindR (leading_thinking bs) (\<lambda>n. Inr (Suc n)) else Inr 0)"

definition with_text :: "string \<Rightarrow> pyval list \<Rightarrow> exn + pyval list" where
  "with_text words blocks =
     bindR (leading_thinking blocks) (\<lambda>pos.
       Inr (take pos blocks @ PDict [(''type'', PStr ''text''), (''text'', PStr words)]
            # drop pos blocks))"

definition last_assistant :: "string \<Rightarrow> conv_message list \<Rightarrow> conv_message option" where
  "last_assistant conversation ms =
     (case filter (\<lambda>m. cm_role m = ''assistant'') (in_order conversation ms) of
        [] \<Rightarrow> None | rows \<Rightarrow> Some (last rows))"

definition add_text_to_last_assistant ::
  "('w, 'h) chat_env \<Rightarrow> string \<Rightarrow> string \<Rightarrow> ('w, string option) act" where
  "add_text_to_last_assistant env conversation words =
     bindA (readA (\<lambda>w. last_assistant conversation (ch_rows env w))) (\<lambda>row.
       case row of
         None \<Rightarrow> returnA None
       | Some m \<Rightarrow>
           bindA (liftR (with_text words (cm_content m))) (\<lambda>blocks.
           bindA (writeA (\<lambda>w. ch_put env
                   (map (\<lambda>r. if message_key r = message_key m then r\<lparr>cm_content := blocks\<rparr> else r)
                      (ch_rows env w)) w)) (\<lambda>_.
             returnA (Some (cm_id m)))))"

section \<open>Compaction blocks\<close>

definition COMPACTION_BLOCK :: string where "COMPACTION_BLOCK = ''compaction''"

definition compaction_block :: "pydict \<Rightarrow> pydict option" where
  "compaction_block m =
     (case py_or (dget m ''content'') (PList []) of
        PList blocks \<Rightarrow>
          (case List.find (\<lambda>b. block_type b = PStr COMPACTION_BLOCK) blocks of
             Some (PDict d) \<Rightarrow> Some d
           | _ \<Rightarrow> None)
      | _ \<Rightarrow> None)"

definition public_compaction :: "pydict \<Rightarrow> pydict" where
  "public_compaction block =
     [(''type'', PStr COMPACTION_BLOCK),
      (''compacted_through_sequence'', dget block ''compacted_through_sequence''),
      (''at'', dget block ''at'')]"

definition canonical :: "conv_message \<Rightarrow> pydict" where
  "canonical row = [(''role'', PStr (cm_role row)), (''content'', PList (cm_content row))]"

abbreviation compaction_of :: "conv_message \<Rightarrow> pydict option" where
  "compaction_of row \<equiv> compaction_block (canonical row)"

definition is_marker :: "conv_message \<Rightarrow> bool" where
  "is_marker row \<longleftrightarrow> compaction_of row \<noteq> None"

section \<open>The history that is sent\<close>

definition through_of :: "number_texts \<Rightarrow> pydict \<Rightarrow> exn + int" where
  "through_of nt block = py_int nt (py_or (dget block ''compacted_through_sequence'') (PInt 0))"

definition history_of :: "number_texts \<Rightarrow> conv_message list \<Rightarrow> exn + conv_message list" where
  "history_of nt stored =
     (let rows = filter (\<lambda>m. \<not> cm_partial m) stored
      in case List.find is_marker (rev rows) of
           None \<Rightarrow> Inr rows
         | Some marker \<Rightarrow>
             bindR (through_of nt (the (compaction_of marker))) (\<lambda>through.
               Inr (marker # filter (\<lambda>m. cm_sequence m > through \<and> m \<noteq> marker \<and> \<not> is_marker m)
                      rows)))"

definition history_rows :: "('w, 'h) chat_env \<Rightarrow> string \<Rightarrow> ('w, conv_message list) act" where
  "history_rows env conversation =
     bindA (readA (\<lambda>w. in_order conversation (ch_rows env w))) (\<lambda>stored.
       liftR (history_of (ch_numbers env) stored))"

definition load_conversation :: "('w, 'h) chat_env \<Rightarrow> string \<Rightarrow> ('w, pydict list) act" where
  "load_conversation env conversation =
     bindA (history_rows env conversation) (\<lambda>rows. returnA (map canonical rows))"

section \<open>Labels of attachments\<close>

definition MEDIA_KINDS :: "string list" where "MEDIA_KINDS = [''image'', ''video'']"

type_synonym media = "(string \<times> int) list"

text \<open>What an earlier compaction counted replaces the counts, kind by kind.\<close>

fun earlier_counts :: "number_texts \<Rightarrow> pydict \<Rightarrow> media \<Rightarrow> exn + media" where
  "earlier_counts nt [] counts = Inr counts"
| "earlier_counts nt ((kind, n) # ns) counts =
     (if dhas counts kind then
        bindR (py_int nt n) (\<lambda>i. earlier_counts nt ns (dset counts kind i))
      else earlier_counts nt ns counts)"

definition marker_counts :: "number_texts \<Rightarrow> pydict \<Rightarrow> media \<Rightarrow> exn + media" where
  "marker_counts nt block counts =
     (case py_or (dget block ''media'') (PDict []) of
        PDict ns \<Rightarrow> earlier_counts nt ns counts
      | _ \<Rightarrow> Inl (OtherError ''AttributeError'' ''object has no attribute 'items' ''))"

text \<open>A type that is a list or a dictionary is not hashable.\<close>

definition count_block :: "pyval \<Rightarrow> media \<Rightarrow> exn + media" where
  "count_block block counts =
     (case block of
        PDict d \<Rightarrow>
          (case dget d ''type'' of
             PStr kind \<Rightarrow>
               Inr (case map_of counts kind of
                      None \<Rightarrow> counts | Some n \<Rightarrow> dset counts kind (n + 1))
           | PList _ \<Rightarrow> Inl (OtherError ''TypeError'' ''unhashable type: 'list' '')
           | PDict _ \<Rightarrow> Inl (OtherError ''TypeError'' ''unhashable type: 'dict' '')
           | _ \<Rightarrow> Inr counts)
      | _ \<Rightarrow> Inr counts)"

fun count_blocks :: "pyval list \<Rightarrow> media \<Rightarrow> exn + media" where
  "count_blocks [] counts = Inr counts"
| "count_blocks (b # bs) counts = bindR (count_block b counts) (count_blocks bs)"

definition count_row :: "number_texts \<Rightarrow> conv_message \<Rightarrow> media \<Rightarrow> exn + media" where
  "count_row nt row counts =
     (case compaction_of row of
        Some block \<Rightarrow> marker_counts nt block counts
      | None \<Rightarrow> if cm_role row \<noteq> ''user'' then Inr counts else count_blocks (cm_content row) counts)"

fun count_rows :: "number_texts \<Rightarrow> conv_message list \<Rightarrow> media \<Rightarrow> exn + media" where
  "count_rows nt [] counts = Inr counts"
| "count_rows nt (row # rows) counts = bindR (count_row nt row counts) (count_rows nt rows)"

definition media_counts :: "number_texts \<Rightarrow> conv_message list \<Rightarrow> exn + media" where
  "media_counts nt rows = count_rows nt rows (map (\<lambda>kind. (kind, 0)) MEDIA_KINDS)"

section \<open>Compacting before a turn\<close>

definition agent_call ::
  "('w, 'h) chat_env \<Rightarrow> agent \<Rightarrow> pydict list \<Rightarrow> string \<Rightarrow> string option \<Rightarrow> pyval
   \<Rightarrow> string option \<Rightarrow> ('w, summary_call) act" where
  "agent_call env ag messages scope system_prompt timezone instructions =
     bindA (resolve_tools (ch_agent env) (ag_id ag) []) (\<lambda>(tools, _).
       returnA \<lparr>sc_agent = ag, sc_messages = messages,
         sc_system = (case system_prompt of Some p \<Rightarrow> p
            | None \<Rightarrow> build_system_prompt (ae_rt (ch_agent env)) ag None None),
         sc_tools = tools, sc_scope = scope, sc_timezone = timezone,
         sc_instructions = instructions\<rparr>)"

definition compact ::
  "('w, 'h) chat_env \<Rightarrow> agent \<Rightarrow> pydict list \<Rightarrow> string \<Rightarrow> string option \<Rightarrow> pyval
   \<Rightarrow> string option \<Rightarrow> ('w, pydict option) act" where
  "compact env ag history scope system_prompt timezone instructions =
     bindA (agent_call env ag history scope system_prompt timezone instructions) (ch_summary env)"

definition count_prompt ::
  "('w, 'h) chat_env \<Rightarrow> agent \<Rightarrow> pydict list \<Rightarrow> string option \<Rightarrow> pyval \<Rightarrow> context_policy
   \<Rightarrow> ('w, int option) act" where
  "count_prompt env ag history system_prompt timezone policy =
     bindA (agent_call env ag history [] system_prompt timezone None) (ch_count env policy)"

text \<open>The most recent row of the ledger among the calls of these messages.\<close>

definition latest_call :: "string \<Rightarrow> string list \<Rightarrow> ledger_row list \<Rightarrow> ledger_row option" where
  "latest_call scope ids ledger =
     (case sort_key (\<lambda>r. - ur_created_at r)
         (filter (\<lambda>r. ur_scope r = scope \<and> ur_message r \<in> Some ` set ids) ledger) of
        [] \<Rightarrow> None | r # _ \<Rightarrow> Some r)"

definition last_call_tokens :: "ledger_row list \<Rightarrow> string \<Rightarrow> conv_message list \<Rightarrow> int" where
  "last_call_tokens ledger conversation rows =
     (let since = (case rows of [] \<Rightarrow> 0 | row # _ \<Rightarrow> if is_marker row then cm_sequence row else 0);
          ids = map cm_id (filter (\<lambda>r. cm_role r = ''assistant'' \<and> cm_sequence r > since) rows)
      in if ids = [] then 0
         else case latest_call conversation ids ledger of None \<Rightarrow> 0 | Some r \<Rightarrow> ur_total r)"

text \<open>The last reply stays after the marker, word for word.\<close>

definition kept_rows :: "conv_message list \<Rightarrow> conv_message list" where
  "kept_rows rows = (if cm_role (last rows) = ''assistant'' then [last rows] else [])"

definition summarized_rows :: "conv_message list \<Rightarrow> conv_message list" where
  "summarized_rows rows = (if cm_role (last rows) = ''assistant'' then butlast rows else rows)"

definition not_worth :: "context_policy \<Rightarrow> int \<Rightarrow> int option \<Rightarrow> int option \<Rightarrow> bool" where
  "not_worth policy compact_at whole compacted \<longleftrightarrow>
     (case whole of
        None \<Rightarrow> False
      | Some n \<Rightarrow> n < compact_at \<or>
          (case compacted of None \<Rightarrow> False | Some k \<Rightarrow> n - k < cp_compact_min_gain policy))"

definition marker_block ::
  "pydict \<Rightarrow> pyval \<Rightarrow> media \<Rightarrow> int \<Rightarrow> string \<Rightarrow> pydict" where
  "marker_block native model media through now =
     [(''type'', PStr COMPACTION_BLOCK), (''native'', PDict native), (''model'', model),
      (''media'', PDict (map (\<lambda>(kind, n). (kind, PInt n)) media)),
      (''compacted_through_sequence'', PInt through), (''at'', PStr now)]"

definition emit_unit ::
  "('w, 'h) chat_env \<Rightarrow> string \<Rightarrow> agent \<Rightarrow> string \<Rightarrow> string \<Rightarrow> pydict \<Rightarrow> ('w, unit) act" where
  "emit_unit env conversation ag event_type node_id payload =
     bindA (conversation_emit (ch_em env) conversation (Some (ag_name ag)) event_type (Some node_id)
              payload) (\<lambda>_. returnA ())"

definition write_marker ::
  "('w, 'h) chat_env \<Rightarrow> agent \<Rightarrow> string \<Rightarrow> conv_message list \<Rightarrow> pydict
   \<Rightarrow> ('w, conv_message list) act" where
  "write_marker env ag conversation rows native =
     bindA (liftR (media_counts (ch_numbers env) (summarized_rows rows))) (\<lambda>media.
     bindA (em_now (ch_em env)) (\<lambda>now.
     let block = marker_block native (ch_model env ag) media
           (cm_sequence (last (summarized_rows rows))) now
     in bindA (conversation_save env conversation (Some (ag_name ag)) ''system'' [PDict block] False
                 None) (\<lambda>marker.
        bindA (emit_unit env conversation ag ''compaction_completed'' ''chat''
                 (dupdate [(''compacted'', PBool True), (''message_id'', PStr (cm_id marker)),
                   (''sequence'', PInt (cm_sequence marker))] (public_compaction block))) (\<lambda>_.
          returnA (marker # kept_rows rows)))))"

definition compact_rows ::
  "('w, 'h) chat_env \<Rightarrow> agent \<Rightarrow> string \<Rightarrow> conv_message list \<Rightarrow> string option \<Rightarrow> pyval
   \<Rightarrow> string option \<Rightarrow> ('w, conv_message list) act" where
  "compact_rows env ag conversation rows system_prompt timezone instructions =
     bindA (emit_unit env conversation ag ''compaction_started'' ''chat'' []) (\<lambda>_.
     bindA (compact env ag (map canonical (summarized_rows rows)) conversation system_prompt
              timezone instructions) (\<lambda>summary.
       case summary of
         None \<Rightarrow>
           bindA (emit_unit env conversation ag ''compaction_completed'' ''chat''
                    [(''compacted'', PBool False)]) (\<lambda>_. returnA rows)
       | Some native \<Rightarrow> write_marker env ag conversation rows native))"

text \<open>The two prompts are counted at the same time, which is one after the other here.\<close>

definition compact_if_due ::
  "('w, 'h) chat_env \<Rightarrow> agent \<Rightarrow> string \<Rightarrow> conv_message list \<Rightarrow> string option \<Rightarrow> pyval
   \<Rightarrow> context_policy option \<Rightarrow> ('w, conv_message list) act" where
  "compact_if_due env ag conversation rows system_prompt timezone policy =
     (case policy of
        None \<Rightarrow> returnA rows
      | Some p \<Rightarrow>
         (case cp_compact_at p of
            None \<Rightarrow> returnA rows
          | Some limit \<Rightarrow>
              if limit = 0 \<or> length rows < 3 then returnA rows
              else bindA (readA (\<lambda>w. last_call_tokens (ch_usage env w) conversation rows)) (\<lambda>spent.
                if spent < limit then returnA rows
                else
                  bindA (count_prompt env ag (map canonical rows) system_prompt timezone p)
                    (\<lambda>whole.
                  bindA (count_prompt env ag (map canonical (kept_rows rows)) system_prompt
                           timezone p) (\<lambda>compacted.
                    if not_worth p limit whole compacted then returnA rows
                    else compact_rows env ag conversation rows system_prompt timezone
                           (cp_instructions p))))))"

section \<open>Turns\<close>

text \<open>The loop of \<open>AgentRunner\<close> with \<open>ConversationIO\<close> as its emitter.\<close>

definition chat_io ::
  "('w, 'h) chat_env \<Rightarrow> string \<Rightarrow> agent \<Rightarrow> ('w, 'h) agent_env" where
  "chat_io env conversation ag = (ch_agent env)
     \<lparr>ae_emit := (\<lambda>event_type node_id payload. emit_unit env conversation ag event_type node_id payload),
      ae_save := (\<lambda>node_id role content.
        bindA (conversation_save env conversation (Some (ag_name ag)) role (map PDict content) False
                 None) (\<lambda>_. returnA ())),
      ae_add_words := Some (\<lambda>words.
        bindA (add_text_to_last_assistant env conversation words) (\<lambda>_. returnA ()))\<rparr>"

definition chat_request ::
  "agent \<Rightarrow> string \<Rightarrow> string option \<Rightarrow> pydict option \<Rightarrow> run_request" where
  "chat_request ag conversation system_prompt extra =
     \<lparr>rq_agent = ag, rq_scope = conversation, rq_node_id = ''chat'',
      rq_system_prompt = system_prompt, rq_context_tools = [], rq_extra_context = extra\<rparr>"

definition send ::
  "('w, 'h) chat_env \<Rightarrow> agent \<Rightarrow> string \<Rightarrow> string option \<Rightarrow> string option \<Rightarrow> pydict option
   \<Rightarrow> pydict list \<Rightarrow> context_policy option \<Rightarrow> ('w, run_result) act" where
  "send env ag conversation new_message system_prompt extra attachments policy =
     bindA (history_rows env conversation) (\<lambda>rows.
     bindA (if new_message \<noteq> None \<or> attachments \<noteq> [] then
              compact_if_due env ag conversation rows system_prompt
                (dget (case extra of None \<Rightarrow> [] | Some d \<Rightarrow> d) ''timezone'') policy
            else returnA rows) (\<lambda>rows'.
       run_agent (chat_io env conversation ag) (chat_request ag conversation system_prompt extra)
         True (map canonical rows') new_message attachments))"

definition resume ::
  "('w, 'h) chat_env \<Rightarrow> agent \<Rightarrow> string \<Rightarrow> string option \<Rightarrow> pydict option \<Rightarrow> ('w, run_result) act" where
  "resume env ag conversation system_prompt extra =
     bindA (load_conversation env conversation)
       (resume_agent (chat_io env conversation ag)
          (chat_request ag conversation system_prompt extra))"

section \<open>Sub-agents\<close>

definition ephemeral_io :: "('w, 'h) chat_env \<Rightarrow> string \<Rightarrow> ('w, 'h) agent_env" where
  "ephemeral_io env scope = (ch_agent env)
     \<lparr>ae_emit := (\<lambda>event_type node_id payload.
        bindA (ephemeral_emit (ch_em env) scope event_type (Some node_id) payload)
          (\<lambda>_. returnA ())),
      ae_save := (\<lambda>_ _ _. returnA ()), ae_add_words := None\<rparr>"

definition run_sub_agent ::
  "('w, 'h) chat_env \<Rightarrow> agent \<Rightarrow> string \<Rightarrow> string option \<Rightarrow> pydict list
   \<Rightarrow> ('w, run_result \<times> string) act" where
  "run_sub_agent env ag prompt system_prompt attachments =
     bindA (em_new_id (ch_em env)) (\<lambda>scope.
     bindA (run_agent (ephemeral_io env scope)
              \<lparr>rq_agent = ag, rq_scope = scope, rq_node_id = ''subagent'',
               rq_system_prompt = system_prompt, rq_context_tools = [], rq_extra_context = None\<rparr>
              False [] (Some prompt) attachments) (\<lambda>output.
       returnA (output, scope)))"

end
