(* ===== verification/AgentRouting.thy ===== *)
theory AgentRouting
  imports AgentLoop Usage
begin

text \<open>
  Routing between agents (luna_core/services/agent_routing.py): the cards of a host, the transfer
  tool, the classifier of a first message and the preamble of a handoff.

  \<open>json.loads\<close> and \<open>uuid.UUID\<close> are parameters: the error of a text, or its value.
\<close>

record agent_card =
  ac_name :: string
  ac_display_name :: string
  ac_purpose :: string
  ac_targets :: "string list option"

record route_decision =
  rd_agent :: string
  rd_reason :: string

definition TRANSFER_TOOL_NAME :: string where "TRANSFER_TOOL_NAME = ''transfer_to_agent''"
definition ROUTING_NODE :: string where "ROUTING_NODE = ''routing''"

definition line_end :: string where "line_end = [CHR 0x0A]"

definition build_directory :: "agent_card list \<Rightarrow> string option \<Rightarrow> string" where
  "build_directory cards exclude =
     join_with line_end (map (\<lambda>c. ''- '' @ ac_name c @ '' '' @ em_dash @ '' '' @ ac_display_name c @ '': ''
         @ ac_purpose c)
       (filter (\<lambda>c. Some (ac_name c) \<noteq> exclude) cards))"

definition handoff_preamble :: "agent \<Rightarrow> string" where
  "handoff_preamble ag =
     (let who = (if ag_role ag = [] then ag_name ag else ag_name ag @ '' ('' @ ag_role ag @ '')'')
      in ''[HANDOFF] This conversation was just transferred to you '' @ em_dash @ '' you are ''
         @ ''now '' @ who @ '', and the next assistant message is yours. The transfer ''
         @ ''tool call you see at the end of the history was made by the PREVIOUS ''
         @ ''agent, not by you: do not repeat it, do not announce any transfer, ''
         @ ''and do not greet as if the chat were starting. Read the user's ''
         @ ''pending request above and continue it directly in your own voice '' @ em_dash @ '' ''
         @ ''if it is clear, act on it now; if it is not, ask the questions you need.'')"

section \<open>The transfer tool\<close>

text \<open>A later card of a name replaces the earlier one.\<close>

definition card_named :: "agent_card list \<Rightarrow> string \<Rightarrow> agent_card option" where
  "card_named cards name = map_of (dupdate [] (map (\<lambda>c. (ac_name c, c)) cards)) name"

fun insert_text :: "string \<Rightarrow> string list \<Rightarrow> string list" where
  "insert_text s [] = [s]"
| "insert_text s (t # ts) = (if str_less t s then t # insert_text s ts else s # t # ts)"

definition sorted_texts :: "string list \<Rightarrow> string list" where
  "sorted_texts ts = foldr insert_text ts []"

definition card_names :: "agent_card list \<Rightarrow> string list" where
  "card_names cards = sorted_texts (remdups (map ac_name cards))"

definition texts_repr :: "pyrt \<Rightarrow> string list \<Rightarrow> string" where
  "texts_repr rt ts = py_repr rt (PList (map PStr ts))"

record 'w routing_env =
  ro_rt :: pyrt
  ro_json :: "string \<Rightarrow> string + pyval"
  ro_uuid :: "string \<Rightarrow> string option"
  ro_usage :: "'w usage_env"

definition soft_error :: "string \<Rightarrow> pyval" where
  "soft_error m = PDict [(''error'', PStr m)]"

definition falsy_text :: "pyrt \<Rightarrow> pyval \<Rightarrow> string" where
  "falsy_text rt v = py_str rt (py_or v (PStr []))"

definition forbidden :: "agent_card option \<Rightarrow> string \<Rightarrow> string list option" where
  "forbidden caller_card target =
     (case caller_card of
        None \<Rightarrow> None
      | Some c \<Rightarrow> (case ac_targets c of
            None \<Rightarrow> None
          | Some targets \<Rightarrow> if target \<in> set targets then None else Some targets))"

definition handoff_note :: "agent_card \<Rightarrow> string \<Rightarrow> string" where
  "handoff_note dest target =
     ''Handoff complete: the conversation now belongs to '' @ ac_display_name dest @ '' (''
     @ target @ ''). The next assistant message IS '' @ ac_display_name dest
     @ '' speaking '' @ em_dash @ '' it must address the user's pending request directly, ''
     @ ''never announce a transfer, and never greet as if the chat were new.''"

definition transfer_scope :: "'w routing_env \<Rightarrow> pydict \<Rightarrow> exn + string" where
  "transfer_scope env call_context =
     (case (if dhas call_context ''scope_id''
            then ro_uuid env (py_str (ro_rt env) (dget call_context ''scope_id'')) else None) of
        None \<Rightarrow> Inl (OtherError ''RuntimeError'' ''transfer tool missing scope_id in call_context'')
      | Some i \<Rightarrow> Inr i)"

definition transfer ::
  "'w routing_env \<Rightarrow> agent_card list \<Rightarrow> (string \<Rightarrow> string \<Rightarrow> ('w, unit) act) \<Rightarrow> pydict \<Rightarrow> pydict
   \<Rightarrow> ('w, pyval) act" where
  "transfer env cards set_active args call_context =
     (let rt = ro_rt env; target = falsy_text rt (dget args ''agent'')
      in case card_named cards target of
           None \<Rightarrow> returnA (soft_error (''unknown agent '' @ str_repr target @ ''; valid agents: ''
             @ texts_repr rt (card_names cards)))
         | Some dest \<Rightarrow>
             let caller = falsy_text rt (dget call_context ''agent_name'')
             in if caller = target then
                  returnA (soft_error (''you are already '' @ target
                    @ ''; answer the user directly instead of transferring.''))
                else (case forbidden (card_named cards caller) target of
                    Some targets \<Rightarrow> returnA (soft_error (caller @ '' may only transfer to: ''
                      @ texts_repr rt (sorted_texts targets)))
                  | None \<Rightarrow>
                      bindA (liftR (transfer_scope env call_context)) (\<lambda>conversation.
                      bindA (set_active conversation target) (\<lambda>_.
                        returnA (PDict [(''transferred_to'', PStr target),
                          (''handoff_note'', PStr (handoff_note dest target))])))))"

definition transfer_schema :: "agent_card list \<Rightarrow> pydict" where
  "transfer_schema cards =
     [(''type'', PStr ''object''),
      (''properties'', PDict
        [(''agent'', PDict [(''type'', PStr ''string''),
            (''enum'', PList (map PStr (card_names cards))),
            (''description'', PStr ''Canonical name of the agent to hand the conversation to.'')]),
         (''reason'', PDict [(''type'', PStr ''string''),
            (''description'', PStr ''Brief reason for the handoff (what the user needs).'')])]),
      (''required'', PList [PStr ''agent'']), (''additionalProperties'', PBool False)]"

definition make_transfer_tool :: "agent_card list \<Rightarrow> 'h \<Rightarrow> string \<Rightarrow> 'h system_tool" where
  "make_transfer_tool cards handler tool_name =
     \<lparr>st_name = tool_name,
      st_description =
        ''Transfer this conversation to another agent, who takes over and ''
        @ ''answers the user directly on the same history. Call it INSTEAD of ''
        @ ''answering, with no accompanying text '' @ em_dash @ '' your turn ends immediately ''
        @ ''and the chosen agent writes the next message. Use it when the ''
        @ ''user's request is another agent's job, or when they explicitly ask ''
        @ ''for that agent.'' @ line_end @ line_end @ ''Agents:'' @ line_end
        @ build_directory cards None,
      st_input_schema = transfer_schema cards, st_handler = handler, st_scope = Catalog,
      st_terminal = True\<rparr>"

section \<open>The classifier\<close>

text \<open>The first fenced block, and the text from the first opening brace to the last closing one.\<close>

definition FENCE :: string where "FENCE = [CHR 0x60, CHR 0x60, CHR 0x60]"

definition strip_prefix :: "string \<Rightarrow> string \<Rightarrow> string" where
  "strip_prefix p s = (if startswith s p then drop (length p) s else s)"

definition fenced :: "string \<Rightarrow> string option" where
  "fenced s =
     (case find_sub FENCE s of
        None \<Rightarrow> None
      | Some i \<Rightarrow>
          let body = dropWhile is_space (strip_prefix ''json'' (drop (i + length FENCE) s))
          in map_option (\<lambda>j. str_strip (take j body)) (find_sub FENCE body))"

definition embedded :: "string \<Rightarrow> string option" where
  "embedded s =
     (let from = dropWhile (\<lambda>c. c \<noteq> CHR 0x7B) s;
          upto_last = rev (dropWhile (\<lambda>c. c \<noteq> CHR 0x7D) (rev from))
      in if upto_last = [] then None else Some upto_last)"

definition json_candidates :: "string \<Rightarrow> string list" where
  "json_candidates s =
     (case fenced s of None \<Rightarrow> [] | Some t \<Rightarrow> [t]) @ [s]
     @ (case embedded s of None \<Rightarrow> [] | Some t \<Rightarrow> [t])"

fun first_object :: "(string \<Rightarrow> string + pyval) \<Rightarrow> string list \<Rightarrow> pydict option" where
  "first_object parse [] = None"
| "first_object parse (s # ss) =
     (case parse s of Inr (PDict d) \<Rightarrow> Some d | _ \<Rightarrow> first_object parse ss)"

definition parse_json_object :: "(string \<Rightarrow> string + pyval) \<Rightarrow> string \<Rightarrow> pydict option" where
  "parse_json_object parse s = first_object parse (json_candidates s)"

record route_call =
  rt_model :: string
  rt_messages :: "pydict list"
  rt_system :: string
  rt_schema :: pydict
  rt_node :: string
  rt_scope :: string

definition classifier_system :: "agent_card list \<Rightarrow> string option \<Rightarrow> string" where
  "classifier_system cards guidelines =
     ''You are a routing classifier for a multi-agent assistant. Read the ''
     @ ''user's message and decide which ONE agent should answer it.'' @ line_end @ line_end
     @ ''Agents:'' @ line_end @ build_directory cards None @ line_end @ line_end
     @ (case guidelines of None \<Rightarrow> []
        | Some g \<Rightarrow> if g = [] then [] else ''Policy:'' @ line_end @ g @ line_end @ line_end)
     @ ''Respond with JSON only: {\"agent\": \"<name>\", \"reason\": \"<short reason>\"}. ''
     @ ''The agent MUST be one of the names above.''"

definition route_schema :: "agent_card list \<Rightarrow> pydict" where
  "route_schema cards =
     [(''type'', PStr ''object''),
      (''properties'', PDict
        [(''agent'', PDict [(''type'', PStr ''string''),
            (''enum'', PList (map PStr (card_names cards)))]),
         (''reason'', PDict [(''type'', PStr ''string'')])]),
      (''required'', PList [PStr ''agent'', PStr ''reason'']),
      (''additionalProperties'', PBool False)]"

text \<open>Joining something that is no text is a \<open>TypeError\<close>.\<close>

definition block_text :: "pydict \<Rightarrow> exn + string" where
  "block_text b = (case dget_or b ''text'' (PStr []) of
     PStr s \<Rightarrow> Inr s
   | _ \<Rightarrow> Inl (OtherError ''TypeError'' ''sequence item 0: expected str instance''))"

definition reply_text :: "pydict list \<Rightarrow> exn + string" where
  "reply_text blocks =
     bindR (mapR block_text (filter (\<lambda>b. dget b ''type'' = PStr ''text'') blocks))
       (\<lambda>ts. Inr (str_strip (concat ts)))"

text \<open>\<open>agent not in valid\<close> on a list or a dictionary is a \<open>TypeError\<close>: they have no hash.\<close>

definition route_of ::
  "pyrt \<Rightarrow> agent_card list \<Rightarrow> string \<Rightarrow> pydict option \<Rightarrow> exn + route_decision" where
  "route_of rt cards dflt parsed =
     (let fallback = Inr \<lparr>rd_agent = dflt, rd_reason = []\<rparr>
      in case parsed of
           None \<Rightarrow> fallback
         | Some d \<Rightarrow>
             (case dget d ''agent'' of
                PStr a \<Rightarrow>
                  if a \<in> set (map ac_name cards)
                  then Inr \<lparr>rd_agent = a, rd_reason = falsy_text rt (dget d ''reason'')\<rparr>
                  else fallback
              | PList _ \<Rightarrow> Inl (OtherError ''TypeError'' ''unhashable type: 'list' '')
              | PDict _ \<Rightarrow> Inl (OtherError ''TypeError'' ''unhashable type: 'dict' '')
              | _ \<Rightarrow> fallback))"

definition classify_route ::
  "'w routing_env \<Rightarrow> (route_call \<Rightarrow> ('w, pydict list) act) \<Rightarrow> string \<Rightarrow> agent_card list \<Rightarrow> string
   \<Rightarrow> string \<Rightarrow> string \<Rightarrow> string option \<Rightarrow> ('w, route_decision) act" where
  "classify_route env ask model cards msg dflt scope guidelines =
     (if dflt \<notin> set (map ac_name cards) then
        raiseA (OtherError ''ValueError'' (''default '' @ str_repr dflt
          @ '' is not one of the cards''))
      else
        bindA (usage_context (ro_usage env) None (Some ''routing'') None None
          (ask \<lparr>rt_model = model,
             rt_messages = [message ''user'' [[(''type'', PStr ''text''), (''text'', PStr msg)]]],
             rt_system = classifier_system cards guidelines, rt_schema = route_schema cards,
             rt_node = ROUTING_NODE, rt_scope = scope\<rparr>)) (\<lambda>blocks.
        bindA (liftR (reply_text blocks)) (\<lambda>reply.
          liftR (route_of (ro_rt env) cards dflt (parse_json_object (ro_json env) reply)))))"

section \<open>A handoff goes where the cards allow\<close>

lemma card_named_Some:
  assumes "card_named cards n = Some c"
  shows "c \<in> set cards \<and> ac_name c = n"
proof -
  have "map_of (dupdate d (map (\<lambda>c. (ac_name c, c)) cs)) n = Some c \<Longrightarrow>
      map_of d n = Some c \<or> c \<in> set cs \<and> ac_name c = n" for d cs
  proof (induction cs arbitrary: d)
    case (Cons a cs)
    from Cons.IH [of "dset d (ac_name a) a"] Cons.prems show ?case by (auto split: if_splits)
  qed simp
  from this [of "[]" cards] assms show ?thesis by (simp add: card_named_def)
qed

text \<open>What the calling agent's card allows; an agent without a card may go anywhere.\<close>

definition may_transfer :: "agent_card list \<Rightarrow> string \<Rightarrow> string \<Rightarrow> bool" where
  "may_transfer cards caller target \<longleftrightarrow> target \<in> ac_name ` set cards \<and> caller \<noteq> target \<and>
     (case card_named cards caller of None \<Rightarrow> True
      | Some c \<Rightarrow> (case ac_targets c of None \<Rightarrow> True | Some ts \<Rightarrow> target \<in> set ts))"

text \<open>
  C20 (safety). The transfer tool changes the agent of a conversation only to another agent that
  has a card and that the caller's card allows, in the conversation the engine names, whatever
  the arguments of the model say. Otherwise it touches nothing: the model reads an error and its
  turn goes on, or, without a conversation, the call fails.
\<close>

theorem transfer_checked:
  fixes env :: "'w routing_env" and set_active :: "string \<Rightarrow> string \<Rightarrow> ('w, unit) act"
  shows "let target = falsy_text (ro_rt env) (dget args ''agent'');
      caller = falsy_text (ro_rt env) (dget ctx ''agent_name'');
      result = transfer env cards set_active args ctx w
    in (\<exists>conversation note. may_transfer cards caller target \<and>
          transfer_scope env ctx = Inr conversation \<and>
          result = bindA (set_active conversation target) (\<lambda>_. returnA (PDict
            [(''transferred_to'', PStr target), (''handoff_note'', PStr note)])) w) \<or>
       (\<exists>m. \<not> (may_transfer cards caller target) \<and> result = Some (Inr (soft_error m), w)) \<or>
       (\<exists>e. transfer_scope env ctx = Inl e \<and> result = Some (Inl e, w))"
proof -
  let ?t = "falsy_text (ro_rt env) (dget args ''agent'')"
    and ?c = "falsy_text (ro_rt env) (dget ctx ''agent_name'')"
  consider (unknown) "card_named cards ?t = None"
    | (known) d where "card_named cards ?t = Some d" by (cases "card_named cards ?t") auto
  then show ?thesis
  proof cases
    case unknown
    have "map_of (dupdate e (map (\<lambda>c. (ac_name c, c)) cs)) n = None \<longleftrightarrow>
        map_of e n = None \<and> n \<notin> ac_name ` set cs" for e n and cs :: "agent_card list"
      by (induction cs arbitrary: e) auto
    then have "\<not> may_transfer cards ?c ?t"
      using unknown by (simp add: card_named_def may_transfer_def)
    then show ?thesis using unknown by (auto simp: transfer_def Let_def returnA_def)
  next
    case (known d)
    have "?t \<in> ac_name ` set cards" using card_named_Some [OF known] by (auto intro: rev_image_eqI)
    then have may: "may_transfer cards ?c ?t \<longleftrightarrow>
        ?c \<noteq> ?t \<and> forbidden (card_named cards ?c) ?t = None"
      by (auto simp: may_transfer_def forbidden_def split: option.splits)
    show ?thesis
      using known may
      by (cases "transfer_scope env ctx")
         (auto simp: transfer_def Let_def returnA_def bindA_def liftR_def split: option.splits)
  qed
qed

section \<open>A reply is understood\<close>

lemma dropWhile_to: "c \<notin> set pre \<Longrightarrow> dropWhile (\<lambda>x. x \<noteq> c) (pre @ c # s) = c # s"
  by (induction pre) auto

lemma embedded_found:
  assumes "CHR 0x7B \<notin> set pre" and "CHR 0x7D \<notin> set post"
  shows "embedded (pre @ CHR 0x7B # body @ CHR 0x7D # post) = Some (CHR 0x7B # body @ [CHR 0x7D])"
proof -
  have "dropWhile (\<lambda>c. c \<noteq> CHR 0x7D) (rev post @ CHR 0x7D # rev body @ [CHR 0x7B])
      = CHR 0x7D # rev body @ [CHR 0x7B]"
    by (rule dropWhile_to) (simp add: assms(2))
  then show ?thesis by (simp add: embedded_def dropWhile_to [OF assms(1)])
qed

text \<open>
  The answer of the classifier is understood when it is wrapped in prose: the
  object between the first opening and the last closing brace is read, and the conversation goes
  to the agent it names, or to the default when that is not one of the cards.
\<close>

theorem wrapped_route_understood:
  assumes "CHR 0x7B \<notin> set pre" and "CHR 0x7D \<notin> set post"
    and "reply = pre @ CHR 0x7B # body @ CHR 0x7D # post" and "find_sub FENCE reply = None"
    and "parse (CHR 0x7B # body @ [CHR 0x7D]) = Inr (PDict d)" and "dget d ''agent'' = PStr a"
    and "pre @ post = [] \<or> (\<exists>m. parse reply = Inl m)"
  shows "\<exists>reason. route_of rt cards dflt (parse_json_object parse reply) =
    Inr \<lparr>rd_agent = (if a \<in> set (map ac_name cards) then a else dflt), rd_reason = reason\<rparr>"
proof -
  have e: "embedded reply = Some (CHR 0x7B # body @ [CHR 0x7D])"
    unfolding assms(3) by (rule embedded_found [OF assms(1,2)])
  have "json_candidates reply = [reply, CHR 0x7B # body @ [CHR 0x7D]]"
    by (simp add: json_candidates_def fenced_def assms(4) e)
  moreover have "reply = CHR 0x7B # body @ [CHR 0x7D]" if "pre @ post = []"
    using that assms(3) by simp
  ultimately have "parse_json_object parse reply = Some d"
    using assms(5,7) unfolding parse_json_object_def by auto
  then show ?thesis using assms(6) by (auto simp: route_of_def Let_def)
qed

lemma route_of_card:
  assumes "route_of rt cards dflt parsed = Inr d" and "dflt \<in> set (map ac_name cards)"
  shows "rd_agent d \<in> set (map ac_name cards)"
proof (cases parsed)
  case (Some p)
  with assms show ?thesis
    by (cases "dget p ''agent''") (auto simp: route_of_def Let_def split: if_splits)
qed (use assms in \<open>auto simp: route_of_def\<close>)

text \<open>
  A first message is only routed to an agent that has a card, whatever the model
  answers.
\<close>

theorem route_is_a_card:
  assumes "classify_route env ask model cards msg dflt scope guidelines w = Some (Inr d, w')"
  shows "rd_agent d \<in> set (map ac_name cards)"
proof -
  from assms obtain parsed where "dflt \<in> set (map ac_name cards)"
    and "route_of (ro_rt env) cards dflt parsed = Inr d"
    by (auto simp: classify_route_def bindA_Some liftR_def raiseA_def split: if_splits)
  then show ?thesis using route_of_card by blast
qed

section \<open>Two agents\<close>

definition sample_cards :: "agent_card list" where
  "sample_cards =
     [\<lparr>ac_name = ''farmer'', ac_display_name = ''Farmer'', ac_purpose = ''plans'', ac_targets = None\<rparr>,
      \<lparr>ac_name = ''doctor'', ac_display_name = ''Doctor'', ac_purpose = ''plagues'',
       ac_targets = Some []\<rparr>]"

definition sample_routing_env :: "(attribution \<times> ledger_row list) routing_env" where
  "sample_routing_env =
     \<lparr>ro_rt = \<lparr>rt_getattr = \<lambda>_ _. PNone, rt_float_str = \<lambda>_. []\<rparr>,
      ro_json = (\<lambda>s. if s = ''{x}'' then Inr (PDict [(''agent'', PStr ''doctor'')]) else Inl ''bad''),
      ro_uuid = Some, ro_usage = sample_usage_env\<rparr>"

definition mark_routed :: "string \<Rightarrow> string \<Rightarrow> (attribution \<times> ledger_row list, unit) act" where
  "mark_routed conversation target = writeA (\<lambda>w. (no_attribution, []))"

theorem transfer_checked_witness:
  "may_transfer sample_cards ''farmer'' ''doctor'' \<and> \<not> may_transfer sample_cards ''doctor'' ''farmer'' \<and>
   (\<exists>m. transfer sample_routing_env sample_cards mark_routed [(''agent'', PStr ''farmer'')]
      [(''agent_name'', PStr ''doctor''), (''scope_id'', PStr ''c1'')] (no_attribution, [])
      = Some (Inr (soft_error m), (no_attribution, [])))"
proof -
  have names: "falsy_text (ro_rt sample_routing_env) (dget [(''agent'', PStr ''farmer'')] ''agent'')
      = ''farmer''"
    "falsy_text (ro_rt sample_routing_env) (dget [(''agent_name'', PStr ''doctor''),
      (''scope_id'', PStr ''c1'')] ''agent_name'') = ''doctor''"
    "transfer_scope sample_routing_env [(''agent_name'', PStr ''doctor''), (''scope_id'', PStr ''c1'')]
      = Inr ''c1''"
    by code_simp+
  have may: "may_transfer sample_cards ''farmer'' ''doctor''"
    and may_not: "\<not> may_transfer sample_cards ''doctor'' ''farmer''" by code_simp+
  show ?thesis
    using may may_not transfer_checked [of sample_routing_env "[(''agent'', PStr ''farmer'')]"
      "[(''agent_name'', PStr ''doctor''), (''scope_id'', PStr ''c1'')]" sample_cards mark_routed
      "(no_attribution, [])"]
    unfolding names Let_def by auto
qed

theorem wrapped_route_understood_witness:
  "\<exists>reason. route_of (ro_rt sample_routing_env) sample_cards ''farmer''
     (parse_json_object (ro_json sample_routing_env) ''Sure: {x}.'')
   = Inr \<lparr>rd_agent = ''doctor'', rd_reason = reason\<rparr>"
proof -
  have "\<exists>reason. route_of (ro_rt sample_routing_env) sample_cards ''farmer''
     (parse_json_object (ro_json sample_routing_env) ''Sure: {x}.'')
   = Inr \<lparr>rd_agent = (if ''doctor'' \<in> set (map ac_name sample_cards) then ''doctor'' else ''farmer''),
       rd_reason = reason\<rparr>"
  proof (rule wrapped_route_understood [where pre = "''Sure: ''" and post = "''.''" and body = "''x''"
        and d = "[(''agent'', PStr ''doctor'')]"])
    show "find_sub FENCE ''Sure: {x}.'' = None" by code_simp
  qed (simp_all add: sample_routing_env_def dget_def)
  then show ?thesis by (simp add: sample_cards_def)
qed

definition scripted_answer ::
  "string \<Rightarrow> route_call \<Rightarrow> (attribution \<times> ledger_row list, pydict list) act" where
  "scripted_answer s _ = returnA [[(''type'', PStr ''text''), (''text'', PStr s)]]"

lemma sample_classified:
  "case classify_route sample_routing_env (scripted_answer ''{x}'') ''m'' sample_cards ''leaf spots''
     ''farmer'' ''c1'' None (no_attribution, []) of
     Some (Inr d, _) \<Rightarrow> rd_agent d = ''doctor'' | _ \<Rightarrow> False"
  by code_simp

theorem route_is_a_card_witness:
  "\<exists>d w'. classify_route sample_routing_env (scripted_answer ''{x}'') ''m'' sample_cards ''leaf spots''
     ''farmer'' ''c1'' None (no_attribution, []) = Some (Inr d, w') \<and>
     rd_agent d = ''doctor'' \<and> rd_agent d \<in> set (map ac_name sample_cards)"
proof -
  obtain d w' where "classify_route sample_routing_env (scripted_answer ''{x}'') ''m'' sample_cards
      ''leaf spots'' ''farmer'' ''c1'' None (no_attribution, []) = Some (Inr d, w')"
    "rd_agent d = ''doctor''"
    using sample_classified by (auto split: option.splits prod.splits sum.splits)
  with route_is_a_card [OF this(1)] show ?thesis by blast
qed

end
