(* ===== verification/ChatTurn.thy ===== *)
theory ChatTurn
  imports ConversationIO AgentRouting TurnLock
begin

text \<open>
  The requests of a conversation (luna_core/routers/conversations.py, schemas/conversation.py):
  admission and size of a turn, the turn under its lock, the handoffs between agents, the
  decision of an approval and the turn it resumes, stopping a turn, and what a client reads.

  What a host registers on \<open>app.state\<close> is an optional field of \<open>turn_env\<close>.  An HTTP error is an
  \<open>HTTPException\<close> whose text is its status and its code.  Timing and logging are left out.
\<close>

section \<open>The host\<close>

datatype 'w agent_resolver =
    PlainResolver "conversation \<Rightarrow> ('w, agent) act"
  | RoutingResolver "conversation \<Rightarrow> string option \<Rightarrow> ('w, agent) act"

datatype 'w turn_hook =
    PlainHook "conversation \<Rightarrow> agent \<Rightarrow> ('w, string option) act"
  | QueryHook "conversation \<Rightarrow> agent \<Rightarrow> string option \<Rightarrow> ('w, string option) act"

datatype 'w image_hook =
    PlainImages "string \<Rightarrow> agent \<Rightarrow> conversation \<Rightarrow> ('w, unit) act"
  | MediaImages "string \<Rightarrow> agent \<Rightarrow> conversation \<Rightarrow> string list option \<Rightarrow> ('w, unit) act"

record ('w, 'h) turn_env =
  tu_chat :: "('w, 'h) chat_env"
  tu_rt :: pyrt
  tu_runner :: bool
  tu_resolver :: "'w agent_resolver option"
  tu_admission :: "(string \<Rightarrow> conversation \<Rightarrow> ('w, pydict option) act) option"
  tu_context :: "(conversation \<Rightarrow> agent \<Rightarrow> string option \<Rightarrow> ('w, string option) act) option"
  tu_turn_context :: "'w turn_hook option"
  tu_timezone :: "(string \<Rightarrow> ('w, string option) act) option"
  tu_images :: "'w image_hook option"
  tu_policy :: "(agent \<Rightarrow> ('w, context_policy option) act) option"
  tu_metering :: "(string \<Rightarrow> string \<Rightarrow> agent \<Rightarrow> pyval \<Rightarrow> ('w, unit) act) option"
  tu_titling :: "(string \<Rightarrow> string \<Rightarrow> agent \<Rightarrow> ('w, unit) act) option"
  tu_on_delete :: "(string \<Rightarrow> string \<Rightarrow> ('w, unit) act) option"
  tu_lock :: "('w, string) redis"
  tu_usage :: "'w usage_env"
  tu_agents :: "'w \<Rightarrow> agent list"
  tu_conversations :: "'w \<Rightarrow> conversation list"
  tu_approvals :: "'w \<Rightarrow> approval_table"
  tu_put :: "conv_tables \<Rightarrow> 'w \<Rightarrow> 'w"
  tu_max_chars :: nat
  tu_max_attachments :: nat
  tu_lock_seconds :: nat
  tu_abort_seconds :: nat

definition tables :: "('w, 'h) turn_env \<Rightarrow> 'w \<Rightarrow> conv_tables" where
  "tables env w = \<lparr>ct_conversations = tu_conversations env w, ct_messages = ch_rows (tu_chat env) w,
     ct_approvals = tu_approvals env w\<rparr>"

section \<open>Refusals\<close>

definition http_error :: "nat \<Rightarrow> string \<Rightarrow> exn" where
  "http_error status code = OtherError ''HTTPException'' (nat_str status @ '' '' @ code)"

definition not_found :: exn where "not_found = http_error 404 ''conversation not found''"
definition approval_not_found :: exn where
  "approval_not_found = http_error 404 ''tool approval not found''"
definition turn_in_progress :: exn where "turn_in_progress = http_error 409 ''turn_in_progress''"
definition approvals_pending :: exn where "approvals_pending = http_error 409 ''approvals_pending''"
definition not_configured :: exn where "not_configured = http_error 501 ''chat is not configured''"

definition check_turn_size :: "('w, 'h) turn_env \<Rightarrow> string \<Rightarrow> nat \<Rightarrow> exn + unit" where
  "check_turn_size env words attachments =
     (if length words > tu_max_chars env then Inl (http_error 422 ''message_too_long'')
      else if attachments > tu_max_attachments env
      then Inl (http_error 422 ''too_many_attachments'')
      else Inr ())"

definition get_owned :: "('w, 'h) turn_env \<Rightarrow> string \<Rightarrow> string \<Rightarrow> ('w, conversation) act" where
  "get_owned env conversation user =
     bindA (readA (\<lambda>w. get_conversation (tables env w) conversation (Some user))) (\<lambda>r.
       case r of Inl _ \<Rightarrow> raiseA not_found | Inr c \<Rightarrow> returnA c)"

definition verdict_error :: "('w, 'h) turn_env \<Rightarrow> pydict \<Rightarrow> exn" where
  "verdict_error env verdict =
     (case py_int (ch_numbers (tu_chat env)) (dget_or verdict ''status'' (PInt 429)) of
        Inl e \<Rightarrow> e
      | Inr status \<Rightarrow>
          if dhas verdict ''code''
          then http_error (nat status) (py_str (tu_rt env) (dget verdict ''code''))
          else OtherError ''KeyError'' ''code'')"

text \<open>A hook that fails admits, and so does an empty verdict.\<close>

definition admit_turn :: "('w, 'h) turn_env \<Rightarrow> string \<Rightarrow> conversation \<Rightarrow> ('w, unit) act" where
  "admit_turn env user conversation =
     (case tu_admission env of
        None \<Rightarrow> returnA ()
      | Some hook \<Rightarrow>
          bindA (tryA (hook user conversation) (\<lambda>_. returnA None)) (\<lambda>verdict.
            case verdict of
              None \<Rightarrow> returnA ()
            | Some d \<Rightarrow> if d = [] then returnA () else raiseA (verdict_error env d)))"

section \<open>The request\<close>

record send_request =
  sm_message :: string
  sm_media_ids :: "string list"
  sm_attachments :: "(string \<times> string) list"

text \<open>One block per media id, the legacy images first.\<close>

fun unseen_media :: "string list \<Rightarrow> (string \<times> string) list \<Rightarrow> (string \<times> string) list" where
  "unseen_media seen [] = []"
| "unseen_media seen ((kind, i) # refs) =
     (if i \<in> set seen then unseen_media seen refs else (kind, i) # unseen_media (i # seen) refs)"

definition media_refs :: "send_request \<Rightarrow> (string \<times> string) list" where
  "media_refs rq =
     unseen_media [] (map (\<lambda>i. (''image'', i)) (sm_media_ids rq) @ sm_attachments rq)"

definition attachment_blocks :: "send_request \<Rightarrow> pydict list" where
  "attachment_blocks rq =
     map (\<lambda>(kind, i). [(''type'', PStr kind), (''media_id'', PStr i)]) (media_refs rq)"

definition valid_request :: "send_request \<Rightarrow> bool" where
  "valid_request rq \<longleftrightarrow>
     (str_strip (sm_message rq) \<noteq> [] \<or> sm_media_ids rq \<noteq> [] \<or> sm_attachments rq \<noteq> []) \<and>
     list_all (\<lambda>(kind, _). kind \<in> {''image'', ''video'', ''audio''}) (sm_attachments rq)"

section \<open>What the host adds\<close>

definition resolve_agent ::
  "'w agent_resolver \<Rightarrow> conversation \<Rightarrow> string option \<Rightarrow> ('w, agent) act" where
  "resolve_agent resolver conversation query =
     (case resolver of PlainResolver f \<Rightarrow> f conversation | RoutingResolver f \<Rightarrow> f conversation query)"

definition resuming_agent ::
  "('w, 'h) turn_env \<Rightarrow> 'w agent_resolver \<Rightarrow> conversation \<Rightarrow> string option \<Rightarrow> ('w, agent) act" where
  "resuming_agent env resolver conversation suspended_by =
     bindA (readA (\<lambda>w. case suspended_by of
         None \<Rightarrow> None
       | Some n \<Rightarrow> if n = [] then None else List.find (\<lambda>a. ag_name a = n) (tu_agents env w)))
       (\<lambda>found. case found of
          Some ag \<Rightarrow> returnA ag
        | None \<Rightarrow> resolve_agent resolver conversation None)"

definition best_effort :: "('w, 'a option) act \<Rightarrow> ('w, 'a option) act" where
  "best_effort m = tryA m (\<lambda>_. returnA None)"

definition turn_call_context :: "('w, 'h) turn_env \<Rightarrow> string \<Rightarrow> ('w, pydict) act" where
  "turn_call_context env user =
     bindA (case tu_timezone env of None \<Rightarrow> returnA None | Some hook \<Rightarrow> best_effort (hook user))
       (\<lambda>tz. returnA ([(''user_id'', PStr user)]
          @ (case tz of None \<Rightarrow> []
             | Some z \<Rightarrow> if z = [] then [] else [(''timezone'', PStr z)])))"

definition joined_prompt :: "string option \<Rightarrow> string \<Rightarrow> string" where
  "joined_prompt base extra =
     (case base of None \<Rightarrow> extra | Some b \<Rightarrow> if b = [] then extra else b @ blank_line @ extra)"

definition augment_system_prompt ::
  "('w, 'h) turn_env \<Rightarrow> conversation \<Rightarrow> agent \<Rightarrow> string option \<Rightarrow> ('w, string option) act" where
  "augment_system_prompt env conversation ag query =
     (let base = (if ag_instructions ag = [] then None else Some (ag_instructions ag))
      in case tu_context env of
           None \<Rightarrow> returnA base
         | Some provider \<Rightarrow>
             bindA (best_effort (provider conversation ag query)) (\<lambda>extra.
               returnA (case extra of None \<Rightarrow> base
                 | Some x \<Rightarrow> if x = [] then base else Some (joined_prompt base x))))"

definition turn_context_block ::
  "('w, 'h) turn_env \<Rightarrow> conversation \<Rightarrow> agent \<Rightarrow> string option \<Rightarrow> ('w, pydict list) act" where
  "turn_context_block env conversation ag query =
     bindA (case tu_turn_context env of
         None \<Rightarrow> returnA None
       | Some (PlainHook f) \<Rightarrow> best_effort (f conversation ag)
       | Some (QueryHook f) \<Rightarrow> best_effort (f conversation ag query))
       (\<lambda>words. returnA (case words of
            None \<Rightarrow> []
          | Some t \<Rightarrow> if t = [] then []
              else [[(''type'', PStr ''context''), (''context'', PStr t)]]))"

definition image_resolver ::
  "('w, 'h) turn_env \<Rightarrow> conversation \<Rightarrow> agent \<Rightarrow> string \<Rightarrow> string list \<Rightarrow> ('w, unit) act" where
  "image_resolver env conversation ag user media_ids =
     (case tu_images env of
        None \<Rightarrow> returnA ()
      | Some (PlainImages f) \<Rightarrow> f user ag conversation
      | Some (MediaImages f) \<Rightarrow>
          f user ag conversation (if media_ids = [] then None else Some media_ids))"

definition context_policy_of :: "('w, 'h) turn_env \<Rightarrow> agent \<Rightarrow> ('w, context_policy option) act" where
  "context_policy_of env ag =
     (case tu_policy env of None \<Rightarrow> returnA None | Some hook \<Rightarrow> best_effort (hook ag))"

section \<open>Handoffs\<close>

definition MAX_HANDOFF_HOPS :: nat where "MAX_HANDOFF_HOPS = 4"

definition emit_routing_decided ::
  "('w, 'h) turn_env \<Rightarrow> string \<Rightarrow> agent \<Rightarrow> agent \<Rightarrow> ('w, unit) act" where
  "emit_routing_decided env conversation from_agent to_agent =
     tryA (bindA (conversation_emit (ch_em (tu_chat env)) conversation None ''routing_decided''
              (Some ROUTING_NODE)
              [(''agent_name'', PStr (ag_name to_agent)), (''from_agent'', PStr (ag_name from_agent)),
               (''trigger'', PStr ''handoff'')]) (\<lambda>_. returnA ()))
       (\<lambda>_. returnA ())"

definition handoff_turn ::
  "('w, 'h) turn_env \<Rightarrow> conversation \<Rightarrow> string \<Rightarrow> string option \<Rightarrow> agent \<Rightarrow> ('w, run_result) act" where
  "handoff_turn env conversation user query ag =
     bindA (augment_system_prompt env conversation ag query) (\<lambda>prompt.
     bindA (turn_call_context env user) (\<lambda>extra.
     bindA (image_resolver env conversation ag user []) (\<lambda>_.
     bindA (context_policy_of env ag) (\<lambda>policy.
       send (tu_chat env) ag (cv_id conversation) None
         (Some (joined_prompt prompt (handoff_preamble ag))) (Some extra) [] policy))))"

fun handoffs ::
  "('w, 'h) turn_env \<Rightarrow> 'w agent_resolver \<Rightarrow> conversation \<Rightarrow> string \<Rightarrow> string option \<Rightarrow> nat \<Rightarrow> agent
   \<Rightarrow> run_result \<Rightarrow> ('w, agent \<times> run_result) act" where
  "handoffs env resolver conversation user query n ag (SuspendedForApproval aps) =
     returnA (ag, SuspendedForApproval aps)"
| "handoffs env resolver conversation user query 0 ag (Output v) = returnA (ag, Output v)"
| "handoffs env resolver conversation user query (Suc n) ag (Output v) =
     bindA (resolve_agent resolver conversation query) (\<lambda>next_agent.
       if ag_id next_agent = ag_id ag then returnA (ag, Output v)
       else
         bindA (emit_routing_decided env (cv_id conversation) ag next_agent) (\<lambda>_.
         bindA (handoff_turn env conversation user query next_agent)
           (handoffs env resolver conversation user query n next_agent)))"

definition configured :: "('w, 'h) turn_env \<Rightarrow> exn + 'w agent_resolver" where
  "configured env =
     (if \<not> tu_runner env then Inl not_configured
      else case tu_resolver env of None \<Rightarrow> Inl not_configured | Some r \<Rightarrow> Inr r)"

definition follow_handoffs ::
  "('w, 'h) turn_env \<Rightarrow> conversation \<Rightarrow> string \<Rightarrow> string option \<Rightarrow> agent \<Rightarrow> run_result
   \<Rightarrow> ('w, agent \<times> run_result) act" where
  "follow_handoffs env conversation user query ag result =
     bindA (liftR (configured env)) (\<lambda>resolver.
       handoffs env resolver conversation user query MAX_HANDOFF_HOPS ag result)"

section \<open>The response\<close>

datatype turn_response = Completed pyval | Awaiting "tool_approval list" | Aborted

definition pending_approvals :: "('w, 'h) turn_env \<Rightarrow> string \<Rightarrow> 'w \<Rightarrow> tool_approval list" where
  "pending_approvals env conversation w =
     list_approvals (tu_approvals env w) conversation (Some pending_status)"

definition turn_response_of ::
  "('w, 'h) turn_env \<Rightarrow> string \<Rightarrow> string \<Rightarrow> agent \<Rightarrow> run_result \<Rightarrow> ('w, turn_response) act" where
  "turn_response_of env conversation user ag result =
     (case result of
        SuspendedForApproval _ \<Rightarrow>
          bindA (readA (pending_approvals env conversation)) (\<lambda>ps. returnA (Awaiting ps))
      | Output v \<Rightarrow>
          bindA (case tu_metering env of
              None \<Rightarrow> returnA () | Some hook \<Rightarrow> hook user conversation ag v)
            (\<lambda>_. returnA (Completed v)))"

definition spawn_titling ::
  "('w, 'h) turn_env \<Rightarrow> conversation \<Rightarrow> agent \<Rightarrow> turn_response \<Rightarrow> ('w, unit) act" where
  "spawn_titling env conversation ag response =
     (case (cv_title conversation, cv_user conversation, response, tu_titling env) of
        (None, Some owner, Completed _, Some spawn) \<Rightarrow> spawn (cv_id conversation) owner ag
      | _ \<Rightarrow> returnA ())"

section \<open>The turn lock around a request\<close>

definition take_turn :: "('w, 'h) turn_env \<Rightarrow> string \<Rightarrow> string \<Rightarrow> ('w, turn) act" where
  "take_turn env conversation user =
     bindA (em_new_id (ch_em (tu_chat env))) (\<lambda>token.
       stepA (\<lambda>w.
         let ((t, p), w1) = enter_turn (tu_lock env) conversation (Some user) token
               (tu_lock_seconds env) w;
             w2 = (if p = Listing
                   then snd (turn_next (tu_lock env) t Expiring (snd (turn_next (tu_lock env) t Listing w1)))
                   else w1)
         in (Inr t, w2)))"

definition leave_turn :: "('w, 'h) turn_env \<Rightarrow> turn \<Rightarrow> ('w, unit) act" where
  "leave_turn env t = writeA (\<lambda>w.
     let w1 = (if listed t then snd (turn_next (tu_lock env) t Unlisting w) else w);
         (p, w2) = turn_next (tu_lock env) t Checking w1
     in if p = Releasing then snd (turn_next (tu_lock env) t Releasing w2) else w2)"

definition conversation_turn ::
  "('w, 'h) turn_env \<Rightarrow> string \<Rightarrow> string \<Rightarrow> ('w, 'a) act \<Rightarrow> ('w, 'a) act" where
  "conversation_turn env conversation user body =
     bindA (take_turn env conversation user) (\<lambda>t.
       finallyA (if tn_acquired t
                 then usage_context (tu_usage env) (Some user) (Some ''chat'') None (Some conversation) body
                 else raiseA turn_in_progress)
         (leave_turn env t))"

definition clear_abort :: "('w, 'h) turn_env \<Rightarrow> string \<Rightarrow> ('w, unit) act" where
  "clear_abort env conversation =
     writeA (\<lambda>w. snd (r_delete (tu_lock env) [abort_key conversation] w))"

section \<open>Sending a message\<close>

definition refuse_pending :: "('w, 'h) turn_env \<Rightarrow> string \<Rightarrow> ('w, unit) act" where
  "refuse_pending env conversation =
     bindA (readA (\<lambda>w. count_pending (tu_approvals env w) conversation)) (\<lambda>n.
       if n > 0 then raiseA approvals_pending else returnA ())"

definition some_text :: "string \<Rightarrow> string option" where
  "some_text s = (if s = [] then None else Some s)"

definition run_turn ::
  "('w, 'h) turn_env \<Rightarrow> conversation \<Rightarrow> send_request \<Rightarrow> string \<Rightarrow> agent \<Rightarrow> ('w, agent \<times> run_result) act" where
  "run_turn env conversation rq user ag =
     bindA (augment_system_prompt env conversation ag (Some (sm_message rq))) (\<lambda>prompt.
     bindA (if sm_message rq = [] \<and> attachment_blocks rq = [] then returnA []
            else turn_context_block env conversation ag (some_text (sm_message rq))) (\<lambda>context.
     bindA (turn_call_context env user) (\<lambda>extra.
     bindA (image_resolver env conversation ag user (map snd (media_refs rq))) (\<lambda>_.
     bindA (context_policy_of env ag) (\<lambda>policy.
     bindA (send (tu_chat env) ag (cv_id conversation) (Some (sm_message rq)) prompt (Some extra)
              (attachment_blocks rq @ context) policy)
       (follow_handoffs env conversation user (Some (sm_message rq)) ag))))))"

fun is_abort :: "exn \<Rightarrow> bool" where
  "is_abort (AbortSignalError _ _) = True"
| "is_abort _ = False"

definition finalize_partials :: "('w, 'h) turn_env \<Rightarrow> string \<Rightarrow> ('w, unit) act" where
  "finalize_partials env conversation =
     writeA (\<lambda>w. ch_put (tu_chat env)
       (snd (finalize_partial_messages conversation (ch_rows (tu_chat env) w))) w)"

definition send_turn ::
  "('w, 'h) turn_env \<Rightarrow> conversation \<Rightarrow> send_request \<Rightarrow> string \<Rightarrow> ('w, turn_response) act" where
  "send_turn env conversation rq user =
     bindA (refuse_pending env (cv_id conversation)) (\<lambda>_.
     bindA (liftR (configured env)) (\<lambda>resolver.
     bindA (resolve_agent resolver conversation (Some (sm_message rq))) (\<lambda>ag.
     bindA (clear_abort env (cv_id conversation)) (\<lambda>_.
     bindA (attemptA is_abort (run_turn env conversation rq user ag)) (\<lambda>outcome.
       case outcome of
         Inl _ \<Rightarrow>
           bindA (clear_abort env (cv_id conversation)) (\<lambda>_.
           bindA (finalize_partials env (cv_id conversation)) (\<lambda>_. returnA Aborted))
       | Inr (last_agent, result) \<Rightarrow>
           bindA (turn_response_of env (cv_id conversation) user last_agent result) (\<lambda>response.
           bindA (spawn_titling env conversation last_agent response) (\<lambda>_. returnA response)))))))"

definition send_message ::
  "('w, 'h) turn_env \<Rightarrow> string \<Rightarrow> send_request \<Rightarrow> string \<Rightarrow> ('w, turn_response) act" where
  "send_message env conversation_id rq user =
     bindA (liftR (check_turn_size env (sm_message rq) (length (attachment_blocks rq)))) (\<lambda>_.
     bindA (get_owned env conversation_id user) (\<lambda>conversation.
     bindA (admit_turn env user conversation) (\<lambda>_.
       conversation_turn env conversation_id user (send_turn env conversation rq user))))"

section \<open>Deciding an approval\<close>

record approval_decision =
  dc_decision :: string
  dc_reason :: "string option"
  dc_tool_input :: "pydict option"

definition valid_decision :: "approval_decision \<Rightarrow> bool" where
  "valid_decision d \<longleftrightarrow> dc_decision d \<in> {approved_status, rejected_status} \<and>
     (dc_tool_input d = None \<or> dc_decision d = approved_status)"

definition put_approvals :: "('w, 'h) turn_env \<Rightarrow> approval_table \<Rightarrow> 'w \<Rightarrow> 'w" where
  "put_approvals env table w = tu_put env (tables env w\<lparr>ct_approvals := table\<rparr>) w"

text \<open>The first lookup is outside the \<open>try\<close>: an id nobody has is a \<open>ToolApprovalNotFound\<close>.\<close>

definition owned_approval ::
  "('w, 'h) turn_env \<Rightarrow> string \<Rightarrow> string \<Rightarrow> ('w, tool_approval) act" where
  "owned_approval env conversation approval_id =
     bindA (readA (\<lambda>w. get_approval (tu_approvals env w) approval_id)) (\<lambda>r.
       case r of
         Inl _ \<Rightarrow> raiseA (OtherError ''ToolApprovalNotFound'' approval_id)
       | Inr row \<Rightarrow> if ta_conversation row = conversation then returnA row
                    else raiseA approval_not_found)"

definition decision_error :: "approval_error \<Rightarrow> exn" where
  "decision_error e =
     (case e of
        ToolApprovalNotFound _ \<Rightarrow> approval_not_found
      | ToolApprovalNotPending _ \<Rightarrow> http_error 409 ''approval already resolved'')"

definition record_decision ::
  "('w, 'h) turn_env \<Rightarrow> string \<Rightarrow> approval_decision \<Rightarrow> string \<Rightarrow> ('w, unit) act" where
  "record_decision env approval_id d user =
     bindA (em_now (ch_em (tu_chat env))) (\<lambda>now.
       stepA (\<lambda>w.
         let (r, table) = decide approval_id (dc_decision d) (dc_reason d) (Some user)
               (map_option PDict (dc_tool_input d)) now (tu_approvals env w)
         in case r of Inl e \<Rightarrow> (Inl (decision_error e), w)
            | Inr _ \<Rightarrow> (Inr (), put_approvals env table w)))"

definition cascade_decision ::
  "('w, 'h) turn_env \<Rightarrow> string \<Rightarrow> approval_decision \<Rightarrow> string \<Rightarrow> ('w, unit) act" where
  "cascade_decision env conversation d user =
     (if should_cascade_rejection (dc_decision d) (dc_reason d) then
        bindA (em_now (ch_em (tu_chat env))) (\<lambda>now.
          writeA (\<lambda>w. put_approvals env (snd (reject_pending_with_reason conversation
            (case dc_reason d of None \<Rightarrow> [] | Some r \<Rightarrow> r) (Some user) now (tu_approvals env w))) w))
      else returnA ())"

text \<open>The approvals are all decided.  The image resolver and the policy come last.\<close>

definition resume_turn ::
  "('w, 'h) turn_env \<Rightarrow> conversation \<Rightarrow> string \<Rightarrow> string option \<Rightarrow> ('w, turn_response) act" where
  "resume_turn env conversation user suspended_by =
     bindA (liftR (configured env)) (\<lambda>resolver.
     bindA (resuming_agent env resolver conversation suspended_by) (\<lambda>ag.
     bindA (augment_system_prompt env conversation ag None) (\<lambda>prompt.
     bindA (turn_call_context env user) (\<lambda>extra.
     bindA (image_resolver env conversation ag user []) (\<lambda>_.
     bindA (context_policy_of env ag) (\<lambda>_.
     bindA (resume (tu_chat env) ag (cv_id conversation) prompt (Some extra)) (\<lambda>result.
     bindA (follow_handoffs env conversation user None ag result) (\<lambda>(last_agent, result').
     bindA (turn_response_of env (cv_id conversation) user last_agent result') (\<lambda>response.
     bindA (spawn_titling env conversation last_agent response) (\<lambda>_. returnA response))))))))))"

definition decide_and_resume ::
  "('w, 'h) turn_env \<Rightarrow> conversation \<Rightarrow> string \<Rightarrow> approval_decision \<Rightarrow> string
   \<Rightarrow> ('w, turn_response) act" where
  "decide_and_resume env conversation approval_id d user =
     bindA (owned_approval env (cv_id conversation) approval_id) (\<lambda>approval.
     bindA (record_decision env approval_id d user) (\<lambda>_.
     bindA (cascade_decision env (cv_id conversation) d user) (\<lambda>_.
     bindA (readA (pending_approvals env (cv_id conversation))) (\<lambda>ps.
       if ps \<noteq> [] then returnA (Awaiting ps)
       else resume_turn env conversation user (ta_agent_name approval)))))"

definition decide_tool_approval ::
  "('w, 'h) turn_env \<Rightarrow> string \<Rightarrow> string \<Rightarrow> approval_decision \<Rightarrow> string \<Rightarrow> ('w, turn_response) act" where
  "decide_tool_approval env conversation_id approval_id d user =
     bindA (liftR (check_turn_size env (case dc_reason d of None \<Rightarrow> [] | Some r \<Rightarrow> r) 0)) (\<lambda>_.
     bindA (get_owned env conversation_id user) (\<lambda>conversation.
     bindA (admit_turn env user conversation) (\<lambda>_.
       conversation_turn env conversation_id user
         (decide_and_resume env conversation approval_id d user))))"

section \<open>Conversations of a user\<close>

definition create_request ::
  "('w, 'h) turn_env \<Rightarrow> int \<Rightarrow> string option \<Rightarrow> string \<Rightarrow> ('w, conversation) act" where
  "create_request env now title user =
     bindA (em_new_id (ch_em (tu_chat env))) (\<lambda>i.
       stepA (\<lambda>w. let (c, t) = create_conversation i now (Some user) title (tables env w)
                  in (Inr c, tu_put env t w)))"

definition valid_page :: "nat option \<Rightarrow> string option \<Rightarrow> bool" where
  "valid_page limit q \<longleftrightarrow> (case limit of None \<Rightarrow> True | Some n \<Rightarrow> 1 \<le> n \<and> n \<le> 100) \<and>
     (case q of None \<Rightarrow> True | Some s \<Rightarrow> length s \<le> 120)"

definition index_request ::
  "('w, 'h) turn_env \<Rightarrow> conv_db \<Rightarrow> nat option \<Rightarrow> nat \<Rightarrow> string option \<Rightarrow> string
   \<Rightarrow> ('w, conversation list) act" where
  "index_request env db limit offset q user =
     readA (\<lambda>w. list_conversations db (tables env w) user limit offset q)"

definition update_request ::
  "('w, 'h) turn_env \<Rightarrow> int \<Rightarrow> string \<Rightarrow> string option \<Rightarrow> string \<Rightarrow> ('w, conversation) act" where
  "update_request env now conversation title user =
     stepA (\<lambda>w.
       let (r, t) = update_conversation_title now conversation title (Some user) (tables env w)
       in case r of Inl _ \<Rightarrow> (Inl not_found, w) | Inr c \<Rightarrow> (Inr c, tu_put env t w))"

section \<open>Stopping, deleting and reading\<close>

definition abort_turn :: "('w, 'h) turn_env \<Rightarrow> string \<Rightarrow> string \<Rightarrow> ('w, unit) act" where
  "abort_turn env conversation user =
     bindA (get_owned env conversation user) (\<lambda>_.
       writeA (r_set (tu_lock env) (abort_key conversation) ''1'' (tu_abort_seconds env)))"

definition delete_request :: "('w, 'h) turn_env \<Rightarrow> string \<Rightarrow> string \<Rightarrow> ('w, unit) act" where
  "delete_request env conversation user =
     bindA (get_owned env conversation user) (\<lambda>_.
     bindA (case tu_on_delete env of None \<Rightarrow> returnA () | Some hook \<Rightarrow> hook conversation user) (\<lambda>_.
     bindA (stepA (\<lambda>w.
         let (r, t) = delete_conversation conversation (Some user) (tables env w)
         in case r of Inl _ \<Rightarrow> (Inl not_found, w) | Inr _ \<Rightarrow> (Inr (), tu_put env t w))) (\<lambda>_.
       clear_abort env conversation)))"

text \<open>Of a compaction a client reads where it happened, not the summary.\<close>

definition hide_summary :: "pyval \<Rightarrow> pyval" where
  "hide_summary b =
     (case b of
        PDict d \<Rightarrow> if dget d ''type'' = PStr COMPACTION_BLOCK then PDict (public_compaction d) else b
      | _ \<Rightarrow> b)"

definition message_read :: "conv_message \<Rightarrow> conv_message" where
  "message_read m = m\<lparr>cm_content := map hide_summary (cm_content m)\<rparr>"

definition read_messages :: "('w, 'h) turn_env \<Rightarrow> string \<Rightarrow> string \<Rightarrow> ('w, conv_message list) act" where
  "read_messages env conversation user =
     bindA (readA (\<lambda>w. list_messages (tables env w) conversation (Some user) False)) (\<lambda>r.
       case r of Inl _ \<Rightarrow> raiseA not_found | Inr ms \<Rightarrow> returnA (map message_read ms))"

definition read_approvals ::
  "('w, 'h) turn_env \<Rightarrow> string \<Rightarrow> string \<Rightarrow> string option \<Rightarrow> ('w, tool_approval list) act" where
  "read_approvals env conversation user status =
     bindA (get_owned env conversation user) (\<lambda>_.
       readA (\<lambda>w. list_approvals (tu_approvals env w) conversation status))"

text \<open>The token of a socket names its user; \<open>decode\<close> gives the subject of a valid one.\<close>

definition user_from_token ::
  "(string \<Rightarrow> string option option) \<Rightarrow> (string \<Rightarrow> string option) \<Rightarrow> string option \<Rightarrow> string option" where
  "user_from_token decode uuid token =
     (case token of
        None \<Rightarrow> None
      | Some t \<Rightarrow>
          if t = [] then None
          else (case decode t of
              Some (Some sub) \<Rightarrow> if sub = [] then None else uuid sub
            | _ \<Rightarrow> None))"

definition stream_admits ::
  "('w, 'h) turn_env \<Rightarrow> (string \<Rightarrow> string option option) \<Rightarrow> (string \<Rightarrow> string option) \<Rightarrow> string
   \<Rightarrow> string option \<Rightarrow> ('w, bool) act" where
  "stream_admits env decode uuid conversation token =
     (case user_from_token decode uuid token of
        None \<Rightarrow> returnA False
      | Some user \<Rightarrow>
          readA (\<lambda>w. case get_conversation (tables env w) conversation (Some user) of
              Inl _ \<Rightarrow> False | Inr _ \<Rightarrow> True))"

end
