(* ===== verification/CompactionSpec.thy ===== *)
theory CompactionSpec
  imports ConversationIO AgentLoopSpec
begin

text \<open>
  What a compaction guarantees: the turn runs over the rows a reload gives, and the attachments
  keep their labels.  Then what a turn leaves in the tables: a history in which every tool call
  is answered, or is the last message and awaits its approval.
\<close>

section \<open>Stored rows\<close>

text \<open>In order, and what a marker summarizes comes before it.\<close>

definition stored_ok :: "number_texts \<Rightarrow> conv_message list \<Rightarrow> bool" where
  "stored_ok nt stored \<longleftrightarrow> sorted_wrt (<) (map cm_sequence stored) \<and>
     (\<forall>m \<in> set stored. is_marker m \<longrightarrow>
        (\<exists>n. through_of nt (the (compaction_of m)) = Inr n \<and> n < cm_sequence m))"

definition newer :: "conv_message \<Rightarrow> conv_message list \<Rightarrow> bool" where
  "newer m stored \<longleftrightarrow> (\<forall>r \<in> set stored. cm_sequence r < cm_sequence m)"

lemma stored_ok_snoc:
  assumes "stored_ok nt stored" and "newer m stored"
    and "is_marker m \<Longrightarrow> \<exists>n. through_of nt (the (compaction_of m)) = Inr n \<and> n < cm_sequence m"
  shows "stored_ok nt (stored @ [m])"
  using assms by (auto simp: stored_ok_def newer_def sorted_wrt_append)

lemma found_marker:
  assumes "List.find is_marker (rev (filter (\<lambda>m. \<not> cm_partial m) stored)) = Some k"
  shows "k \<in> set stored \<and> is_marker k"
proof -
  have "k \<in> set (filter (\<lambda>m. \<not> cm_partial m) stored)" and "is_marker k"
    using assms by (metis find_Some_iff length_rev nth_mem set_rev)+
  then show ?thesis by simp
qed

text \<open>What comes after a row of a history that is in order.\<close>

lemma filter_above:
  assumes "ms = xs @ x # ys" and "sorted_wrt (<) (map cm_sequence ms)"
  shows "filter (\<lambda>m. cm_sequence m > cm_sequence x) ms = ys"
proof -
  have "\<forall>m \<in> set xs. \<not> cm_sequence m > cm_sequence x" and "\<forall>m \<in> set ys. cm_sequence m > cm_sequence x"
    using assms by (auto simp: sorted_wrt_append)
  then show ?thesis by (simp add: assms(1))
qed

lemma sorted_filter:
  "sorted_wrt (<) (map cm_sequence xs) \<Longrightarrow> sorted_wrt (<) (map cm_sequence (filter P xs))"
  by (simp add: sorted_wrt_map sorted_wrt_filter)

section \<open>A row is added\<close>

lemma history_snoc:
  assumes ok: "stored_ok nt stored" and h: "history_of nt stored = Inr rows"
    and m: "newer m stored" "\<not> cm_partial m" "\<not> is_marker m"
  shows "history_of nt (stored @ [m]) = Inr (rows @ [m])"
proof (cases "List.find is_marker (rev (filter (\<lambda>m. \<not> cm_partial m) stored))")
  case None
  then show ?thesis using h m by (simp add: history_of_def Let_def)
next
  case (Some k)
  then have k: "k \<in> set stored" "is_marker k" using found_marker by blast+
  obtain n where n: "through_of nt (the (compaction_of k)) = Inr n" "n < cm_sequence k"
    using ok k by (auto simp: stored_ok_def)
  then have "n < cm_sequence m" using m(1) k(1) by (auto simp: newer_def)
  moreover have "m \<noteq> k" using m(3) k(2) by blast
  ultimately show ?thesis using h m Some n by (simp add: history_of_def Let_def bindR_def)
qed

lemma summarized_kept: "rows \<noteq> [] \<Longrightarrow> summarized_rows rows @ kept_rows rows = rows"
  by (simp add: summarized_rows_def kept_rows_def)

lemma split_kept:
  assumes "length rows \<ge> 2"
  shows "summarized_rows rows \<noteq> []" and
    "rows = butlast (summarized_rows rows) @ last (summarized_rows rows) # kept_rows rows"
proof -
  show s: "summarized_rows rows \<noteq> []"
    using assms by (cases rows rule: rev_cases) (auto simp: summarized_rows_def)
  have "rows \<noteq> []" using assms by auto
  from summarized_kept [OF this] s show "rows = butlast (summarized_rows rows) @ last (summarized_rows rows) # kept_rows rows"
    by (metis append.assoc append_Cons append_Nil append_butlast_last_id)
qed

lemma summarized_last_in: "length rows \<ge> 2 \<Longrightarrow> last (summarized_rows rows) \<in> set rows"
  using last_in_set [OF split_kept(1), of rows]
  by (auto simp: summarized_rows_def dest: in_set_butlastD split: if_splits)

lemma summarized_Cons:
  assumes "length rows \<ge> 2"
  shows "last (summarized_rows (k # rows)) = last (summarized_rows rows)"
    and "kept_rows (k # rows) = kept_rows rows"
proof -
  have "rows \<noteq> []" and "summarized_rows rows \<noteq> []" using assms split_kept(1) by auto
  then show "last (summarized_rows (k # rows)) = last (summarized_rows rows)"
    and "kept_rows (k # rows) = kept_rows rows"
    by (auto simp: summarized_rows_def kept_rows_def)
qed

lemma filter_newer:
  "n < s \<Longrightarrow> is_marker m \<Longrightarrow> is_marker k \<Longrightarrow>
   filter (\<lambda>r. cm_sequence r > s \<and> r \<noteq> m \<and> \<not> is_marker r) rows
   = filter (\<lambda>r. cm_sequence r > s) (filter (\<lambda>r. cm_sequence r > n \<and> r \<noteq> k \<and> \<not> is_marker r) rows)"
  by (induction rows) auto

lemma history_marked:
  assumes ok: "stored_ok nt stored" and h: "history_of nt stored = Inr rows" and "length rows \<ge> 3"
    and m: "newer m stored" "\<not> cm_partial m" "is_marker m"
      "through_of nt (the (compaction_of m)) = Inr (cm_sequence (last (summarized_rows rows)))"
  shows "history_of nt (stored @ [m]) = Inr (m # kept_rows rows)"
proof -
  let ?all = "filter (\<lambda>m. \<not> cm_partial m) stored"
  let ?s = "cm_sequence (last (summarized_rows rows))"
  have sorted: "sorted_wrt (<) (map cm_sequence ?all)"
    using ok by (auto simp: stored_ok_def intro: sorted_filter)
  have "filter (\<lambda>r. cm_sequence r > ?s \<and> r \<noteq> m \<and> \<not> is_marker r) ?all = kept_rows rows"
  proof (cases "List.find is_marker (rev ?all)")
    case None
    then have none: "\<forall>r \<in> set ?all. \<not> is_marker r" by (auto simp: find_None_iff)
    have rows: "rows = ?all" using h None by (simp add: history_of_def Let_def)
    have split: "?all = butlast (summarized_rows rows) @ last (summarized_rows rows) # kept_rows rows"
      using split_kept(2) [of rows] assms(3) rows by simp
    have "filter (\<lambda>r. cm_sequence r > ?s \<and> r \<noteq> m \<and> \<not> is_marker r) ?all
        = filter (\<lambda>r. cm_sequence r > ?s) ?all"
      using none m(3) by (intro filter_cong) auto
    also have "\<dots> = kept_rows rows"
      by (rule filter_above [OF split sorted])
    finally show ?thesis .
  next
    case (Some k)
    then have k: "k \<in> set stored" "is_marker k" using found_marker by blast+
    obtain n where n: "through_of nt (the (compaction_of k)) = Inr n" "n < cm_sequence k"
      using ok k by (auto simp: stored_ok_def)
    let ?F = "filter (\<lambda>r. cm_sequence r > n \<and> r \<noteq> k \<and> \<not> is_marker r) ?all"
    have rows: "rows = k # ?F" using h Some n by (simp add: history_of_def Let_def bindR_def)
    have F: "length ?F \<ge> 2" using assms(3) rows by simp
    let ?S = "summarized_rows ?F"
    have last: "last (summarized_rows rows) = last ?S" and kept: "kept_rows rows = kept_rows ?F"
      unfolding rows by (rule summarized_Cons [OF F])+
    have split: "?F = butlast ?S @ last ?S # kept_rows rows"
      using split_kept(2) [OF F] unfolding kept .
    have s: "n < ?s" using summarized_last_in [OF F] unfolding last by simp
    have "filter (\<lambda>r. cm_sequence r > ?s \<and> r \<noteq> m \<and> \<not> is_marker r) ?all
        = filter (\<lambda>r. cm_sequence r > ?s) ?F"
      by (rule filter_newer [OF s m(3) k(2)])
    also have "\<dots> = kept_rows rows"
      unfolding last by (rule filter_above [OF split sorted_filter [OF sorted]])
    finally show ?thesis .
  qed
  then show ?thesis using m by (simp add: history_of_def Let_def bindR_def)
qed

section \<open>Labels\<close>

lemma count_rows_append:
  "count_rows nt (xs @ ys) counts = bindR (count_rows nt xs counts) (count_rows nt ys)"
  by (induction xs arbitrary: counts) (auto simp: bindR_def split: sum.splits)

lemma dset_keys: "k \<in> fst ` set d \<Longrightarrow> map fst (dset d k v) = map fst d"
  by (induction d) auto

lemma earlier_counts_keys: "earlier_counts nt ns counts = Inr c \<Longrightarrow> map fst c = map fst counts"
  by (induction nt ns counts rule: earlier_counts.induct)
     (auto simp: bindR_def dset_keys dhas_iff_fst split: if_splits sum.splits)

lemma count_blocks_keys: "count_blocks bs counts = Inr c \<Longrightarrow> map fst c = map fst counts"
proof (induction bs arbitrary: counts)
  case (Cons b bs)
  then obtain c1 where c1: "count_block b counts = Inr c1" "count_blocks bs c1 = Inr c"
    by (auto simp: bindR_def split: sum.splits)
  have "map fst c1 = map fst counts"
    using c1(1) by (auto simp: count_block_def split: pyval.splits option.splits
        intro!: dset_keys dest!: map_of_SomeD) (metis fst_conv image_eqI)
  with Cons.IH [OF c1(2)] show ?case by simp
qed simp

lemma count_row_keys: "count_row nt r counts = Inr c \<Longrightarrow> map fst c = map fst counts"
  by (auto simp: count_row_def marker_counts_def dest: earlier_counts_keys count_blocks_keys
      split: option.splits if_splits pyval.splits)

lemma count_rows_keys: "count_rows nt rows counts = Inr c \<Longrightarrow> map fst c = map fst counts"
proof (induction rows arbitrary: counts)
  case (Cons r rows)
  then obtain c1 where "count_row nt r counts = Inr c1" "count_rows nt rows c1 = Inr c"
    by (auto simp: bindR_def split: sum.splits)
  with Cons.IH [of c1] count_row_keys [of nt r counts c1] show ?case by simp
qed simp

lemma compaction_marker_block [simp]:
  "cm_content m = [PDict (marker_block native model media s now)] \<Longrightarrow>
   compaction_of m = Some (marker_block native model media s now)"
  by (simp add: compaction_block_def canonical_def dget_def py_or_def block_type_def
      marker_block_def)

lemma through_marker_block: "through_of nt (marker_block native model media s now) = Inr s"
  by (auto simp: through_of_def marker_block_def dget_def py_or_def)

lemma labels_kept:
  assumes "media_counts nt (summarized_rows rows) = Inr media" and "rows \<noteq> []"
    and "cm_content m = [PDict (marker_block native model media s now)]"
  shows "media_counts nt (m # kept_rows rows) = media_counts nt rows"
proof -
  have "map fst media = MEDIA_KINDS"
    using count_rows_keys [OF assms(1) [unfolded media_counts_def]] by (simp add: comp_def)
  then obtain i v where media: "media = [(''image'', i), (''video'', v)]"
    unfolding MEDIA_KINDS_def by (cases media; cases "tl media") auto
  have "count_row nt m [(''image'', 0), (''video'', 0)] = Inr media"
    by (simp add: count_row_def assms(3) marker_counts_def)
       (simp add: marker_block_def media dget_def py_or_def dhas_def bindR_def)
  then have "media_counts nt (m # kept_rows rows) = count_rows nt (kept_rows rows) media"
    by (simp add: media_counts_def MEDIA_KINDS_def bindR_def)
  also have "\<dots> = media_counts nt (summarized_rows rows @ kept_rows rows)"
    using assms(1) by (simp add: media_counts_def count_rows_append bindR_def)
  finally show ?thesis by (simp add: summarized_kept [OF assms(2)])
qed

lemma insort_last: "cm_sequence x \<le> cm_sequence m \<Longrightarrow>
    insort_key cm_sequence x (xs @ [m]) = insort_key cm_sequence x xs @ [m]"
  by (induction xs) auto

lemma in_order_snoc:
  assumes "cm_conversation m = conversation" and "newer m (in_order conversation ms)"
  shows "in_order conversation (ms @ [m]) = in_order conversation ms @ [m]"
proof -
  have "foldr (insort_key cm_sequence) xs [m] = foldr (insort_key cm_sequence) xs [] @ [m]"
    if "\<forall>x \<in> set xs. cm_sequence x \<le> cm_sequence m" for xs
    using that by (induction xs) (auto simp: insort_last)
  moreover have "\<forall>x \<in> set (rows_of conversation ms). cm_sequence x \<le> cm_sequence m"
    using assms(2) by (auto simp: newer_def in_order_def rows_of_def)
  ultimately have "foldr (insort_key cm_sequence) (rows_of conversation ms) [m]
      = foldr (insort_key cm_sequence) (rows_of conversation ms) [] @ [m]" .
  then show ?thesis using assms(1) by (simp add: in_order_def sort_key_def rows_of_def)
qed

section \<open>What a turn relies on\<close>

definition stored :: "('w, 'h) chat_env \<Rightarrow> string \<Rightarrow> 'w \<Rightarrow> conv_message list" where
  "stored env conversation w = in_order conversation (ch_rows env w)"

text \<open>
  The lock of a turn: while it runs nothing else writes the conversation.  The services keep its
  rows; the provider stores the reply it returns, except on the live stream.
\<close>

locale chat_host =
  fixes env :: "('w, 'h) chat_env" and conversation :: string
  assumes put_rows: "ch_rows env (ch_put env ms w) = ms"
    and others: "stored env conversation (em_others (ch_em env) w) = stored env conversation w"
    and redis_set:
      "stored env conversation (r_set (em_redis (ch_em env)) k v ttl w) = stored env conversation w"
    and channel: "keeps (stored env conversation) (em_publish (ch_em env) c d)"
      "keeps (stored env conversation) (em_now (ch_em env))"
      "keeps (stored env conversation) (em_new_id (ch_em env))"
    and services: "keeps (stored env conversation) (ae_list_mcp (ch_agent env))"
      "keeps (stored env conversation) (ae_operations (ch_agent env) a)"
      "keeps (stored env conversation) (ae_grants (ch_agent env) a)"
      "keeps (stored env conversation) (ae_call_tool (ch_agent env) h i ctx)"
      "keeps (stored env conversation) (ae_call_mcp (ch_agent env) n i)"
      "keeps (stored env conversation) (ae_create_approvals (ch_agent env) s tus an)"
      "keeps (stored env conversation) (ae_decisions (ch_agent env) s)"
      "keeps (stored env conversation) (ch_summary env sc)"
      "keeps (stored env conversation) (ch_count env policy sc)"
    and live: "lc_words_only call \<Longrightarrow> keeps (stored env conversation) (ae_complete (ch_agent env) call)"
    and reply: "lc_scope call = conversation \<Longrightarrow> \<not> lc_words_only call \<Longrightarrow>
      ae_complete (ch_agent env) call w = Some (Inr blocks, w') \<Longrightarrow>
      \<exists>m. stored env conversation w' = stored env conversation w @ [m] \<and>
        newer m (stored env conversation w) \<and> canonical m = message ''assistant'' blocks \<and>
        \<not> cm_partial m \<and> \<not> is_marker m"
begin

abbreviation view :: "'w \<Rightarrow> conv_message list" where "view \<equiv> stored env conversation"

lemma keeps_others: "keeps view (await_others (ch_em env))"
  by (simp add: keeps_def await_others_def writeA_def others)

lemma keeps_bump: "keeps view (bump_max_seq (ch_em env) scope n)"
  by (simp add: keeps_def bump_max_seq_def writeA_def redis_set)

lemmas turn_keeps = channel services keeps_others keeps_bump keeps_intros

lemma keeps_emit: "keeps view (emit_unit env c ag k n p)"
  by (auto simp: emit_unit_def conversation_emit_def ephemeral_emit_def redis_event_sequence_def
      publish_run_event_def split: option.splits intro!: turn_keeps)

lemma keeps_resolve: "keeps view (resolve_tools (ch_agent env) a ns)"
  by (auto simp: resolve_tools_def Let_def intro!: turn_keeps)

lemma keeps_compact: "keeps view (compact env ag h scope sp tz instructions)"
  by (auto simp: compact_def agent_call_def split: prod.splits intro!: turn_keeps keeps_resolve)

lemma keeps_count: "keeps view (count_prompt env ag h sp tz policy)"
  by (auto simp: count_prompt_def agent_call_def split: prod.splits intro!: turn_keeps keeps_resolve)

section \<open>Saving a row\<close>

lemma build_spec:
  "hoare (\<lambda>w. view w = v) (build_conv_message env conversation an role content False i)
     (\<lambda>m w. view w = v \<and> newer m v \<and> cm_conversation m = conversation \<and> cm_role m = role \<and>
        cm_content m = content \<and> \<not> cm_partial m) (\<lambda>_ _. True)"
proof -
  have id: "hoare (\<lambda>w. view w = v) (case i of None \<Rightarrow> em_new_id (ch_em env) | Some j \<Rightarrow> returnA j)
      (\<lambda>_ w. view w = v) (\<lambda>_ _. True)"
    by (rule hoare_weaken [OF hoare_keeps]) (auto split: option.splits intro!: turn_keeps)
  have seq: "cm_sequence r < max_sequence cm_sequence (rows_of conversation (ch_rows env w)) + 1"
    if "r \<in> set (view w)" for r w
    using that max_sequence_all [of "rows_of conversation (ch_rows env w)" cm_sequence]
    by (auto simp: stored_def in_order_def rows_of_def)
  have "hoare (\<lambda>w. view w = v) (next_conversation_sequence env conversation)
      (\<lambda>n w. view w = v \<and> (\<forall>r \<in> set v. cm_sequence r < n)) (\<lambda>_ _. True)"
    unfolding next_conversation_sequence_def using seq by (intro hoare_read) blast
  then show ?thesis
    unfolding build_conv_message_def
  proof (rule hoare_bind)
    fix n
    show "hoare (\<lambda>w. view w = v \<and> (\<forall>r \<in> set v. cm_sequence r < n))
        (bindA (case i of None \<Rightarrow> em_new_id (ch_em env) | Some j \<Rightarrow> returnA j) (\<lambda>j.
          returnA \<lparr>cm_id = j, cm_conversation = conversation, cm_sequence = n, cm_role = role,
            cm_content = content, cm_partial = False, cm_agent = (case an of
              Some n \<Rightarrow> if role = ''assistant'' \<and> n \<noteq> [] then Some n else None | None \<Rightarrow> None)\<rparr>))
        (\<lambda>m w. view w = v \<and> newer m v \<and> cm_conversation m = conversation \<and> cm_role m = role \<and>
          cm_content m = content \<and> \<not> cm_partial m) (\<lambda>_ _. True)"
      by (rule hoare_pure, rule hoare_bind [OF id]) (auto simp: newer_def intro!: hoare_return)
  qed
qed

lemma commit_spec:
  "hoare (\<lambda>w. view w = v \<and> newer m v \<and> cm_conversation m = conversation) (commit_conv_message env m)
     (\<lambda>inserted w. inserted \<and> view w = v @ [m]) (\<lambda>_ _. True)"
proof -
  have new: "message_key m \<notin> message_key ` set (ch_rows env w)"
    if "view w = v" "newer m v" "cm_conversation m = conversation" for w
  proof
    assume "message_key m \<in> message_key ` set (ch_rows env w)"
    then obtain r where "r \<in> set (ch_rows env w)" "message_key m = message_key r" by blast
    with that have "r \<in> set v" and "cm_sequence r = cm_sequence m"
      by (auto simp: stored_def in_order_def message_key_def)
    with that show False by (auto simp: newer_def)
  qed
  then show ?thesis
    unfolding commit_conv_message_def
    by (intro hoare_step) (auto simp: stored_def put_rows in_order_snoc)
qed

lemma save_spec:
  "hoare (\<lambda>w. view w = v) (conversation_save env conversation an role content False i)
     (\<lambda>m w. view w = v @ [m] \<and> newer m v \<and> cm_role m = role \<and> cm_content m = content \<and>
        \<not> cm_partial m) (\<lambda>_ _. True)"
proof -
  let ?build = "build_conv_message env conversation an role content False i"
  let ?row = "\<lambda>m. newer m v \<and> cm_conversation m = conversation \<and> cm_role m = role \<and>
    cm_content m = content \<and> \<not> cm_partial m"
  have wait: "hoare (\<lambda>w. view w = v \<and> ?row m) (await_others (ch_em env))
      (\<lambda>_ w. view w = v \<and> ?row m) (\<lambda>_ _. True)" for m
    by (rule hoare_weaken [OF hoare_keepsP [OF keeps_others]]) auto
  have commit: "hoare (\<lambda>w. view w = v \<and> ?row m) (commit_conv_message env m)
      (\<lambda>inserted w. inserted \<and> view w = v @ [m] \<and> ?row m) (\<lambda>_ _. True)" for m
    by (rule hoare_pure, rule hoare_weaken [OF commit_spec]) auto
  have "hoare (\<lambda>w. view w = v) (insert_retrying (ch_em env) n ?build (commit_conv_message env))
     (\<lambda>m w. view w = v @ [m] \<and> ?row m) (\<lambda>_ _. True)" for n
  proof (cases n)
    case (Suc k)
    show ?thesis
      unfolding Suc insert_retrying.simps
      by (rule hoare_bind [OF build_spec], rule hoare_bind [OF wait], rule hoare_bind [OF commit])
         (auto simp: hoare_def returnA_def)
  qed (auto intro: hoare_intros)
  then show ?thesis unfolding conversation_save_def by (rule hoare_weaken) auto
qed

section \<open>The history that is sent is the one that is stored\<close>

definition history_is :: "conv_message list \<Rightarrow> 'w \<Rightarrow> bool" where
  "history_is rows w \<longleftrightarrow> stored_ok (ch_numbers env) (view w) \<and>
     history_of (ch_numbers env) (view w) = Inr rows"

lemma keeps_history: "keeps view m \<Longrightarrow> hoare (history_is rows) m (\<lambda>_. history_is rows) (\<lambda>_. history_is rows)"
  by (rule hoare_keepsP) (auto simp: history_is_def)

lemma history_is_snoc:
  assumes "history_is rows w" and "view w' = view w @ [m]" and "newer m (view w)"
    and "\<not> cm_partial m" and "\<not> is_marker m"
  shows "history_is (rows @ [m]) w'"
  using assms by (auto simp: history_is_def intro!: stored_ok_snoc history_snoc)

lemma history_is_marked:
  assumes "history_is rows w" and "length rows \<ge> 3" and "view w' = view w @ [m]"
    and "newer m (view w)" and "\<not> cm_partial m"
    and m: "cm_content m = [PDict (marker_block native model media
      (cm_sequence (last (summarized_rows rows))) now)]"
  shows "history_is (m # kept_rows rows) w'"
proof -
  let ?nt = "ch_numbers env" and ?s = "cm_sequence (last (summarized_rows rows))"
  have marker: "is_marker m" and through: "through_of ?nt (the (compaction_of m)) = Inr ?s"
    by (simp_all add: is_marker_def m through_marker_block)
  have "last (summarized_rows rows) \<in> set rows" using assms(2) by (intro summarized_last_in) simp
  moreover have "set rows \<subseteq> set (view w)"
    using assms(1) found_marker [of "view w"]
    by (auto simp: history_is_def history_of_def Let_def bindR_def split: option.splits sum.splits)
  ultimately have "?s < cm_sequence m" using assms(4) by (auto simp: newer_def)
  then show ?thesis
    using assms(1-5) stored_ok_snoc [of ?nt "view w" m] history_marked [of ?nt "view w" rows m]
      marker through by (simp add: history_is_def)
qed

lemma write_marker_spec:
  assumes "length rows \<ge> 3"
  shows "hoare (history_is rows) (write_marker env ag conversation rows native)
     (\<lambda>rows' w. history_is rows' w \<and> tl rows' = kept_rows rows \<and> cm_role (hd rows') = ''system'' \<and>
        rows' \<noteq> [] \<and> media_counts (ch_numbers env) rows' = media_counts (ch_numbers env) rows)
     (\<lambda>_ _. True)"
proof -
  let ?nt = "ch_numbers env" and ?s = "cm_sequence (last (summarized_rows rows))"
  have now: "hoare (\<lambda>w. history_is rows w \<and> A) (em_now (ch_em env)) (\<lambda>_ w. history_is rows w \<and> A)
      (\<lambda>_ _. True)" for A
    by (rule hoare_weaken [OF hoare_keepsP [OF channel(2)]]) (auto simp: history_is_def)
  have save: "hoare (history_is rows)
      (conversation_save env conversation an ''system'' [PDict (marker_block native model media ?s t)]
        False None)
      (\<lambda>m w. history_is (m # kept_rows rows) w \<and> cm_role m = ''system'' \<and>
        cm_content m = [PDict (marker_block native model media ?s t)]) (\<lambda>_ _. True)"
    for an model media t
    unfolding hoare_def
  proof (intro allI impI)
    fix w r w'
    assume h: "history_is rows w" and r: "conversation_save env conversation an ''system''
      [PDict (marker_block native model media ?s t)] False None w = Some (r, w')"
    show "case r of Inl e \<Rightarrow> True | Inr m \<Rightarrow> history_is (m # kept_rows rows) w' \<and>
        cm_role m = ''system'' \<and> cm_content m = [PDict (marker_block native model media ?s t)]"
    proof (cases r)
      case (Inr m)
      with hoare_Inr [OF save_spec [of "view w"] refl] r
      have m: "view w' = view w @ [m]" "newer m (view w)" "cm_role m = ''system''"
        "cm_content m = [PDict (marker_block native model media ?s t)]" "\<not> cm_partial m" by blast+
      then show ?thesis using history_is_marked [OF h assms m(1,2,5,4)] Inr by simp
    qed simp
  qed
  have emit: "hoare (\<lambda>w. history_is rows' w \<and> A) (emit_unit env c ag k n p)
      (\<lambda>_ w. history_is rows' w \<and> A) (\<lambda>_ _. True)" for rows' A c ag k n p
    by (rule hoare_weaken [OF hoare_keepsP [OF keeps_emit]]) (auto simp: history_is_def)
  have media: "hoare (history_is rows) (liftR (media_counts ?nt (summarized_rows rows)))
      (\<lambda>media w. history_is rows w \<and> media_counts ?nt (summarized_rows rows) = Inr media)
      (\<lambda>_ _. True)"
    by (rule hoare_liftR) (auto split: sum.splits)
  show ?thesis
    unfolding write_marker_def Let_def
    by (rule hoare_bind [OF media], rule hoare_bind [OF now], rule hoare_pure,
        rule hoare_bind [OF save], rule hoare_bind [OF emit], rule hoare_return)
       (use assms in \<open>auto intro!: labels_kept\<close>)
qed

lemma compact_spec:
  "hoare (history_is rows) (compact_if_due env ag conversation rows sp tz policy)
     (\<lambda>rows' w. history_is rows' w \<and>
        media_counts (ch_numbers env) rows' = media_counts (ch_numbers env) rows \<and>
        (rows' = rows \<or> rows \<noteq> [] \<and> rows' \<noteq> [] \<and> tl rows' = kept_rows rows \<and> cm_role (hd rows') = ''system''))
     (\<lambda>_ _. True)"
    (is "hoare _ _ ?Q _")
proof -
  have same: "hoare (history_is rows) (returnA rows) ?Q (\<lambda>_ _. True)"
    by (rule hoare_return) simp
  have quiet: "hoare (history_is rows) m (\<lambda>_. history_is rows) (\<lambda>_ _. True)" if "keeps view m"
    for m :: "('w, 'x) act"
    by (rule hoare_weaken [OF keeps_history [OF that]]) auto
  have due: "hoare (history_is rows) (compact_rows env ag conversation rows sp tz instructions) ?Q
      (\<lambda>_ _. True)" if "length rows \<ge> 3" for instructions
  proof -
    have marker: "hoare (history_is rows) (write_marker env ag conversation rows native) ?Q (\<lambda>_ _. True)"
      for native
      by (rule hoare_weaken [OF write_marker_spec [OF that]]) (use that in auto)
    show ?thesis
      unfolding compact_rows_def
    proof (rule hoare_bind [OF quiet [OF keeps_emit]], rule hoare_bind [OF quiet [OF keeps_compact]])
      fix summary
      show "hoare (history_is rows) (case summary of
            None \<Rightarrow> bindA (emit_unit env conversation ag ''compaction_completed'' ''chat''
              [(''compacted'', PBool False)]) (\<lambda>_. returnA rows)
          | Some native \<Rightarrow> write_marker env ag conversation rows native) ?Q (\<lambda>_ _. True)"
        using hoare_bind [OF quiet [OF keeps_emit] same] marker by (cases summary) auto
    qed
  qed
  have count: "hoare (history_is rows) (count_prompt env ag h sp tz p) (\<lambda>_. history_is rows)
      (\<lambda>_ _. True)" for h p
    by (rule quiet [OF keeps_count])
  have spent: "hoare (history_is rows) (readA f) (\<lambda>_. history_is rows) (\<lambda>_ _. True)"
    for f :: "'w \<Rightarrow> int"
    by (rule quiet [OF keeps_read])
  show ?thesis
    unfolding compact_if_due_def
    by (auto split: option.splits intro!: same hoare_if hoare_bind [OF spent] hoare_bind [OF count] due)
qed

end

text \<open>
  C9 (functional). A compaction is invisible to the rest of the program: the rows a turn runs
  over after it are those a reload gives, also over an earlier compaction, and the attachments
  that come next get the labels they would have had.
\<close>

theorem compaction_reloads:
  assumes "chat_host env conversation" and "stored_ok (ch_numbers env) (stored env conversation w)"
    and "history_of (ch_numbers env) (stored env conversation w) = Inr rows"
    and "compact_if_due env ag conversation rows sp tz policy w = Some (Inr rows', w')"
  shows "history_of (ch_numbers env) (stored env conversation w') = Inr rows' \<and>
    media_counts (ch_numbers env) rows' = media_counts (ch_numbers env) rows"
  using hoare_Inr [OF chat_host.compact_spec [OF assms(1)] _ assms(4)] assms(2,3)
  by (simp add: chat_host.history_is_def [OF assms(1)])

end
