(* ===== verification/ChatSpec.thy ===== *)
theory ChatSpec
  imports CompactionSpec
begin

text \<open>
  What a turn of a conversation leaves in the tables: a history in which every tool call is
  answered by the next message, or one that ends with the calls that await an approval.
\<close>

section \<open>Content\<close>

definition plain :: "pydict list \<Rightarrow> bool" where
  "plain blocks = list_all (\<lambda>b. dget b ''type'' \<noteq> PStr COMPACTION_BLOCK) blocks"

lemma compaction_of_content:
  "compaction_of m = (case List.find (\<lambda>b. block_type b = PStr COMPACTION_BLOCK) (cm_content m) of
     Some (PDict d) \<Rightarrow> Some d | _ \<Rightarrow> None)"
  by (cases "cm_content m") (simp_all add: compaction_block_def canonical_def dget_def py_or_def)

lemma plain_no_marker:
  assumes "cm_content m = map PDict blocks" and "plain blocks"
  shows "\<not> is_marker m"
proof -
  have "List.find (\<lambda>b. block_type b = PStr COMPACTION_BLOCK) (map PDict blocks) = None"
    using assms(2) by (auto simp: plain_def find_None_iff list_all_iff block_type_def)
  then show ?thesis by (simp add: is_marker_def compaction_of_content assms(1))
qed

lemma canonical_message:
  "cm_role m = role \<Longrightarrow> cm_content m = map PDict blocks \<Longrightarrow> canonical m = message role blocks"
  by (simp add: canonical_def message_def)

lemma canonical_uses:
  "message_uses (canonical m) = (if cm_role m = ''assistant'' then map call_id (tool_uses_of
     (List.map_filter (\<lambda>b. case b of PDict d \<Rightarrow> Some d | _ \<Rightarrow> None) (cm_content m))) else [])"
  by (simp add: message_uses_def message_blocks_def canonical_def dget_def)

lemma paired_last: "paired ms \<Longrightarrow> ms \<noteq> [] \<Longrightarrow> message_uses (last ms) = []"
  by (induction ms rule: paired.induct) auto

text \<open>The last message holds the calls that await a decision.\<close>

definition waiting :: "pydict list \<Rightarrow> bool" where
  "waiting ms \<longleftrightarrow> ms \<noteq> [] \<and> paired (butlast ms) \<and> message_uses (last ms) \<noteq> []"

lemma paired_compacted:
  assumes "paired (map canonical rows)" and "rows \<noteq> []"
    and "rows' \<noteq> []" and "tl rows' = kept_rows rows" and "cm_role (hd rows') = ''system''"
  shows "paired (map canonical rows')"
proof -
  have "message_uses (canonical (last rows)) = []"
    using paired_last [OF assms(1)] assms(2) by (simp add: last_map)
  moreover obtain m where "rows' = m # kept_rows rows" "cm_role m = ''system''"
    using assms(3-5) by (cases rows') auto
  ultimately show ?thesis by (auto simp: kept_rows_def canonical_uses)
qed

section \<open>Words beside an approval\<close>

lemma with_text_insert:
  assumes "with_text words blocks = Inr blocks'"
  obtains xs ys where "blocks = xs @ ys"
    and "blocks' = xs @ PDict [(''type'', PStr ''text''), (''text'', PStr words)] # ys"
proof -
  from assms obtain pos where "blocks' = take pos blocks
      @ PDict [(''type'', PStr ''text''), (''text'', PStr words)] # drop pos blocks"
    by (auto simp: with_text_def bindR_def split: sum.splits)
  then show thesis using that [of "take pos blocks" "drop pos blocks"] by simp
qed

lemma find_insert: "\<not> P b \<Longrightarrow> List.find P (xs @ b # ys) = List.find P (xs @ ys)"
  by (induction xs) auto

lemma with_text_kind:
  assumes "with_text words (cm_content m) = Inr blocks"
  shows "message_uses (canonical (m\<lparr>cm_content := blocks\<rparr>)) = message_uses (canonical m)"
    and "is_marker (m\<lparr>cm_content := blocks\<rparr>) = is_marker m"
proof -
  obtain xs ys where m: "cm_content m = xs @ ys"
    and b: "blocks = xs @ PDict [(''type'', PStr ''text''), (''text'', PStr words)] # ys"
    using assms by (rule with_text_insert)
  show "message_uses (canonical (m\<lparr>cm_content := blocks\<rparr>)) = message_uses (canonical m)"
    by (simp add: canonical_uses m b List.map_filter_def tool_uses_of_def is_tool_use_def dget_def)
  show "is_marker (m\<lparr>cm_content := blocks\<rparr>) = is_marker m"
    by (simp add: is_marker_def compaction_of_content m b find_insert block_type_def dget_def
        COMPACTION_BLOCK_def)
qed

lemma insort_map:
  "(\<And>r. cm_sequence (f r) = cm_sequence r) \<Longrightarrow>
   insort_key cm_sequence (f x) (map f xs) = map f (insort_key cm_sequence x xs)"
  by (induction xs) auto

lemma in_order_map:
  assumes "\<And>r. cm_sequence (f r) = cm_sequence r" and "\<And>r. cm_conversation (f r) = cm_conversation r"
  shows "in_order conversation (map f ms) = map f (in_order conversation ms)"
proof -
  have "sort_key cm_sequence (map f xs) = map f (sort_key cm_sequence xs)" for xs
    using assms(1) by (induction xs) (simp_all add: insort_map)
  then show ?thesis using assms(2) by (simp add: in_order_def filter_map comp_def)
qed

section \<open>The loop on a conversation\<close>

context chat_host
begin

definition history_w :: "pydict list \<Rightarrow> 'w \<Rightarrow> bool" where
  "history_w ms w \<longleftrightarrow> (\<exists>rows. history_is rows w \<and> map canonical rows = ms \<and> paired ms)"

text \<open>The provider has stored a reply with calls, and they are not answered yet.\<close>

definition asked :: "pydict list \<Rightarrow> (pydict \<Rightarrow> bool) \<Rightarrow> 'w \<Rightarrow> bool" where
  "asked ms C w \<longleftrightarrow> (\<exists>v m rows. view w = v @ [m] \<and> newer m v \<and> \<not> cm_partial m \<and> \<not> is_marker m \<and>
     cm_role m = ''assistant'' \<and> C (canonical m) \<and>
     stored_ok (ch_numbers env) v \<and> history_of (ch_numbers env) v = Inr rows \<and>
     map canonical rows = ms \<and> paired ms)"

definition settled :: "run_result \<Rightarrow> 'w \<Rightarrow> bool" where
  "settled r w \<longleftrightarrow> (case r of
       Output _ \<Rightarrow> \<exists>ms. history_w ms w
     | SuspendedForApproval _ \<Rightarrow> \<exists>rows. history_is rows w \<and> waiting (map canonical rows))"

lemma asked_waits:
  assumes "asked ms (\<lambda>a. message_uses a = uses) w" and "uses \<noteq> []"
  shows "\<exists>rows. history_is rows w \<and> waiting (map canonical rows)"
proof -
  obtain v m rows where m: "view w = v @ [m]" "newer m v" "\<not> cm_partial m" "\<not> is_marker m"
    "message_uses (canonical m) = uses" "stored_ok (ch_numbers env) v"
    "history_of (ch_numbers env) v = Inr rows" "paired (map canonical rows)"
    using assms(1) by (auto simp: asked_def)
  have "history_is (rows @ [m]) w"
    using m by (auto simp: history_is_def intro!: stored_ok_snoc history_snoc)
  then show ?thesis using m assms(2) by (intro exI [of _ "rows @ [m]"]) (simp add: waiting_def)
qed

lemma keeps_asked: "keeps view a \<Longrightarrow> hoare (asked ms C) a (\<lambda>_. asked ms C) (\<lambda>_ _. True)"
  by (rule hoare_weaken [OF hoare_keepsP]) (auto simp: asked_def)

lemma add_text_spec:
  "hoare (asked ms (\<lambda>a. message_uses a = uses)) (add_text_to_last_assistant env conversation words)
     (\<lambda>_. asked ms (\<lambda>a. message_uses a = uses)) (\<lambda>_ _. True)"
    (is "hoare ?A _ _ _")
  unfolding hoare_def
proof (intro allI impI)
  fix w r w'
  assume a: "?A w"
    and r: "add_text_to_last_assistant env conversation words w = Some (r, w')"
  obtain v m rows where m: "view w = v @ [m]" "newer m v" "\<not> cm_partial m" "\<not> is_marker m"
    "cm_role m = ''assistant''" "message_uses (canonical m) = uses" "stored_ok (ch_numbers env) v"
    "history_of (ch_numbers env) v = Inr rows" "map canonical rows = ms" "paired ms"
    using a by (auto simp: asked_def)
  have found: "last_assistant conversation (ch_rows env w) = Some m"
    using m(1,5) by (cases "filter (\<lambda>m. cm_role m = ''assistant'') v")
      (simp_all add: last_assistant_def stored_def)
  show "case r of Inl e \<Rightarrow> True | Inr _ \<Rightarrow> ?A w'"
  proof (cases "with_text words (cm_content m)")
    case (Inl e)
    then show ?thesis using r found
      by (auto simp: add_text_to_last_assistant_def act_simps)
  next
    case (Inr blocks)
    let ?m = "m\<lparr>cm_content := blocks\<rparr>"
    let ?f = "\<lambda>r. if message_key r = message_key m then r\<lparr>cm_content := blocks\<rparr> else r"
    have w': "w' = ch_put env (map ?f (ch_rows env w)) w"
      using r found Inr by (auto simp: add_text_to_last_assistant_def act_simps)
    have "view w' = map ?f (view w)"
      by (simp add: w' stored_def put_rows in_order_map)
    moreover have "map ?f v = v"
      using m(2) by (intro map_idI) (auto simp: newer_def message_key_def)
    ultimately have "view w' = v @ [?m]" by (simp add: m(1))
    moreover have "newer ?m v" using m(2) by (simp add: newer_def)
    ultimately have "?A w'"
      unfolding asked_def using m(3-10) with_text_kind [OF Inr]
      by (intro exI [of _ v] exI [of _ ?m] exI [of _ rows]) simp
    then show ?thesis by (simp split: sum.splits)
  qed
qed

lemma chat_io_fields [simp]:
  "ae_complete (chat_io env c ag) = ae_complete (ch_agent env)"
  "ae_list_mcp (chat_io env c ag) = ae_list_mcp (ch_agent env)"
  "ae_operations (chat_io env c ag) = ae_operations (ch_agent env)"
  "ae_grants (chat_io env c ag) = ae_grants (ch_agent env)"
  "ae_call_tool (chat_io env c ag) = ae_call_tool (ch_agent env)"
  "ae_call_mcp (chat_io env c ag) = ae_call_mcp (ch_agent env)"
  "ae_create_approvals (chat_io env c ag) = ae_create_approvals (ch_agent env)"
  "ae_decisions (chat_io env c ag) = ae_decisions (ch_agent env)"
  "ae_emit (chat_io env c ag) = emit_unit env c ag"
  by (simp_all add: chat_io_def fun_eq_iff)

abbreviation io :: "agent \<Rightarrow> ('w, 'h) agent_env" where "io ag \<equiv> chat_io env conversation ag"

lemma keeps_tools: "keeps view (resolve_tools (io ag) a ns)"
  by (auto simp: resolve_tools_def Let_def intro!: turn_keeps)

lemma keeps_names: "keeps view (approval_names_for (io ag) a enabled)"
  by (auto simp: approval_names_for_def intro!: turn_keeps)

lemma keeps_execute: "keeps view (execute_tool_uses (io ag) decisions by_name ctx n tus)"
proof -
  have "keeps view (perform_call (io ag) by_name ctx tu i)" for tu i
    by (auto simp: perform_call_def invoke_system_tool_def split: prod.splits option.splits
        intro!: turn_keeps)
  then have "keeps view (execute_tool_use (io ag) decisions by_name ctx n tu)" for tu
    by (auto simp: execute_tool_use_def Let_def emit_result_def split: prod.splits
        intro!: turn_keeps keeps_emit)
  then show ?thesis by (auto simp: execute_tool_uses_def intro!: turn_keeps)
qed

text \<open>The results of calls are tool results, one for each call.\<close>

lemma execute_results:
  assumes "\<And>w w'. P w \<Longrightarrow> view w' = view w \<Longrightarrow> P w'"
  shows "hoare P (execute_tool_uses (io ag) decisions by_name ctx n tus)
     (\<lambda>x w. P w \<and> result_ids (fst x) = map call_id tus \<and> plain (fst x)) (\<lambda>_ _. True)"
  unfolding hoare_def
proof (intro allI impI)
  fix w r w'
  assume P: "P w" and r: "execute_tool_uses (io ag) decisions by_name ctx n tus w = Some (r, w')"
  show "case r of Inl e \<Rightarrow> True | Inr x \<Rightarrow> P w' \<and> result_ids (fst x) = map call_id tus \<and>
      plain (fst x)"
  proof (cases r)
    case (Inr x)
    obtain results t where x: "x = (results, t)" by (cases x)
    have ids: "result_ids results = map call_id tus"
      using execute_tool_uses_ids r unfolding Inr x .
    obtain rs where f: "forA (execute_tool_use (io ag) decisions by_name ctx n) tus w = Some (Inr rs, w')"
      and results: "results = map fst rs"
      using r by (auto simp: Inr x execute_tool_uses_def bindA_Some returnA_def)
    have "map (\<lambda>b. dget b ''type'') results = map (\<lambda>_. PStr ''tool_result'') tus"
      unfolding results map_map comp_def
      by (rule forA_map [OF f]) (auto dest: execute_tool_use_id)
    then have "list_all (\<lambda>v. v = PStr ''tool_result'') (map (\<lambda>b. dget b ''type'') results)"
      by (simp only: list.pred_map) (simp add: list_all_iff)
    then have "plain results" by (auto simp: plain_def list_all_iff COMPACTION_BLOCK_def)
    moreover have "P w'" using assms [OF P] keepsD [OF keeps_execute r] by blast
    ultimately show ?thesis using ids by (simp add: Inr x)
  qed simp
qed

section \<open>Saving a user turn\<close>

lemma save_user_spec:
  assumes "plain blocks"
  shows "hoare (\<lambda>w. \<exists>rows. history_is rows w \<and> map canonical rows = ms)
     (ae_save (io ag) n ''user'' blocks)
     (\<lambda>_ w. \<exists>rows. history_is rows w \<and> map canonical rows = ms @ [message ''user'' blocks])
     (\<lambda>_ _. True)"
  unfolding hoare_def
proof (intro allI impI)
  fix w r w'
  assume "\<exists>rows. history_is rows w \<and> map canonical rows = ms"
  then obtain rows where h: "history_is rows w" "map canonical rows = ms" by blast
  assume "ae_save (io ag) n ''user'' blocks w = Some (r, w')"
  then consider (failed) e where "r = Inl e"
    | (saved) m where "r = Inr ()" "conversation_save env conversation (Some (ag_name ag)) ''user''
        (map PDict blocks) False None w = Some (Inr m, w')"
    by (auto simp: chat_io_def bindA_Some returnA_def)
  then show "case r of Inl e \<Rightarrow> True | Inr _ \<Rightarrow> \<exists>rows. history_is rows w' \<and>
      map canonical rows = ms @ [message ''user'' blocks]"
  proof cases
    case saved
    have m: "view w' = view w @ [m]" "newer m (view w)" "\<not> cm_partial m" "cm_role m = ''user''"
      "cm_content m = map PDict blocks"
      using hoare_Inr [OF save_spec [of "view w"] refl saved(2)] by blast+
    have "history_is (rows @ [m]) w'"
      by (rule history_is_snoc [OF h(1) m(1-3) plain_no_marker [OF m(5) assms]])
    then show ?thesis using h(2) canonical_message [OF m(4,5)] saved(1) by auto
  qed simp
qed

lemma save_results_spec:
  assumes "plain results" and "\<And>a. C a \<Longrightarrow> message_uses a = result_ids results"
  shows "hoare (asked ms C) (ae_save (io ag) n ''user'' results)
    (\<lambda>_ w. \<exists>a. C a \<and> history_w (ms @ [a, message ''user'' results]) w) (\<lambda>_ _. True)"
  unfolding hoare_def
proof (intro allI impI)
  fix w r w'
  assume "asked ms C w"
  then obtain v m rows where m: "view w = v @ [m]" "newer m v" "\<not> cm_partial m" "\<not> is_marker m"
    "C (canonical m)" "stored_ok (ch_numbers env) v" "history_of (ch_numbers env) v = Inr rows"
    "map canonical rows = ms" "paired ms"
    by (auto simp: asked_def)
  have "history_is (rows @ [m]) w"
    using m by (auto simp: history_is_def intro!: stored_ok_snoc history_snoc)
  then have h: "\<exists>rows. history_is rows w \<and> map canonical rows = ms @ [canonical m]"
    using m(8) by (intro exI [of _ "rows @ [m]"]) simp
  assume r: "ae_save (io ag) n ''user'' results w = Some (r, w')"
  have "paired (ms @ [canonical m, message ''user'' results])"
    by (rule paired_append [OF m(9)]) (simp add: assms(2) [OF m(5)])
  then show "case r of Inl e \<Rightarrow> True
      | Inr _ \<Rightarrow> \<exists>a. C a \<and> history_w (ms @ [a, message ''user'' results]) w'"
    using hoare_Inr [OF save_user_spec [OF assms(1)] h] r m(5)
    by (cases r) (fastforce simp: history_w_def)+
qed

section \<open>The loop\<close>

lemma complete_spec:
  assumes "rc_scope rc = conversation"
  shows "hoare (history_w ms) (ae_complete (io ag) (complete_call rc ms' False))
    (\<lambda>blocks. asked ms (\<lambda>a. a = message ''assistant'' blocks)) (\<lambda>_ _. True)"
  unfolding hoare_def
proof (intro allI impI)
  fix w r w'
  assume "history_w ms w"
  then obtain rows where h: "stored_ok (ch_numbers env) (view w)"
    "history_of (ch_numbers env) (view w) = Inr rows" "map canonical rows = ms" "paired ms"
    by (auto simp: history_w_def history_is_def)
  assume r: "ae_complete (io ag) (complete_call rc ms' False) w = Some (r, w')"
  show "case r of Inl e \<Rightarrow> True | Inr blocks \<Rightarrow> asked ms (\<lambda>a. a = message ''assistant'' blocks) w'"
  proof (cases r)
    case (Inr blocks)
    have c: "lc_scope (complete_call rc ms' False) = conversation"
      "\<not> lc_words_only (complete_call rc ms' False)"
      using assms by (simp_all add: complete_call_def)
    obtain m where m: "view w' = view w @ [m]" "newer m (view w)"
      "canonical m = message ''assistant'' blocks" "\<not> cm_partial m" "\<not> is_marker m"
      using reply [OF c, of w blocks w'] r Inr by auto
    have "cm_role m = ''assistant''" using m(3) by (simp add: canonical_def message_def)
    with m h have "asked ms (\<lambda>a. a = message ''assistant'' blocks) w'"
      unfolding asked_def by blast
    then show ?thesis by (simp add: Inr)
  qed simp
qed

lemma words_spec:
  "hoare (asked ms (\<lambda>a. message_uses a = uses)) (words_beside_approval (io ag) rc ms' tus)
     (\<lambda>_. asked ms (\<lambda>a. message_uses a = uses)) (\<lambda>_ _. True)"
    (is "hoare ?A _ _ _")
proof -
  have "keeps view (ae_complete (io ag) (complete_call rc (words_ask ms' tus) True))"
    by (simp add: live complete_call_def)
  then have c: "hoare ?A (tryA (ae_complete (io ag) (complete_call rc (words_ask ms' tus) True))
      (\<lambda>_. returnA [])) (\<lambda>_. ?A) (\<lambda>_ _. True)"
    by (intro keeps_asked keeps_try keeps_return)
  have add: "hoare ?A (bindA (add_text_to_last_assistant env conversation words) (\<lambda>_. returnA ()))
      (\<lambda>_. ?A) (\<lambda>_ _. True)" for words
    by (rule hoare_bind [OF add_text_spec]) (simp add: hoare_return)
  show ?thesis
    unfolding words_beside_approval_def chat_io_def
    by (simp, rule hoare_bind [OF c [unfolded chat_io_def, simplified]])
       (auto intro: add hoare_return)
qed

lemma suspend_spec:
  assumes "uses \<noteq> []"
  shows "hoare (asked ms (\<lambda>a. message_uses a = uses)) (suspend_turn (io ag) rc ms' blocks tus)
    settled (\<lambda>_ _. True)"
    (is "hoare ?A _ _ _")
proof -
  have words: "hoare ?A (if has_words blocks then returnA ()
      else words_beside_approval (io ag) rc ms' tus) (\<lambda>_. ?A) (\<lambda>_ _. True)"
    by (auto intro: words_spec hoare_return)
  have create: "hoare ?A (ae_create_approvals (io ag) s gs an) (\<lambda>_. ?A) (\<lambda>_ _. True)" for s gs an
    by (rule keeps_asked) (simp add: services)
  have emits: "hoare ?A (forA (\<lambda>x. ae_emit (io ag) k n (p x)) created) (\<lambda>_. ?A) (\<lambda>_ _. True)"
    for k n p and created :: "'x list"
    by (rule keeps_asked) (auto intro!: turn_keeps keeps_emit)
  show ?thesis
    unfolding suspend_turn_def
    by (rule hoare_bind [OF words], rule hoare_bind [OF create], rule hoare_bind [OF emits],
        rule hoare_return) (auto simp: settled_def dest: asked_waits [OF _ assms])
qed

lemma finish_spec:
  assumes "tool_uses_of blocks = []"
  shows "hoare (asked ms (\<lambda>a. a = message ''assistant'' blocks))
    (bindA (liftR (finalize_output (io ag) blocks schema)) (\<lambda>v. returnA (Output v)))
    settled (\<lambda>_ _. True)"
    (is "hoare ?A _ _ _")
proof -
  have "hoare ?A (liftR (finalize_output (io ag) blocks schema)) (\<lambda>_. ?A) (\<lambda>_ _. True)"
    by (rule keeps_asked [OF keeps_liftR])
  moreover have "settled (Output v) w" if a: "?A w" for v w
  proof -
    obtain v' m rows where m: "view w = v' @ [m]" "newer m v'" "\<not> cm_partial m" "\<not> is_marker m"
      "canonical m = message ''assistant'' blocks" "stored_ok (ch_numbers env) v'"
      "history_of (ch_numbers env) v' = Inr rows" "map canonical rows = ms" "paired ms"
      using a by (auto simp: asked_def)
    have "history_is (rows @ [m]) w"
      using m by (auto simp: history_is_def intro!: stored_ok_snoc history_snoc)
    moreover have "paired (ms @ [message ''assistant'' blocks])"
      by (rule paired_append [OF m(9)]) (simp add: assms)
    ultimately have "history_w (ms @ [message ''assistant'' blocks]) w"
      unfolding history_w_def using m(5,8) by (intro exI [of _ "rows @ [m]"]) simp
    then show ?thesis by (auto simp: settled_def)
  qed
  ultimately show ?thesis by (blast intro: hoare_bind hoare_return)
qed

lemma results_spec:
  assumes next_turn: "\<And>results. hoare (history_w (ms @ [message ''assistant'' blocks,
      message ''user'' results])) (rest results) settled (\<lambda>_ _. True)"
  shows "hoare (asked ms (\<lambda>a. a = message ''assistant'' blocks))
    (bindA (execute_tool_uses (io ag) decisions by_name ctx n (tool_uses_of blocks))
      (\<lambda>(results, terminal).
        bindA (ae_save (io ag) n ''user'' results) (\<lambda>_.
          case terminal of
            Some (PDict d) \<Rightarrow> returnA (Output (PDict d))
          | Some _ \<Rightarrow> returnA (Output (PDict []))
          | None \<Rightarrow> rest results))) settled (\<lambda>_ _. True)"
    (is "hoare ?A _ _ _")
proof (rule hoare_bind [OF execute_results [of ?A]], simp add: asked_def, clarsimp, rule hoare_pure)
  fix results :: "pydict list" and terminal :: "pyval option"
  assume r: "result_ids results = map call_id (tool_uses_of blocks) \<and> plain results"
  have save: "hoare ?A (ae_save (io ag) n ''user'' results)
      (\<lambda>_. history_w (ms @ [message ''assistant'' blocks, message ''user'' results])) (\<lambda>_ _. True)"
    by (rule hoare_weaken [OF save_results_spec]) (use r in auto)
  show "hoare ?A (bindA (ae_save (io ag) n ''user'' results) (\<lambda>_.
      case terminal of
        Some (PDict d) \<Rightarrow> returnA (Output (PDict d))
      | Some _ \<Rightarrow> returnA (Output (PDict []))
      | None \<Rightarrow> rest results)) settled (\<lambda>_ _. True)"
    by (rule hoare_bind [OF save])
       (auto split: option.splits pyval.splits simp: settled_def intro!: hoare_return next_turn)
qed

lemma loop_spec:
  assumes "rc_scope rc = conversation"
  shows "hoare (history_w ms) (tool_loop (io ag) rc n ms) settled (\<lambda>_ _. True)"
proof (induction n arbitrary: ms)
  case 0
  then show ?case by (auto intro: hoare_raise)
next
  case (Suc n)
  have suspend: "hoare (asked ms (\<lambda>a. a = message ''assistant'' blocks))
      (suspend_turn (io ag) rc ms' blocks (tool_uses_of blocks)) settled (\<lambda>_ _. True)"
    if "tool_uses_of blocks \<noteq> []" for ms' blocks
    by (rule hoare_weaken [OF suspend_spec [of "map call_id (tool_uses_of blocks)" ms]])
       (use that in \<open>auto simp: asked_def\<close>)
  show ?case
    unfolding tool_loop.simps Let_def
    by (rule hoare_bind [OF complete_spec [OF assms]],
        intro hoare_if finish_spec suspend results_spec)
       (simp_all add: Suc.IH)
qed

section \<open>A run and its resumption\<close>

lemma plain_user_content: "plain attachments \<Longrightarrow> plain (user_content m attachments)"
  by (auto simp: user_content_def plain_def dget_def COMPACTION_BLOCK_def split: option.splits)

lemma keeps_history_w:
  "keeps view a \<Longrightarrow> hoare (history_w ms) a (\<lambda>_. history_w ms) (\<lambda>_ _. True)"
  by (rule hoare_weaken [OF hoare_keepsP]) (auto simp: history_w_def history_is_def)

lemma run_spec:
  assumes "rq_scope rq = conversation" and "plain attachments"
  shows "hoare (history_w ms) (run_agent (io ag) rq enabled ms m attachments) settled (\<lambda>_ _. True)"
proof -
  let ?c = "user_content m attachments"
  let ?ms = "ms @ (if ?c = [] then [] else [message ''user'' ?c])"
  have save: "hoare (history_w ms) (if ?c = [] then returnA () else ae_save (io ag) n ''user'' ?c)
      (\<lambda>_. history_w ?ms) (\<lambda>_ _. True)" for n
  proof (cases "?c = []")
    case False
    have "hoare (\<lambda>w. history_w ms w \<and> paired ms) (ae_save (io ag) n ''user'' ?c)
        (\<lambda>_. history_w ?ms) (\<lambda>_ _. True)"
    proof (rule hoare_pure, rule hoare_weaken [OF save_user_spec [OF plain_user_content [OF assms(2)]]])
      fix x w
      assume "paired ms" and "\<exists>rows. history_is rows w \<and> map canonical rows = ms @ [message ''user'' ?c]"
      then show "history_w ?ms w"
        using False paired_append [of ms "[message ''user'' ?c]"] by (auto simp: history_w_def)
    qed (auto simp: history_w_def)
    from hoare_weaken [OF this, of "history_w ms" "\<lambda>_. history_w ?ms" "\<lambda>_ _. True"] False
    show ?thesis by (auto simp: history_w_def)
  qed (auto intro: hoare_return)
  show ?thesis
    unfolding run_agent_def Let_def
  proof (rule hoare_bind [OF keeps_history_w [OF keeps_tools]])
    fix x :: "llm_tool list \<times> (string \<times> 'h system_tool) list"
    obtain tools by_name where x: "x = (tools, by_name)" by (cases x)
    show "hoare (history_w ms) (case x of (tools, by_name) \<Rightarrow>
      bindA (approval_names_for (io ag) (ag_id (rq_agent rq)) enabled) (\<lambda>names.
      bindA (if ?c = [] then returnA () else ae_save (io ag) (rq_node_id rq) ''user'' ?c) (\<lambda>_.
      bindA (ae_emit (io ag) ''agent_thinking'' (rq_node_id rq)
        [(''agent_id'', PStr (ag_id (rq_agent rq))),
         (''tools_available'', PInt (int (length tools)))]) (\<lambda>_.
      tool_loop (io ag)
        \<lparr>rc_agent = rq_agent rq, rc_scope = rq_scope rq, rc_node_id = rq_node_id rq,
         rc_system = resolved_system (ae_rt (io ag)) rq, rc_tools = tools,
         rc_system_by_name = by_name, rc_approval_names = names,
         rc_call_context = base_call_context (rq_agent rq) (rq_scope rq) (rq_node_id rq)
           (rq_extra_context rq)\<rparr> MAX_TOOL_ITERATIONS ?ms)))) settled (\<lambda>_ _. True)"
      unfolding x prod.case chat_io_fields(9)
      by (rule hoare_bind [OF keeps_history_w [OF keeps_names]], rule hoare_bind [OF save],
          rule hoare_bind [OF keeps_history_w [OF keeps_emit]], rule loop_spec)
         (simp add: assms(1))
  qed
qed

lemma resume_with_spec:
  assumes "rq_scope rq = conversation" and "waiting history"
  shows "hoare (\<lambda>w. \<exists>rows. history_is rows w \<and> map canonical rows = history)
    (resume_with (io ag) rq history decisions) settled (\<lambda>_ _. True)"
    (is "hoare ?H _ _ _")
proof -
  let ?tus = "tool_uses_of (message_blocks (last history))"
  have H: "?H w \<Longrightarrow> view w' = view w \<Longrightarrow> ?H w'" for w w' unfolding history_is_def by metis
  have quiet: "hoare ?H m (\<lambda>_. ?H) (\<lambda>_ _. True)" if "keeps view m" for m :: "('w, 'x) act"
    by (rule hoare_weaken [OF hoare_keepsP [OF that, of ?H]]) (erule (1) H, simp_all)
  have uses: "message_uses (last history) = map call_id ?tus"
    using assms(2) by (auto simp: waiting_def message_uses_def split: if_splits)
  have save: "hoare (\<lambda>w. ?H w \<and> result_ids results = map call_id ?tus \<and> plain results)
      (ae_save (io ag) n ''user'' results) (\<lambda>_. history_w (history @ [message ''user'' results]))
      (\<lambda>_ _. True)" for n results
  proof (rule hoare_pure, elim conjE)
    assume ids: "result_ids results = map call_id ?tus" and "plain results"
    have "paired (butlast history @ [last history, message ''user'' results])"
      using assms(2) ids uses by (intro paired_append) (simp_all add: waiting_def)
    moreover have "butlast history @ [last history, message ''user'' results]
        = history @ [message ''user'' results]"
      using assms(2) append_butlast_last_id [of history] by (simp add: waiting_def del: append_butlast_last_id)
    ultimately have "paired (history @ [message ''user'' results])" by simp
    then show "hoare ?H (ae_save (io ag) n ''user'' results)
        (\<lambda>_. history_w (history @ [message ''user'' results])) (\<lambda>_ _. True)"
      by (intro hoare_weaken [OF save_user_spec [OF \<open>plain results\<close>]]) (auto simp: history_w_def)
  qed
  have rest: "hoare (history_w ms) (if b then returnA (Output v) else run_agent (io ag) rq True ms None [])
      settled (\<lambda>_ _. True)" for ms b v
    by (auto simp: settled_def plain_def intro!: hoare_return run_spec assms(1))
  have emits: "hoare ?H (forA (\<lambda>(_, ap). emit_unit env conversation ag k n (p ap)) decisions)
      (\<lambda>_. ?H) (\<lambda>_ _. True)" for k n p
    by (rule quiet) (auto intro!: keeps_for keeps_emit split: prod.splits)
  show ?thesis
    unfolding resume_with_def Let_def chat_io_fields(9)
  proof (rule hoare_bind [OF quiet [OF keeps_tools]], clarify, rule hoare_bind [OF emits],
      rule hoare_bind [OF execute_results [of ?H, OF H]], assumption, assumption)
    fix x :: "pydict list \<times> pyval option"
    obtain results t where x: "x = (results, t)" by (cases x)
    show "hoare (\<lambda>w. ?H w \<and> result_ids (fst x) = map call_id ?tus \<and> plain (fst x))
        (case x of (results, _) \<Rightarrow> bindA (ae_save (io ag) (rq_node_id rq) ''user'' results) (\<lambda>_.
          if \<not> should_reinvoke ?tus decisions then returnA (Output (PStr []))
          else run_agent (io ag) rq True (history @ [message ''user'' results]) None []))
        settled (\<lambda>_ _. True)"
      unfolding x fst_conv prod.case by (rule hoare_bind [OF save rest])
  qed
qed

lemma history_rows_spec:
  "history_is rows w \<Longrightarrow> history_rows env conversation w = Some (Inr rows, w)"
  by (simp add: history_rows_def history_is_def stored_def act_simps)

lemma send_spec:
  assumes "history_is rows w" and "paired (map canonical rows)" and "plain attachments"
    and "send env ag conversation m sp extra attachments policy w = Some (Inr r, w')"
  shows "settled r w'"
proof -
  let ?Q = "\<lambda>rows' w. history_w (map canonical rows') w"
  have compact: "hoare (history_is rows) (compact_if_due env ag conversation rows sp tz policy) ?Q
      (\<lambda>_ _. True)" for tz
    by (rule hoare_weaken [OF compact_spec])
       (use assms(2) in \<open>auto simp: history_w_def dest: paired_compacted [OF assms(2)]\<close>)
  have same: "hoare (history_is rows) (returnA rows) ?Q (\<lambda>_ _. True)"
    using assms(2) by (auto simp: history_w_def intro!: hoare_return)
  have "hoare (history_is rows)
      (bindA (if c then compact_if_due env ag conversation rows sp tz policy else returnA rows)
        (\<lambda>rows'. run_agent (io ag) (chat_request ag conversation sp extra) True (map canonical rows') m
          attachments)) settled (\<lambda>_ _. True)" for c tz
    by (rule hoare_bind [OF hoare_if [OF compact same]], rule run_spec)
       (simp_all add: chat_request_def assms(3))
  from hoare_Inr [OF this assms(1)] assms(4) show ?thesis
    by (simp add: send_def bindA_def [of "history_rows _ _"] history_rows_spec [OF assms(1)])
qed

lemma resume_spec:
  assumes "history_is rows w" and "waiting (map canonical rows)"
    and "resume env ag conversation sp extra w = Some (Inr r, w')"
  shows "settled r w'"
proof -
  let ?h = "map canonical rows" and ?rq = "chat_request ag conversation sp extra"
  let ?H = "\<lambda>w. \<exists>rows. history_is rows w \<and> map canonical rows = ?h"
  have decisions: "hoare ?H (ae_decisions (io ag) s) (\<lambda>_. ?H) (\<lambda>_ _. True)" for s
    by (rule hoare_weaken [OF hoare_keepsP [where view = view]])
       (auto simp: services, auto simp: history_is_def)
  have start: "?H w" using assms(1) by blast
  have run: "hoare ?H (resume_agent (io ag) ?rq ?h) settled (\<lambda>_ _. True)"
    unfolding resume_agent_def
    by (intro hoare_if hoare_raise hoare_bind [OF decisions] resume_with_spec [OF _ assms(2)])
       (simp_all add: chat_request_def)
  have "load_conversation env conversation w = Some (Inr ?h, w)"
    by (simp add: load_conversation_def bindA_def history_rows_spec [OF assms(1)] returnA_def)
  then have "resume_agent (io ag) ?rq ?h w = Some (Inr r, w')"
    using assms(3) by (simp add: resume_def bindA_def)
  with run start show ?thesis by (rule hoare_Inr)
qed

end

text \<open>
  C5 (invariant). A turn keeps the history of a conversation answered. From a history in which
  every tool call has its result, a turn that returns leaves such a history; a turn that is
  suspended leaves one whose last message holds the calls that await approval, and resuming
  that one leads again to one of the two.
\<close>

theorem turns_keep_history_answered:
  assumes "chat_host env conversation" and "stored_ok (ch_numbers env) (stored env conversation w)"
    and "history_of (ch_numbers env) (stored env conversation w) = Inr rows"
    and "paired (map canonical rows) \<and> plain attachments \<and>
        send env ag conversation m sp extra attachments policy w = Some (Inr r, w') \<or>
      waiting (map canonical rows) \<and> resume env ag conversation sp extra w = Some (Inr r, w')"
  shows "\<exists>rows'. stored_ok (ch_numbers env) (stored env conversation w') \<and>
    history_of (ch_numbers env) (stored env conversation w') = Inr rows' \<and>
    (case r of Output _ \<Rightarrow> paired (map canonical rows')
     | SuspendedForApproval _ \<Rightarrow> waiting (map canonical rows'))"
proof -
  have h: "chat_host.history_is env conversation rows w"
    using assms(2,3) by (simp add: chat_host.history_is_def [OF assms(1)])
  have "chat_host.settled env conversation r w'"
    using assms(4) chat_host.send_spec [OF assms(1) h] chat_host.resume_spec [OF assms(1) h] by blast
  then show ?thesis
    by (auto simp: chat_host.settled_def [OF assms(1)] chat_host.history_w_def [OF assms(1)]
        chat_host.history_is_def [OF assms(1)] split: run_result.splits)
qed

section \<open>A conversation at work\<close>

text \<open>
  The tables, the keyspaces and the number of completions are the world; the provider plays a
  script and stores each reply, and every summary is the same.
\<close>

record chat_world =
  cw_rows :: "conv_message list"
  cw_redis :: "jtext keyspace"
  cw_calls :: nat
  cw_table :: approval_table
  cw_lock :: "string keyspace"
  cw_conversations :: "conversation list"
  cw_who :: attribution

definition cw_ops :: "chat_world store" where
  "cw_ops = lift_redis cw_redis (\<lambda>r w. w\<lparr>cw_redis := r\<rparr>) keyspace_ops"

definition chat_script :: "pydict list list" where
  "chat_script = [[[(''type'', PStr ''text''), (''text'', PStr ''Shall I?'')],
     tool_use_block ''u1'' ''send_mail'']]"

definition chat_reply :: "llm_call \<Rightarrow> (chat_world, pydict list) act" where
  "chat_reply c = stepA (\<lambda>w.
     if lc_words_only c then (Inr [[(''type'', PStr ''text''), (''text'', PStr ''Shall I?'')]], w)
     else
       let blocks = (if cw_calls w < length chat_script then chat_script ! cw_calls w else []);
           m = \<lparr>cm_id = ''a'' @ nat_str (cw_calls w), cm_conversation = lc_scope c,
                cm_sequence = max_sequence cm_sequence (rows_of (lc_scope c) (cw_rows w)) + 1,
                cm_role = ''assistant'', cm_content = map PDict blocks, cm_partial = False,
                cm_agent = Some ''assistant''\<rparr>
       in (Inr blocks, w\<lparr>cw_rows := cw_rows w @ [m], cw_calls := Suc (cw_calls w)\<rparr>))"

definition sample_chat_agent :: "(chat_world, string) agent_env" where
  "sample_chat_agent =
     \<lparr>ae_rt = \<lparr>rt_getattr = \<lambda>_ _. PNone, rt_float_str = \<lambda>_. []\<rparr>,
      ae_tools = [(''send_mail'', sample_tool ''send_mail''), (''look_up'', sample_tool ''look_up'')],
      ae_call_tool = (\<lambda>h i c. returnA (PStr ''done'')),
      ae_list_mcp = returnA [],
      ae_call_mcp = (\<lambda>n i. raiseA (OtherError ''KeyError'' ''no such tool'')),
      ae_operations = (\<lambda>_. returnA []),
      ae_grants = (\<lambda>_. returnA
        [\<lparr>tg_tool_name = ''send_mail'', tg_requires_approval = True, tg_deferred = False\<rparr>,
         \<lparr>tg_tool_name = ''look_up'', tg_requires_approval = False, tg_deferred = False\<rparr>]),
      ae_complete = chat_reply,
      ae_emit = (\<lambda>_ _ _. returnA ()), ae_save = (\<lambda>_ _ _. returnA ()), ae_add_words = None,
      ae_create_approvals = (\<lambda>scope tus name. stepA (\<lambda>w.
        case create_pending_approvals \<lparr>rt_getattr = \<lambda>_ _. PNone, rt_float_str = \<lambda>_. []\<rparr>
          (\<lambda>i. nat_str (length (cw_table w) + i)) scope tus name (cw_table w) of
          Inl e \<Rightarrow> (Inl e, w)
        | Inr (rows, table) \<Rightarrow> (Inr rows, w\<lparr>cw_table := table\<rparr>))),
      ae_decisions = (\<lambda>scope. readA (\<lambda>w. decisions_by_tool_use (cw_table w) scope)),
      ae_json_parse = (\<lambda>_. Inl ''Expecting value''),
      ae_schema_error = (\<lambda>_ _. None),
      ae_runtime_error = (\<lambda>name. name = ''RuntimeError'')\<rparr>"

definition sample_chat_env :: "(chat_world, string) chat_env" where
  "sample_chat_env =
     \<lparr>ch_em = \<lparr>em_redis = cw_ops, em_ttl = 3600, em_channel_prefix = ''run'',
        em_events = (\<lambda>_. []), em_add_event = (\<lambda>_ w. w), em_messages = (\<lambda>_. []),
        em_add_message = (\<lambda>_ w. w), em_publish = (\<lambda>_ _. returnA ()), em_now = returnA ''t'',
        em_new_id = returnA ''row'', em_others = (\<lambda>w. w)\<rparr>,
      ch_agent = sample_chat_agent, ch_numbers = \<lparr>nt_int = (\<lambda>_. None), nt_float = (\<lambda>_. None)\<rparr>,
      ch_rows = cw_rows, ch_put = (\<lambda>ms w. w\<lparr>cw_rows := ms\<rparr>),
      ch_usage = (\<lambda>_. [(sample_row ''m1'' None 0)\<lparr>ur_scope := ''c1'', ur_message := Some ''m4'',
         ur_total := 100\<rparr>]),
      ch_model = (\<lambda>_. PStr ''m1''),
      ch_summary = (\<lambda>_. returnA (Some [(''type'', PStr ''summary'')])),
      ch_count = (\<lambda>_ c. returnA (Some (int (length (sc_messages c)) * 20)))\<rparr>"

lemma cw_set: "cw_rows (r_set cw_ops k v ttl w) = cw_rows w"
  by (simp add: cw_ops_def lift_redis_def)

lemma chat_script_plain: "i < length chat_script \<Longrightarrow> plain (chat_script ! i)"
  by (auto simp: chat_script_def plain_def tool_use_block_def dget_def COMPACTION_BLOCK_def less_Suc_eq)

interpretation sample_chat: chat_host sample_chat_env "''c1''"
proof (unfold_locales, goal_cases)
  case (17 call w blocks w')
  let ?s = "max_sequence cm_sequence (rows_of ''c1'' (cw_rows w)) + 1"
  let ?m = "\<lparr>cm_id = ''a'' @ nat_str (cw_calls w), cm_conversation = ''c1'', cm_sequence = ?s,
    cm_role = ''assistant'', cm_content = map PDict blocks, cm_partial = False,
    cm_agent = Some ''assistant''\<rparr>"
  have w': "cw_rows w' = cw_rows w @ [?m]" and plain: "plain blocks"
    using 17 chat_script_plain [of "cw_calls w"]
    by (auto simp: sample_chat_env_def sample_chat_agent_def chat_reply_def stepA_def Let_def
        plain_def split: if_splits)
  have s: "\<forall>r \<in> set (rows_of ''c1'' (cw_rows w)). cm_sequence r < ?s"
    using max_sequence_all [of "rows_of ''c1'' (cw_rows w)" cm_sequence] by fastforce
  then have new: "newer ?m (in_order ''c1'' (cw_rows w))"
    by (simp add: newer_def in_order_def rows_of_def)
  have "stored sample_chat_env ''c1'' w' = stored sample_chat_env ''c1'' w @ [?m]"
    using in_order_snoc [OF _ new] w' by (simp add: stored_def sample_chat_env_def)
  moreover have "\<not> is_marker ?m" by (rule plain_no_marker [OF _ plain]) simp
  ultimately show ?case
    using new by (intro exI [of _ ?m]) (simp add: canonical_message stored_def sample_chat_env_def)
qed (auto simp: sample_chat_env_def sample_chat_agent_def stored_def cw_set keeps_def act_simps
       chat_reply_def Let_def split: sum.splits prod.splits if_splits)

definition chat_row :: "string \<Rightarrow> int \<Rightarrow> string \<Rightarrow> pydict \<Rightarrow> conv_message" where
  "chat_row i n role block = \<lparr>cm_id = i, cm_conversation = ''c1'', cm_sequence = n, cm_role = role,
     cm_content = [PDict block], cm_partial = False, cm_agent = None\<rparr>"

definition chat_rows :: "conv_message list" where
  "chat_rows =
     [chat_row ''m1'' 1 ''user'' [(''type'', PStr ''text''), (''text'', PStr ''a'')],
      chat_row ''m2'' 2 ''assistant'' [(''type'', PStr ''text''), (''text'', PStr ''b'')],
      chat_row ''m3'' 3 ''user'' [(''type'', PStr ''image'')],
      chat_row ''m4'' 4 ''assistant'' [(''type'', PStr ''text''), (''text'', PStr ''d'')]]"

definition chat_start :: chat_world where
  "chat_start = \<lparr>cw_rows = chat_rows, cw_redis = empty_keyspace, cw_calls = 0, cw_table = [],
     cw_lock = empty_keyspace,
     cw_conversations = [\<lparr>cv_id = ''c1'', cv_user = Some ''u1'', cv_title = None, cv_updated = 0\<rparr>],
     cw_who = no_attribution\<rparr>"

definition chat_policy :: context_policy where
  "chat_policy = \<lparr>cp_clear_tool_results_at = None, cp_keep_tool_results = 4, cp_clear_at_least = 0,
     cp_compact_at = Some 50, cp_compact_min_gain = 10, cp_instructions = None\<rparr>"

lemma chat_start_ok:
  "stored_ok (ch_numbers sample_chat_env) (stored sample_chat_env ''c1'' chat_start)"
  "history_of (ch_numbers sample_chat_env) (stored sample_chat_env ''c1'' chat_start) = Inr chat_rows"
proof -
  have "stored sample_chat_env ''c1'' chat_start = chat_rows" and "list_all (\<lambda>m. \<not> is_marker m) chat_rows"
    by code_simp+
  then show "stored_ok (ch_numbers sample_chat_env) (stored sample_chat_env ''c1'' chat_start)"
    by (simp add: stored_ok_def list_all_iff) (simp add: chat_rows_def chat_row_def)
qed code_simp

lemma chat_compacts:
  "case compact_if_due sample_chat_env chat_agent ''c1'' chat_rows (Some []) PNone (Some chat_policy)
      chat_start of
     Some (Inr rows, _) \<Rightarrow> map cm_sequence rows = [5, 4]
   | _ \<Rightarrow> False"
  by code_simp

text \<open>The image of the third message keeps its number: the next one is the second.\<close>

theorem compaction_reloads_witness:
  "\<exists>rows w'. compact_if_due sample_chat_env chat_agent ''c1'' chat_rows (Some []) PNone
       (Some chat_policy) chat_start = Some (Inr rows, w') \<and>
     map cm_sequence rows = [5, 4] \<and>
     history_of (ch_numbers sample_chat_env) (stored sample_chat_env ''c1'' w') = Inr rows \<and>
     media_counts (ch_numbers sample_chat_env) rows = Inr [(''image'', 1), (''video'', 0)]"
proof -
  obtain rows w' where r: "compact_if_due sample_chat_env chat_agent ''c1'' chat_rows (Some []) PNone
      (Some chat_policy) chat_start = Some (Inr rows, w')" "map cm_sequence rows = [5, 4]"
    using chat_compacts by (auto split: option.splits prod.splits sum.splits)
  have "media_counts (ch_numbers sample_chat_env) chat_rows = Inr [(''image'', 1), (''video'', 0)]"
    by code_simp
  with r compaction_reloads [OF sample_chat.chat_host_axioms chat_start_ok r(1)]
  show ?thesis by auto
qed

lemma chat_sends:
  "case send sample_chat_env chat_agent ''c1'' (Some ''mail it'') (Some []) None [] None
      chat_start of
     Some (Inr (SuspendedForApproval aps), _) \<Rightarrow> map ta_tool_name aps = [''send_mail'']
   | _ \<Rightarrow> False"
  by code_simp

theorem turns_keep_history_answered_witness:
  "\<exists>aps w' rows. send sample_chat_env chat_agent ''c1'' (Some ''mail it'') (Some []) None []
       None chat_start = Some (Inr (SuspendedForApproval aps), w') \<and>
     history_of (ch_numbers sample_chat_env) (stored sample_chat_env ''c1'' w') = Inr rows \<and>
     waiting (map canonical rows)"
proof -
  obtain aps w' where r: "send sample_chat_env chat_agent ''c1'' (Some ''mail it'') (Some []) None []
      None chat_start = Some (Inr (SuspendedForApproval aps), w')"
    using chat_sends by (auto split: option.splits prod.splits sum.splits run_result.splits)
  have "paired (map canonical chat_rows)" by code_simp
  with r turns_keep_history_answered [OF sample_chat.chat_host_axioms chat_start_ok,
      of "[]" chat_agent "Some ''mail it''" "Some []" None None]
  show ?thesis by (fastforce simp: plain_def)
qed

end
