(* ===== verification/ChatTurnSpec.thy ===== *)
theory ChatTurnSpec
  imports ChatTurn ChatSpec
begin

text \<open>
  What the requests of a conversation guarantee: they leave an answered history, end a stopped
  turn with an answer, store nothing when they refuse, and come back after a bounded number of
  completions.
\<close>

section \<open>What a request relies on\<close>

locale turn_host = chat_host "tu_chat env" conversation
  for env :: "('w, 'h) turn_env" and conversation :: string +
  assumes lock: "stored (tu_chat env) conversation (snd (r_set_nx (tu_lock env) k v ttl w))
        = stored (tu_chat env) conversation w"
      "stored (tu_chat env) conversation (r_sadd (tu_lock env) k xs w) = stored (tu_chat env) conversation w"
      "stored (tu_chat env) conversation (r_srem (tu_lock env) k x w) = stored (tu_chat env) conversation w"
      "stored (tu_chat env) conversation (r_expire (tu_lock env) k ttl w)
        = stored (tu_chat env) conversation w"
      "stored (tu_chat env) conversation (snd (r_delete (tu_lock env) ks w))
        = stored (tu_chat env) conversation w"
    and attribution: "stored (tu_chat env) conversation (us_set_attribution (tu_usage env) who w)
        = stored (tu_chat env) conversation w"
    and put_tables: "stored (tu_chat env) conversation (tu_put env t w) = in_order conversation (ct_messages t)"
    and resolver: "tu_resolver env = Some r \<Longrightarrow> keeps (stored (tu_chat env) conversation) (resolve_agent r c q)"
    and hooks: "tu_admission env = Some f1 \<Longrightarrow> keeps (stored (tu_chat env) conversation) (f1 u c)"
      "tu_context env = Some f2 \<Longrightarrow> keeps (stored (tu_chat env) conversation) (f2 c ag q)"
      "tu_turn_context env = Some (PlainHook f3) \<Longrightarrow> keeps (stored (tu_chat env) conversation) (f3 c ag)"
      "tu_turn_context env = Some (QueryHook f4) \<Longrightarrow> keeps (stored (tu_chat env) conversation) (f4 c ag q)"
      "tu_timezone env = Some f5 \<Longrightarrow> keeps (stored (tu_chat env) conversation) (f5 u)"
      "tu_images env = Some (PlainImages f6) \<Longrightarrow> keeps (stored (tu_chat env) conversation) (f6 u ag c)"
      "tu_images env = Some (MediaImages f7) \<Longrightarrow>
        keeps (stored (tu_chat env) conversation) (f7 u ag c ids)"
      "tu_policy env = Some f8 \<Longrightarrow> keeps (stored (tu_chat env) conversation) (f8 ag)"
      "tu_metering env = Some f9 \<Longrightarrow> keeps (stored (tu_chat env) conversation) (f9 u i ag out)"
      "tu_titling env = Some f10 \<Longrightarrow> keeps (stored (tu_chat env) conversation) (f10 i u ag)"
begin

lemma keeps_best: "keeps view m \<Longrightarrow> keeps view (best_effort m)"
  by (simp add: best_effort_def keeps_intros)

lemma keeps_augment: "keeps view (augment_system_prompt env c ag q)"
  using hooks(2) by (auto simp: augment_system_prompt_def Let_def split: option.splits
      intro!: keeps_intros keeps_best)

lemma keeps_turn_context: "keeps view (turn_context_block env c ag q)"
  using hooks(3,4) by (auto simp: turn_context_block_def split: option.splits turn_hook.splits
      intro!: keeps_intros keeps_best)

lemma keeps_call_context: "keeps view (turn_call_context env u)"
  using hooks(5) by (auto simp: turn_call_context_def split: option.splits intro!: keeps_intros keeps_best)

lemma keeps_images: "keeps view (image_resolver env c ag u ids)"
  using hooks(6,7) by (auto simp: image_resolver_def split: option.splits image_hook.splits
      intro!: keeps_intros)

lemma keeps_policy: "keeps view (context_policy_of env ag)"
  using hooks(8) by (auto simp: context_policy_of_def split: option.splits intro!: keeps_intros keeps_best)

lemma keeps_admit: "keeps view (admit_turn env u c)"
  using hooks(1) by (auto simp: admit_turn_def split: option.splits intro!: keeps_intros)

lemma keeps_owned: "keeps view (get_owned env c u)"
  by (auto simp: get_owned_def split: sum.splits intro!: keeps_intros)

lemma keeps_response: "keeps view (turn_response_of env c u ag r)"
  using hooks(9) by (auto simp: turn_response_of_def split: run_result.splits option.splits
      intro!: keeps_intros)

lemma keeps_titling: "keeps view (spawn_titling env c ag r)"
  using hooks(10) by (auto simp: spawn_titling_def split: option.splits turn_response.splits
      intro!: keeps_intros)

lemma keeps_clear: "keeps view (clear_abort env c)"
  by (simp add: clear_abort_def keeps_write lock)

lemma keeps_routing: "keeps view (emit_routing_decided env c a b)"
proof -
  have "keeps view (conversation_emit (ch_em (tu_chat env)) c an k n p)" for an k n p
    by (auto simp: conversation_emit_def ephemeral_emit_def redis_event_sequence_def
        publish_run_event_def split: option.splits intro!: turn_keeps)
  then show ?thesis by (auto simp: emit_routing_decided_def intro!: keeps_intros)
qed

lemma turn_next_keeps: "view (snd (turn_next (tu_lock env) t p w)) = view w"
  by (cases p) (simp_all add: lock)

lemma keeps_take: "keeps view (take_turn env c u)"
  unfolding take_turn_def
  by (intro keeps_bind channel keeps_step)
     (auto simp: enter_turn_def Let_def turn_next_keeps lock split: prod.splits dest: arg_cong [of _ _ snd])

lemma keeps_leave: "keeps view (leave_turn env t)"
  unfolding leave_turn_def by (intro keeps_write) (auto simp: Let_def turn_next_keeps lock split: prod.splits)

lemma keeps_attribution: "keeps view (writeA (us_set_attribution (tu_usage env) who))"
  by (rule keeps_write) (rule attribution)

lemmas request_keeps = keeps_augment keeps_turn_context keeps_call_context keeps_images keeps_policy
  keeps_admit keeps_owned keeps_response keeps_titling keeps_clear keeps_routing keeps_take keeps_leave
  keeps_attribution resolver

section \<open>Histories through a request\<close>

definition answered :: "'w \<Rightarrow> bool" where
  "answered w \<longleftrightarrow> (\<exists>ms. history_w ms w)"

definition awaiting :: "'w \<Rightarrow> bool" where
  "awaiting w \<longleftrightarrow> (\<exists>rows. history_is rows w \<and> waiting (map canonical rows))"

definition view_only :: "('w \<Rightarrow> bool) \<Rightarrow> bool" where
  "view_only P \<longleftrightarrow> (\<forall>w w'. view w' = view w \<longrightarrow> P w \<longrightarrow> P w')"

lemma view_only_answered: "view_only answered" and view_only_awaiting: "view_only awaiting"
  by (auto simp: view_only_def answered_def awaiting_def history_w_def history_is_def)

lemma quiet: "view_only P \<Longrightarrow> keeps view m \<Longrightarrow> hoare P m (\<lambda>_. P) (\<lambda>_ _. True)"
  by (rule hoare_weaken [OF hoare_keepsP [where P = P and view = view]])
     (auto simp: view_only_def)

lemmas answered_quiet = quiet [OF view_only_answered]
lemmas awaiting_quiet = quiet [OF view_only_awaiting]

lemma settled_cases:
  "settled (Output v) = answered" "settled (SuspendedForApproval aps) = awaiting"
  by (auto simp: settled_def answered_def awaiting_def)

lemma view_only_settled: "view_only (settled r)"
  by (cases r) (simp_all add: settled_cases view_only_answered view_only_awaiting)

lemma send_hoare:
  assumes "plain attachments"
  shows "hoare answered (send (tu_chat env) ag conversation m sp extra attachments policy) settled
    (\<lambda>_ _. True)"
proof (rule hoareI)
  fix w r w'
  assume "answered w" and r: "send (tu_chat env) ag conversation m sp extra attachments policy w
    = Some (Inr r, w')"
  then obtain rows where "history_is rows w" "paired (map canonical rows)"
    by (auto simp: answered_def history_w_def)
  then show "settled r w'" by (rule send_spec [OF _ _ assms r])
qed

lemma resume_hoare:
  "hoare awaiting (resume (tu_chat env) ag conversation sp extra) settled (\<lambda>_ _. True)"
proof (rule hoareI)
  fix w r w'
  assume "awaiting w" and r: "resume (tu_chat env) ag conversation sp extra w = Some (Inr r, w')"
  then obtain rows where "history_is rows w" "waiting (map canonical rows)"
    by (auto simp: awaiting_def)
  then show "settled r w'" by (rule resume_spec [OF _ _ r])
qed

lemma configured_resolver: "configured env = Inr rs \<Longrightarrow> tu_resolver env = Some rs"
  by (auto simp: configured_def split: if_splits option.splits)

lemma handoff_spec:
  assumes "cv_id c = conversation"
  shows "hoare answered (handoff_turn env c u q ag) settled (\<lambda>_ _. True)"
  unfolding handoff_turn_def assms
  by (rule hoare_bind [OF answered_quiet [OF keeps_augment]],
      rule hoare_bind [OF answered_quiet [OF keeps_call_context]],
      rule hoare_bind [OF answered_quiet [OF keeps_images]],
      rule hoare_bind [OF answered_quiet [OF keeps_policy]], rule send_hoare)
     (simp add: plain_def)

lemma handoffs_spec:
  assumes "cv_id c = conversation" and "tu_resolver env = Some rs"
  shows "hoare (settled r) (handoffs env rs c u q n ag r) (\<lambda>x. settled (snd x)) (\<lambda>_ _. True)"
proof (induction n arbitrary: ag r)
  case 0
  then show ?case by (cases r) (auto intro: hoare_return)
next
  case (Suc n)
  show ?case
  proof (cases r)
    case (Output v)
    have rest: "hoare (settled r') (handoffs env rs c u q n ag' r') (\<lambda>x. settled (snd x)) (\<lambda>_ _. True)"
      for ag' r' by (rule Suc.IH)
    show ?thesis
      unfolding Output handoffs.simps settled_cases
      by (rule hoare_bind [OF answered_quiet [OF resolver [OF assms(2)]]], rule hoare_if,
          rule hoare_return, simp add: settled_cases,
          rule hoare_bind [OF answered_quiet [OF keeps_routing]],
          rule hoare_bind [OF handoff_spec [OF assms(1)] rest])
  qed (auto intro: hoare_return)
qed

lemma follow_spec:
  assumes "cv_id c = conversation"
  shows "hoare (settled r) (follow_handoffs env c u q ag r) (\<lambda>x. settled (snd x)) (\<lambda>_ _. True)"
proof (cases "configured env")
  case (Inr rs)
  then show ?thesis
    using handoffs_spec [OF assms configured_resolver [OF Inr]]
    by (simp add: follow_handoffs_def hoare_def bindA_def liftR_def)
qed (auto simp: follow_handoffs_def hoare_def bindA_def liftR_def)

section \<open>The content of a request\<close>

lemma unseen_media_subset: "set (unseen_media seen refs) \<subseteq> set refs"
  by (induction seen refs rule: unseen_media.induct) auto

lemma plain_attachments:
  assumes "valid_request rq"
  shows "plain (attachment_blocks rq)"
proof -
  have kind: "fst r \<in> {''image'', ''video'', ''audio''}" if "r \<in> set (media_refs rq)" for r
  proof -
    have "r \<in> set (map (\<lambda>i. (''image'', i)) (sm_media_ids rq) @ sm_attachments rq)"
      using that unseen_media_subset unfolding media_refs_def by blast
    then consider "r \<in> set (sm_attachments rq)" | i where "r = (''image'', i)" by auto
    then show ?thesis
      using assms by cases (auto simp: valid_request_def list_all_iff)
  qed
  show ?thesis
    unfolding plain_def list_all_iff
  proof
    fix b
    assume "b \<in> set (attachment_blocks rq)"
    then obtain r where r: "r \<in> set (media_refs rq)" "dget b ''type'' = PStr (fst r)"
      by (auto simp: attachment_blocks_def dget_def)
    with kind [OF r(1)] show "dget b ''type'' \<noteq> PStr COMPACTION_BLOCK"
      by (auto simp: COMPACTION_BLOCK_def)
  qed
qed

lemma turn_context_plain:
  "hoare answered (turn_context_block env c ag q) (\<lambda>bs w. answered w \<and> plain bs) (\<lambda>_ _. True)"
proof -
  have "keeps view (case tu_turn_context env of None \<Rightarrow> returnA None
      | Some (PlainHook f) \<Rightarrow> best_effort (f c ag) | Some (QueryHook f) \<Rightarrow> best_effort (f c ag q))"
    using hooks(3,4) by (auto split: option.splits turn_hook.splits intro!: keeps_intros keeps_best)
  then show ?thesis
    unfolding turn_context_block_def
    by (intro hoare_bind [OF answered_quiet] hoare_return)
       (auto simp: plain_def dget_def COMPACTION_BLOCK_def split: option.splits)
qed

lemma run_turn_spec:
  assumes "cv_id c = conversation" and "valid_request rq"
  shows "hoare answered (run_turn env c rq u ag) (\<lambda>x. settled (snd x)) (\<lambda>_ _. True)"
proof -
  have block: "hoare answered (if sm_message rq = [] \<and> attachment_blocks rq = [] then returnA []
      else turn_context_block env c ag q) (\<lambda>bs w. answered w \<and> plain bs) (\<lambda>_ _. True)" for q
    by (intro hoare_if hoare_return turn_context_plain) (simp add: plain_def)
  have plain: "plain bs \<Longrightarrow> plain (attachment_blocks rq @ bs)" for bs
    using plain_attachments [OF assms(2)] by (simp add: plain_def)
  show ?thesis
    unfolding run_turn_def assms(1)
    by (rule hoare_bind [OF answered_quiet [OF keeps_augment]], rule hoare_bind [OF block],
        rule hoare_pure, rule hoare_bind [OF answered_quiet [OF keeps_call_context]],
        rule hoare_bind [OF answered_quiet [OF keeps_images]],
        rule hoare_bind [OF answered_quiet [OF keeps_policy]],
        rule hoare_bind [OF send_hoare follow_spec [OF assms(1)]], erule plain)
qed

section \<open>A request\<close>

definition responded :: "turn_response \<Rightarrow> 'w \<Rightarrow> bool" where
  "responded response w \<longleftrightarrow> (case response of
       Completed _ \<Rightarrow> answered w
     | Awaiting _ \<Rightarrow> awaiting w
     | Aborted \<Rightarrow> \<forall>m \<in> set (view w). \<not> cm_partial m)"

lemma view_only_responded: "view_only (responded response)"
  by (cases response)
     (auto simp: responded_def view_only_def answered_def awaiting_def history_w_def history_is_def)

lemmas responded_quiet = quiet [OF view_only_responded]

lemma response_spec:
  "hoare (settled r) (turn_response_of env c u ag r) responded (\<lambda>_ _. True)"
proof (cases r)
  case (Output v)
  have "hoare answered (case tu_metering env of None \<Rightarrow> returnA () | Some hook \<Rightarrow> hook u c ag v)
      (\<lambda>_. answered) (\<lambda>_ _. True)"
    by (rule answered_quiet) (auto split: option.splits intro!: keeps_intros hooks(9))
  then show ?thesis
    unfolding Output turn_response_of_def run_result.case settled_cases
    by (rule hoare_bind) (simp add: hoare_return responded_def)
next
  case (SuspendedForApproval aps)
  then show ?thesis
    unfolding SuspendedForApproval turn_response_of_def run_result.case settled_cases
    by (intro hoare_bind [OF awaiting_quiet [OF keeps_read]])
       (simp add: hoare_return responded_def)
qed

lemma finish_turn_spec:
  "hoare (settled r) (bindA (turn_response_of env c u ag r) (\<lambda>response.
     bindA (spawn_titling env c' ag response) (\<lambda>_. returnA response))) responded (\<lambda>_ _. True)"
  by (rule hoare_bind [OF response_spec], rule hoare_bind [OF responded_quiet [OF keeps_titling]],
      rule hoare_return)

lemma configured_bind:
  assumes "\<And>rs. tu_resolver env = Some rs \<Longrightarrow> hoare P (f rs) Q (\<lambda>_ _. True)"
  shows "hoare P (bindA (liftR (configured env)) f) Q (\<lambda>_ _. True)"
  using assms [OF configured_resolver]
  by (cases "configured env") (simp_all add: hoare_def bindA_def liftR_def)

lemma set_in_order: "set (in_order i ms) = {m \<in> set ms. cm_conversation m = i}"
  by (auto simp: in_order_def)

lemma finalized_rows:
  assumes "m \<in> set (snd (finalize_partial_messages i ms))" and "cm_conversation m = i"
  shows "\<not> cm_partial m"
proof -
  obtain r where "m = (if cm_conversation r = i \<and> cm_partial r then r\<lparr>cm_partial := False\<rparr> else r)"
    using assms(1) unfolding finalize_partial_messages_def Let_def snd_conv set_map by blast
  then show ?thesis using assms(2) by (cases "cm_conversation r = i \<and> cm_partial r") simp_all
qed

lemma finalize_spec:
  "hoare P (finalize_partials env conversation) (\<lambda>_ w. \<forall>m \<in> set (view w). \<not> cm_partial m) (\<lambda>_ _. True)"
  unfolding finalize_partials_def
proof (rule hoare_write)
  fix w
  let ?rows = "snd (finalize_partial_messages conversation (ch_rows (tu_chat env) w))"
  have rows: "view (ch_put (tu_chat env) ?rows w) = in_order conversation ?rows"
    by (simp only: stored_def put_rows)
  show "\<forall>m \<in> set (view (ch_put (tu_chat env) ?rows w)). \<not> cm_partial m"
    unfolding rows set_in_order using finalized_rows by blast
qed

lemma send_turn_spec:
  assumes "cv_id c = conversation" and "valid_request rq"
  shows "hoare answered (send_turn env c rq u) responded (\<lambda>_ _. True)"
proof -
  have refuse: "keeps view (refuse_pending env i)" for i
    by (auto simp: refuse_pending_def intro!: keeps_intros)
  have stop: "hoare P (bindA (clear_abort env conversation) (\<lambda>_.
      bindA (finalize_partials env conversation) (\<lambda>_. returnA Aborted))) responded (\<lambda>_ _. True)" for P
    by (rule hoare_bind [where R = "\<lambda>_ _. True"], rule hoareI, rule TrueI,
        rule hoare_bind [OF finalize_spec]) (simp add: hoare_return responded_def)
  have outcome: "hoare answered (bindA (attemptA is_abort (run_turn env c rq u ag)) (\<lambda>outcome.
      case outcome of
        Inl _ \<Rightarrow> bindA (clear_abort env conversation) (\<lambda>_.
          bindA (finalize_partials env conversation) (\<lambda>_. returnA Aborted))
      | Inr (last_agent, result) \<Rightarrow>
          bindA (turn_response_of env conversation u last_agent result) (\<lambda>response.
          bindA (spawn_titling env c last_agent response) (\<lambda>_. returnA response))))
      responded (\<lambda>_ _. True)" for ag
    by (rule hoare_bind [OF hoare_attempt [OF run_turn_spec [OF assms]]])
       (auto split: sum.splits prod.splits intro: stop finish_turn_spec)
  show ?thesis
    unfolding send_turn_def assms(1)
    by (rule hoare_bind [OF answered_quiet [OF refuse]], rule configured_bind,
        rule hoare_bind [OF answered_quiet [OF resolver]], assumption,
        rule hoare_bind [OF answered_quiet [OF keeps_clear]], rule outcome)
qed

lemma keeps_put_approvals: "view (put_approvals env table w) = view w"
  unfolding put_approvals_def put_tables by (simp add: tables_def stored_def)

lemma keeps_record: "keeps view (record_decision env aid d u)"
  unfolding record_decision_def
  by (intro keeps_bind channel(2) keeps_step) (auto simp: keeps_put_approvals split: prod.splits sum.splits)

lemma keeps_cascade: "keeps view (cascade_decision env c d u)"
  by (auto simp: cascade_decision_def keeps_put_approvals intro!: channel(2) keeps_write keeps_intros)

lemma keeps_owned_approval: "keeps view (owned_approval env c aid)"
  by (auto simp: owned_approval_def split: sum.splits intro!: keeps_intros)

lemma keeps_resuming:
  "tu_resolver env = Some rs \<Longrightarrow> keeps view (resuming_agent env rs c n)"
  by (auto simp: resuming_agent_def split: option.splits intro!: keeps_intros resolver)

lemma resume_turn_spec:
  assumes "cv_id c = conversation"
  shows "hoare awaiting (resume_turn env c u n) responded (\<lambda>_ _. True)"
  unfolding resume_turn_def assms
  by (rule configured_bind, rule hoare_bind [OF awaiting_quiet [OF keeps_resuming]], assumption,
      rule hoare_bind [OF awaiting_quiet [OF keeps_augment]],
      rule hoare_bind [OF awaiting_quiet [OF keeps_call_context]],
      rule hoare_bind [OF awaiting_quiet [OF keeps_images]],
      rule hoare_bind [OF awaiting_quiet [OF keeps_policy]],
      rule hoare_bind [OF resume_hoare], rule hoare_bind [OF follow_spec [OF assms]])
     (auto split: prod.splits intro: finish_turn_spec)

lemma decide_and_resume_spec:
  assumes "cv_id c = conversation"
  shows "hoare awaiting (decide_and_resume env c aid d u) responded (\<lambda>_ _. True)"
  unfolding decide_and_resume_def assms
  by (rule hoare_bind [OF awaiting_quiet [OF keeps_owned_approval]],
      rule hoare_bind [OF awaiting_quiet [OF keeps_record]],
      rule hoare_bind [OF awaiting_quiet [OF keeps_cascade]],
      rule hoare_bind [OF awaiting_quiet [OF keeps_read]])
     (auto intro: resume_turn_spec [OF assms] hoare_return simp: responded_def)

lemma usage_context_spec:
  assumes "view_only P" and "hoare P m Q (\<lambda>_ _. True)" and "\<And>x. view_only (Q x)"
  shows "hoare P (usage_context (tu_usage env) u p a s m) Q (\<lambda>_ _. True)"
  unfolding usage_context_def
  by (rule hoare_bind [OF quiet [OF assms(1) keeps_read]],
      rule hoare_bind [OF quiet [OF assms(1) keeps_attribution]],
      rule hoare_finally [OF assms(2)], rule quiet [OF assms(3) keeps_attribution])

lemma turn_spec:
  assumes "view_only P" and "hoare P m responded (\<lambda>_ _. True)"
  shows "hoare P (conversation_turn env c u m) responded (\<lambda>_ _. True)"
  unfolding conversation_turn_def
  by (rule hoare_bind [OF quiet [OF assms(1) keeps_take]], rule hoare_finally,
      intro hoare_if usage_context_spec [OF assms view_only_responded] hoare_raise, rule TrueI,
      rule responded_quiet [OF keeps_leave])

lemma owned_spec:
  assumes "view_only P"
  shows "hoare P (get_owned env i u) (\<lambda>c w. P w \<and> cv_id c = i) (\<lambda>_ _. True)"
proof (rule hoareI)
  fix w c w'
  assume "P w" and "get_owned env i u w = Some (Inr c, w')"
  then show "P w' \<and> cv_id c = i"
    by (auto simp: get_owned_def get_conversation_def act_simps find_Some_iff
        split: sum.splits option.splits if_splits)
qed

lemma send_message_spec:
  assumes "valid_request rq"
  shows "hoare answered (send_message env conversation rq u) responded (\<lambda>_ _. True)"
  unfolding send_message_def
  by (rule hoare_bind [OF answered_quiet [OF keeps_liftR]],
      rule hoare_bind [OF owned_spec [OF view_only_answered]], rule hoare_pure,
      rule hoare_bind [OF answered_quiet [OF keeps_admit]],
      rule turn_spec [OF view_only_answered send_turn_spec], assumption, rule assms)

lemma decide_spec:
  "hoare awaiting (decide_tool_approval env conversation aid d u) responded (\<lambda>_ _. True)"
  unfolding decide_tool_approval_def
  by (rule hoare_bind [OF awaiting_quiet [OF keeps_liftR]],
      rule hoare_bind [OF owned_spec [OF view_only_awaiting]], rule hoare_pure,
      rule hoare_bind [OF awaiting_quiet [OF keeps_admit]],
      rule turn_spec [OF view_only_awaiting decide_and_resume_spec])

end

text \<open>
  C6 (invariant). The requests of a conversation keep its history answered.  A message to a
  conversation whose tool calls all have their results, and the decision of an approval in one
  that waits for it, each with every handoff that follows, leave: an answered history when the
  turn completes, one that ends with the calls that wait when it is suspended, and no partial
  message when it was stopped.
\<close>

theorem requests_keep_history:
  assumes "turn_host env conversation"
    and "stored_ok (ch_numbers (tu_chat env)) (stored (tu_chat env) conversation w)"
    and "history_of (ch_numbers (tu_chat env)) (stored (tu_chat env) conversation w) = Inr rows"
    and "valid_request rq \<and> paired (map canonical rows) \<and>
        send_message env conversation rq user w = Some (Inr response, w') \<or>
      waiting (map canonical rows) \<and>
        decide_tool_approval env conversation approval_id d user w = Some (Inr response, w')"
  shows "case response of
      Completed _ \<Rightarrow> \<exists>rows'.
        history_of (ch_numbers (tu_chat env)) (stored (tu_chat env) conversation w') = Inr rows' \<and>
        paired (map canonical rows')
    | Awaiting _ \<Rightarrow> \<exists>rows'.
        history_of (ch_numbers (tu_chat env)) (stored (tu_chat env) conversation w') = Inr rows' \<and>
        waiting (map canonical rows')
    | Aborted \<Rightarrow> \<forall>m \<in> set (stored (tu_chat env) conversation w'). \<not> cm_partial m"
proof -
  have c: "chat_host (tu_chat env) conversation" by (rule turn_host.axioms(1) [OF assms(1)])
  have h: "chat_host.history_is (tu_chat env) conversation rows w"
    by (simp add: chat_host.history_is_def [OF c] assms(2,3))
  have "turn_host.responded env conversation response w'"
    using assms(4)
  proof (elim disjE conjE)
    assume v: "valid_request rq" "paired (map canonical rows)"
      "send_message env conversation rq user w = Some (Inr response, w')"
    have "turn_host.answered env conversation w"
      using h v(2) by (auto simp: turn_host.answered_def [OF assms(1)] chat_host.history_w_def [OF c])
    then show ?thesis by (rule hoare_Inr [OF turn_host.send_message_spec [OF assms(1) v(1)] _ v(3)])
  next
    assume v: "waiting (map canonical rows)"
      "decide_tool_approval env conversation approval_id d user w = Some (Inr response, w')"
    have "turn_host.awaiting env conversation w"
      using h v(1) by (auto simp: turn_host.awaiting_def [OF assms(1)])
    then show ?thesis by (rule hoare_Inr [OF turn_host.decide_spec [OF assms(1)] _ v(2)])
  qed
  then show ?thesis
    by (auto simp: turn_host.responded_def [OF assms(1)] turn_host.answered_def [OF assms(1)]
        turn_host.awaiting_def [OF assms(1)] chat_host.history_w_def [OF c]
        chat_host.history_is_def [OF c] split: turn_response.splits)
qed

section \<open>A conversation at work\<close>

definition turn_lock_ops :: "(chat_world, string) redis" where
  "turn_lock_ops = lift_redis cw_lock (\<lambda>r w. w\<lparr>cw_lock := r\<rparr>) keyspace_ops"

definition sample_turn_usage :: "chat_world usage_env" where
  "sample_turn_usage = \<lparr>us_rt = ae_rt sample_chat_agent, us_numbers = ch_numbers sample_chat_env,
     us_attribution = cw_who, us_set_attribution = (\<lambda>who w. w\<lparr>cw_who := who\<rparr>),
     us_add = (\<lambda>_. returnA ()), us_open = returnA (), us_commit = returnA (), us_close = returnA ()\<rparr>"

definition sample_turn_env :: "(chat_world, string) turn_env" where
  "sample_turn_env = \<lparr>tu_chat = sample_chat_env, tu_rt = ae_rt sample_chat_agent, tu_runner = True,
     tu_resolver = Some (PlainResolver (\<lambda>_. returnA chat_agent)), tu_admission = None,
     tu_context = None, tu_turn_context = None, tu_timezone = None, tu_images = None,
     tu_policy = None, tu_metering = None, tu_titling = None, tu_on_delete = None,
     tu_lock = turn_lock_ops, tu_usage = sample_turn_usage, tu_agents = (\<lambda>_. [chat_agent]),
     tu_conversations = cw_conversations, tu_approvals = cw_table,
     tu_put = (\<lambda>t w. w\<lparr>cw_rows := ct_messages t, cw_conversations := ct_conversations t,
       cw_table := ct_approvals t\<rparr>),
     tu_max_chars = 100, tu_max_attachments = 2, tu_lock_seconds = 600, tu_abort_seconds = 60\<rparr>"

lemma sample_stored: "stored (tu_chat sample_turn_env) ''c1'' w = in_order ''c1'' (cw_rows w)"
  by (simp add: sample_turn_env_def stored_def sample_chat_env_def)

lemma turn_lock_rows:
  "cw_rows (snd (r_set_nx turn_lock_ops k v ttl w)) = cw_rows w"
  "cw_rows (r_sadd turn_lock_ops k xs w) = cw_rows w"
  "cw_rows (r_srem turn_lock_ops k x w) = cw_rows w"
  "cw_rows (r_expire turn_lock_ops k ttl w) = cw_rows w"
  "cw_rows (snd (r_delete turn_lock_ops ks w)) = cw_rows w"
  by (simp_all add: turn_lock_ops_def lift_redis_def split: prod.splits)

interpretation sample_turns: turn_host sample_turn_env "''c1''"
proof (intro turn_host.intro turn_host_axioms.intro)
  show "chat_host (tu_chat sample_turn_env) ''c1''"
    by (simp add: sample_turn_env_def sample_chat.chat_host_axioms)
  show "keeps (stored (tu_chat sample_turn_env) ''c1'') (resolve_agent r c q)"
    if "tu_resolver sample_turn_env = Some r" for r c q
    using that by (auto simp: sample_turn_env_def resolve_agent_def intro: keeps_return)
qed (simp_all add: sample_stored turn_lock_rows, simp_all add: sample_turn_env_def
       turn_lock_rows sample_turn_usage_def)

definition mail_request :: send_request where
  "mail_request = \<lparr>sm_message = ''mail it'', sm_media_ids = [], sm_attachments = []\<rparr>"

lemma mail_sent:
  "case send_message sample_turn_env ''c1'' mail_request ''u1'' chat_start of
     Some (Inr (Awaiting aps), _) \<Rightarrow> map ta_tool_name aps = [''send_mail'']
   | _ \<Rightarrow> False"
  by code_simp

theorem requests_keep_history_witness:
  "\<exists>aps w' rows. send_message sample_turn_env ''c1'' mail_request ''u1'' chat_start
       = Some (Inr (Awaiting aps), w') \<and>
     history_of (ch_numbers sample_chat_env) (stored sample_chat_env ''c1'' w') = Inr rows \<and>
     waiting (map canonical rows)"
proof -
  obtain aps w' where r: "send_message sample_turn_env ''c1'' mail_request ''u1'' chat_start
      = Some (Inr (Awaiting aps), w')"
    using mail_sent by (auto split: option.splits prod.splits sum.splits turn_response.splits)
  have v: "paired (map canonical chat_rows)" "valid_request mail_request" by code_simp+
  have chat: "tu_chat sample_turn_env = sample_chat_env" by (simp add: sample_turn_env_def)
  from requests_keep_history [OF sample_turns.turn_host_axioms, unfolded chat, OF chat_start_ok,
      of mail_request "''u1''" "Awaiting aps" w'] r v
  show ?thesis by auto
qed

end
