(* ===== verification/ChatTurnBounds.thy ===== *)
theory ChatTurnBounds
  imports ChatTurnSpec
begin

text \<open>
  When a request is refused and what it costs: a refusal is decided before the turn begins, and
  a turn that does begin comes back after a bounded number of completions.
\<close>

section \<open>What a request may cost\<close>

text \<open>
  Every service returns, and of those a turn calls only the provider completes: once for a
  completion of the loop, once for a summary, and once for a resolver that asks a classifier.
\<close>

locale turn_services =
  fixes env :: "('w, 'h) turn_env" and calls :: "'w \<Rightarrow> nat"
  assumes agents: "services_return (ch_agent (tu_chat env)) calls"
    and channel: "costs calls 0 (em_publish (ch_em (tu_chat env)) ch p)"
      "costs calls 0 (em_now (ch_em (tu_chat env)))" "costs calls 0 (em_new_id (ch_em (tu_chat env)))"
    and redis_set: "calls (r_set (em_redis (ch_em (tu_chat env))) k v' ttl w) \<le> calls w"
    and others: "calls (em_others (ch_em (tu_chat env)) w) \<le> calls w"
    and tables: "calls (ch_put (tu_chat env) ms w) \<le> calls w" "calls (tu_put env t w) \<le> calls w"
    and summary: "costs calls 1 (ch_summary (tu_chat env) sc)"
    and counting: "costs calls 0 (ch_count (tu_chat env) policy sc)"
    and lock: "calls (snd (r_set_nx (tu_lock env) k v ttl w)) \<le> calls w"
      "calls (r_sadd (tu_lock env) k xs w) \<le> calls w" "calls (r_srem (tu_lock env) k x w) \<le> calls w"
      "calls (r_expire (tu_lock env) k ttl w) \<le> calls w"
      "calls (snd (r_delete (tu_lock env) ks w)) \<le> calls w"
    and attribution: "calls (us_set_attribution (tu_usage env) who w) \<le> calls w"
    and resolver: "tu_resolver env = Some r \<Longrightarrow> costs calls 1 (resolve_agent r c q)"
    and hooks: "tu_admission env = Some f1 \<Longrightarrow> costs calls 0 (f1 u c)"
      "tu_context env = Some f2 \<Longrightarrow> costs calls 0 (f2 c ag q)"
      "tu_turn_context env = Some (PlainHook f3) \<Longrightarrow> costs calls 0 (f3 c ag)"
      "tu_turn_context env = Some (QueryHook f4) \<Longrightarrow> costs calls 0 (f4 c ag q)"
      "tu_timezone env = Some f5 \<Longrightarrow> costs calls 0 (f5 u)"
      "tu_images env = Some (PlainImages f6) \<Longrightarrow> costs calls 0 (f6 u ag c)"
      "tu_images env = Some (MediaImages f7) \<Longrightarrow> costs calls 0 (f7 u ag c ids)"
      "tu_policy env = Some f8 \<Longrightarrow> costs calls 0 (f8 ag)"
      "tu_metering env = Some f9 \<Longrightarrow> costs calls 0 (f9 u i ag out)"
      "tu_titling env = Some f10 \<Longrightarrow> costs calls 0 (f10 i u ag)"
begin

abbreviation free :: "('w, 'a) act \<Rightarrow> bool" where "free m \<equiv> costs calls 0 m"

lemma free_best: "free m \<Longrightarrow> free (best_effort m)"
  unfolding best_effort_def by (rule costs_try0) auto

lemma free_augment: "free (augment_system_prompt env c ag q)"
  using hooks(2) by (auto simp: augment_system_prompt_def Let_def split: option.splits
      intro!: costs_bind0 free_best costs_return)

lemma free_turn_context: "free (turn_context_block env c ag q)"
  using hooks(3,4) by (auto simp: turn_context_block_def split: option.splits turn_hook.splits
      intro!: costs_bind0 free_best costs_return)

lemma free_call_context: "free (turn_call_context env u)"
  using hooks(5) by (auto simp: turn_call_context_def split: option.splits
      intro!: costs_bind0 free_best costs_return)

lemma free_images: "free (image_resolver env c ag u ids)"
  using hooks(6,7) by (auto simp: image_resolver_def split: option.splits image_hook.splits
      intro!: costs_return)

lemma free_policy: "free (context_policy_of env ag)"
  using hooks(8) by (auto simp: context_policy_of_def split: option.splits intro!: free_best costs_return)

lemma free_admit: "free (admit_turn env u c)"
  using hooks(1) by (auto simp: admit_turn_def split: option.splits
      intro!: costs_bind0 costs_try0 costs_return costs_raise)

lemma free_owned: "free (get_owned env c u)"
  by (auto simp: get_owned_def split: sum.splits intro!: costs_bind0)

lemma free_response: "free (turn_response_of env c u ag r)"
  using hooks(9) by (auto simp: turn_response_of_def split: run_result.splits option.splits
      intro!: costs_bind0)

lemma free_titling: "free (spawn_titling env c ag r)"
  using hooks(10) by (auto simp: spawn_titling_def split: option.splits turn_response.splits)

lemma free_clear: "free (clear_abort env c)"
  by (simp add: clear_abort_def costs_write lock)

lemma free_finalize: "free (finalize_partials env c)"
  by (simp add: finalize_partials_def costs_write tables)

lemma free_refuse: "free (refuse_pending env c)"
  by (auto simp: refuse_pending_def intro!: costs_bind0)

lemma free_emit: "free (conversation_emit (ch_em (tu_chat env)) c an k n p)"
  using channel others redis_set
  by (auto simp: conversation_emit_def ephemeral_emit_def redis_event_sequence_def
      publish_run_event_def await_others_def bump_max_seq_def split: option.splits intro!: costs_bind0 costs_write)

lemma free_routing: "free (emit_routing_decided env c a b)"
  by (auto simp: emit_routing_decided_def intro!: costs_try0 costs_bind0 free_emit)

lemma free_turn_next: "calls (snd (turn_next (tu_lock env) t p w)) \<le> calls w"
  by (cases p) (simp_all add: lock)

lemmas free_lock = lock(2-5) [THEN order_trans]

lemma free_set_nx: "r_set_nx (tu_lock env) k v ttl w = (b, w') \<Longrightarrow> calls w' \<le> calls w"
  using lock(1) [of k v ttl w] by simp

lemma free_take: "free (take_turn env c u)"
  unfolding take_turn_def
  by (intro costs_bind0 channel costs_step)
     (auto simp: enter_turn_def Let_def split: prod.splits intro!: free_lock dest: free_set_nx)

lemma free_leave: "free (leave_turn env t)"
  unfolding leave_turn_def
  by (rule costs_write) (auto simp: Let_def split: prod.splits if_splits intro!: free_lock)

lemma free_usage: "costs calls k m \<Longrightarrow> costs calls k (usage_context (tu_usage env) u p a s m)"
  unfolding usage_context_def
  by (intro costs_bind0 costs_read costs_write costs_finally attribution)

section \<open>A turn\<close>

lemma free_retrying:
  assumes "free build" and "\<And>row. free (commit row)"
  shows "free (insert_retrying (ch_em (tu_chat env)) n build commit)"
  by (induction n)
     (auto simp: await_others_def assms others intro!: costs_bind0 costs_write costs_raise)

lemma free_save: "free (conversation_save (tu_chat env) c an role content b i)"
  unfolding conversation_save_def
proof (rule free_retrying)
  show "free (build_conv_message (tu_chat env) c an role content b i)"
    using channel(3) by (auto simp: build_conv_message_def next_conversation_sequence_def
        split: option.splits intro!: costs_bind0)
  show "free (commit_conv_message (tu_chat env) m)" for m
    by (auto simp: commit_conv_message_def tables intro!: costs_step)
qed

lemma free_add_text: "free (add_text_to_last_assistant (tu_chat env) c words)"
  by (auto simp: add_text_to_last_assistant_def tables split: option.splits
      intro!: costs_bind0 costs_write)

lemma free_emit_unit: "free (emit_unit (tu_chat env) c ag k n p)"
  by (auto simp: emit_unit_def intro!: costs_bind0 free_emit)

lemma chat_services: "services_return (chat_io (tu_chat env) c ag) calls"
  using agents by (auto simp: services_return_def chat_io_def
      intro!: free_emit_unit costs_bind0 free_save free_add_text)

lemma free_history: "free (history_rows (tu_chat env) c)"
  by (auto simp: history_rows_def intro!: costs_bind0)

lemma free_tools: "free (resolve_tools (ch_agent (tu_chat env)) a ns)"
  using agents by (auto simp: services_return_def resolve_tools_def Let_def intro!: costs_bind0)

lemma costs_compact_if_due: "costs calls 1 (compact_if_due (tu_chat env) ag c rows sp tz policy)"
proof -
  have count: "free (count_prompt (tu_chat env) ag h sp tz p)" for h p
    by (auto simp: count_prompt_def agent_call_def counting split: prod.splits
        intro!: costs_bind0 free_tools)
  have marker: "free (write_marker (tu_chat env) ag c rows native)" for native
    by (auto simp: write_marker_def Let_def channel intro!: costs_bind0 free_save free_emit_unit)
  have "costs calls 1 (compact (tu_chat env) ag h scope sp tz i)" for h scope i
    by (auto simp: compact_def agent_call_def summary simp del: One_nat_def split: prod.splits
        intro!: costs_bind0 free_tools)
  then have "costs calls (1 + 0) (compact_rows (tu_chat env) ag c rows sp tz i)" for i
    unfolding compact_rows_def
    by (intro costs_bind0 [OF free_emit_unit] costs_bind)
       (auto split: option.splits intro!: costs_bind0 free_emit_unit marker)
  then show ?thesis
    by (auto simp: compact_if_due_def split: option.splits intro!: costs_bind0 count)
qed

lemma costs_send:
  "costs calls 18 (send (tu_chat env) ag c m sp extra attachments policy)"
proof -
  have "costs calls (1 + (MAX_TOOL_ITERATIONS + 1))
      (send (tu_chat env) ag c m sp extra attachments policy)"
    unfolding send_def
    by (intro costs_bind0 [OF free_history] costs_bind)
       (auto simp del: One_nat_def add_Suc_right
          intro: costs_compact_if_due costs_run [OF chat_services])
  then show ?thesis by (simp add: MAX_TOOL_ITERATIONS_def)
qed

lemma costs_handoff_send: "costs calls 17 (send (tu_chat env) ag c None sp extra [] policy)"
  using costs_run [OF chat_services]
  by (auto simp: send_def MAX_TOOL_ITERATIONS_def intro!: costs_bind0 free_history)

lemma costs_resumption: "costs calls 17 (resume (tu_chat env) ag c sp extra)"
  using costs_resume [OF chat_services]
  by (auto simp: resume_def load_conversation_def MAX_TOOL_ITERATIONS_def
      intro!: costs_bind0 free_history)

lemma costs_handoffs:
  assumes "tu_resolver env = Some rs"
  shows "costs calls (18 * n) (handoffs env rs c u q n ag r)"
proof (induction n arbitrary: ag r)
  case 0
  then show ?case by (cases r) auto
next
  case (Suc n)
  have turn: "costs calls 17 (handoff_turn env c u q ag')" for ag'
    unfolding handoff_turn_def
    by (intro costs_bind0 free_augment free_call_context free_images free_policy costs_handoff_send)
  show ?case
  proof (cases r)
    case (Output v)
    have "costs calls (1 + (17 + 18 * n)) (handoffs env rs c u q (Suc n) ag (Output v))"
      unfolding handoffs.simps
      by (intro costs_bind [OF resolver [OF assms]] costs_if costs_return
            costs_bind0 [OF free_routing] costs_bind [OF turn] Suc.IH)
    then show ?thesis by (simp add: Output)
  qed auto
qed

lemma costs_configured:
  assumes "\<And>rs. tu_resolver env = Some rs \<Longrightarrow> costs calls k (f rs)"
  shows "costs calls k (bindA (liftR (configured env)) f)"
proof (cases "configured env")
  case (Inr rs)
  then have "tu_resolver env = Some rs" by (auto simp: configured_def split: if_splits option.splits)
  from assms [OF this] show ?thesis by (simp add: Inr costs_def bindA_def liftR_def)
qed (simp add: costs_def bindA_def liftR_def)

lemma costs_follow: "costs calls 72 (follow_handoffs env c u q ag r)"
  unfolding follow_handoffs_def
  by (rule costs_configured) (use costs_handoffs [where n = 4] in \<open>simp add: MAX_HANDOFF_HOPS_def\<close>)

lemma costs_run_turn: "costs calls 90 (run_turn env c rq u ag)"
proof -
  have "costs calls (18 + 72) (run_turn env c rq u ag)"
    unfolding run_turn_def
    by (intro costs_bind0 free_augment free_call_context free_images free_policy costs_if
          costs_return free_turn_context costs_bind [OF costs_send costs_follow])
  then show ?thesis by simp
qed

lemma free_finish:
  "free (bindA (turn_response_of env i u ag r) (\<lambda>response.
     bindA (spawn_titling env c ag response) (\<lambda>_. returnA response)))"
  by (intro costs_bind0 free_response free_titling costs_return)

lemma costs_send_turn: "costs calls 91 (send_turn env c rq u)"
proof -
  have turn: "costs calls (90 + 0) (bindA (attemptA is_abort (run_turn env c rq u ag)) (\<lambda>outcome.
      case outcome of
        Inl _ \<Rightarrow> bindA (clear_abort env (cv_id c)) (\<lambda>_.
          bindA (finalize_partials env (cv_id c)) (\<lambda>_. returnA Aborted))
      | Inr (last_agent, result) \<Rightarrow>
          bindA (turn_response_of env (cv_id c) u last_agent result) (\<lambda>response.
          bindA (spawn_titling env c last_agent response) (\<lambda>_. returnA response))))" for ag
    by (rule costs_bind [OF costs_attempt [OF costs_run_turn]])
       (auto split: sum.splits prod.splits intro!: free_finish
          costs_bind0 free_clear free_finalize costs_return)
  have "costs calls (1 + (90 + 0)) (send_turn env c rq u)"
    unfolding send_turn_def
    by (rule costs_bind0 [OF free_refuse], rule costs_configured, rule costs_bind [OF resolver],
        assumption, rule costs_bind0 [OF free_clear turn])
  then show ?thesis by simp
qed

lemma free_decision:
  "free (owned_approval env c aid)" "free (record_decision env aid d u)"
  "free (cascade_decision env c d u)"
  by (auto simp: owned_approval_def record_decision_def cascade_decision_def put_approvals_def
      channel tables split: sum.splits prod.splits
      intro!: costs_bind0 costs_step costs_write)

lemma costs_decide_and_resume: "costs calls 91 (decide_and_resume env c aid d u)"
proof -
  have resuming: "costs calls 1 (resuming_agent env rs c n)" if "tu_resolver env = Some rs" for rs n
    using resolver [OF that] by (auto simp: resuming_agent_def simp del: One_nat_def
        split: option.splits intro!: costs_bind0 intro: costs_return)
  have "costs calls (1 + (17 + (72 + 0))) (resume_turn env c u n)" for n
    unfolding resume_turn_def
    by (rule costs_configured, rule costs_bind [OF resuming], assumption,
        intro costs_bind0 free_augment free_call_context free_images free_policy
          costs_bind [OF costs_resumption] costs_bind [OF costs_follow])
       (auto split: prod.splits intro: free_finish)
  then have "costs calls 91 (resume_turn env c u n)" for n
    by (rule costs_mono) simp
  then show ?thesis
    by (auto simp: decide_and_resume_def intro!: costs_bind0 free_decision)
qed

lemma costs_turn:
  "costs calls k m \<Longrightarrow> costs calls k (conversation_turn env c u m)"
  unfolding conversation_turn_def
  by (intro costs_bind0 free_take costs_finally costs_if free_usage costs_raise free_leave)

lemma costs_request:
  "costs calls 91 (send_message env c rq u)"
  "costs calls 91 (decide_tool_approval env c aid d u)"
  by (auto simp: send_message_def decide_tool_approval_def
      intro!: costs_bind0 free_owned free_admit costs_turn costs_send_turn costs_decide_and_resume)

end

text \<open>
  C18 (termination). A message and a decision come back whenever the services they call do, after
  at most 91 completions: one for the agent to be chosen, 18 for its turn, a compaction of the
  history included, and 18 for each of at most \<open>MAX_HANDOFF_HOPS\<close> handoffs.  Two agents that hand
  the conversation to each other do not run for ever.
\<close>

theorem request_completions_bounded:
  assumes "turn_services env calls"
  shows "(\<exists>r w'. send_message env conversation rq user w = Some (r, w') \<and>
      calls w' \<le> calls w + 91) \<and>
    (\<exists>r w'. decide_tool_approval env conversation approval_id d user w = Some (r, w') \<and>
      calls w' \<le> calls w + 91)"
  using turn_services.costs_request [OF assms] by (simp add: costs_def)

lemma turn_lock_calls:
  "cw_calls (snd (r_set_nx turn_lock_ops k v ttl w)) = cw_calls w"
  "cw_calls (r_sadd turn_lock_ops k xs w) = cw_calls w"
  "cw_calls (r_srem turn_lock_ops k x w) = cw_calls w"
  "cw_calls (r_expire turn_lock_ops k ttl w) = cw_calls w"
  "cw_calls (snd (r_delete turn_lock_ops ks w)) = cw_calls w"
  by (simp_all add: turn_lock_ops_def lift_redis_def split: prod.splits)

lemma sample_agent_services: "services_return sample_chat_agent cw_calls"
  by (auto simp: services_return_def sample_chat_agent_def chat_reply_def costs_def act_simps Let_def
      split: sum.splits prod.splits)

interpretation sample_bounds: turn_services sample_turn_env cw_calls
proof (rule turn_services.intro)
  show "services_return (ch_agent (tu_chat sample_turn_env)) cw_calls"
    using sample_agent_services by (simp add: sample_turn_env_def sample_chat_env_def)
  show "costs cw_calls 1 (resolve_agent r c q)" if "tu_resolver sample_turn_env = Some r" for r c q
    using that by (auto simp: sample_turn_env_def resolve_agent_def)
qed (simp_all add: sample_turn_env_def sample_chat_env_def sample_turn_usage_def turn_lock_calls
       costs_return cw_ops_def lift_redis_def)

theorem request_completions_bounded_witness:
  "\<exists>r w'. send_message sample_turn_env ''c1'' mail_request ''u1'' chat_start = Some (r, w') \<and>
     cw_calls w' \<le> 91"
  using request_completions_bounded [OF sample_bounds.turn_services_axioms, of "''c1''" mail_request
      "''u1''" chat_start]
  by (auto simp: chat_start_def)

section \<open>Refusals\<close>

text \<open>The refusals that come before a turn, in their order.\<close>

definition refusal ::
  "('w, 'h) turn_env \<Rightarrow> string \<Rightarrow> string \<Rightarrow> string \<Rightarrow> nat \<Rightarrow> 'w \<Rightarrow> exn option" where
  "refusal env conversation user words attachments w =
     (if length words > tu_max_chars env then Some (http_error 422 ''message_too_long'')
      else if attachments > tu_max_attachments env then Some (http_error 422 ''too_many_attachments'')
      else if \<not> (\<exists>c. get_conversation (tables env w) conversation (Some user) = Inr c) then Some not_found
      else if r_get (tu_lock env) (turn_lock_key conversation) w \<noteq> None then Some turn_in_progress
      else None)"

lemma held_lock_refuses:
  assumes "redis_store (tu_lock env)" and "em_new_id (ch_em (tu_chat env)) w = Some (Inr token, w0)"
    and "r_get (tu_lock env) (turn_lock_key c) w0 \<noteq> None"
  shows "conversation_turn env c u body w = Some (Inl turn_in_progress, w0)"
proof -
  let ?key = "turn_lock_key c"
  have "r_exists (tu_lock env) ?key w0"
    using redis_store.exists_iff [OF assms(1)] assms(3) by blast
  then have "r_set_nx (tu_lock env) ?key token (tu_lock_seconds env) w0 = (False, w0)"
    using redis_store.set_nx [OF assms(1)] by simp
  then have "take_turn env c u w = Some (Inr \<lparr>tn_conversation = c, tn_owner = Some u,
      tn_token = token, tn_ttl = tu_lock_seconds env, tn_acquired = False\<rparr>, w0)"
    by (simp add: take_turn_def act_simps assms(2) enter_turn_def Let_def listed_def)
  then show ?thesis
    by (simp add: conversation_turn_def finallyA_def act_simps leave_turn_def Let_def listed_def)
qed

lemma gate_refuses:
  assumes "redis_store (tu_lock env)" and "tu_admission env = None"
    and "em_new_id (ch_em (tu_chat env)) w = Some (Inr token, w0)"
    and "r_get (tu_lock env) (turn_lock_key c) w0 = r_get (tu_lock env) (turn_lock_key c) w"
    and "refusal env c u words n w = Some e"
  shows "\<exists>w' \<in> {w, w0}. bindA (liftR (check_turn_size env words n)) (\<lambda>_.
      bindA (get_owned env c u) (\<lambda>cv.
      bindA (admit_turn env u cv) (\<lambda>_. conversation_turn env c u (body cv)))) w = Some (Inl e, w')"
proof (cases "get_conversation (tables env w) c (Some u)")
  case (Inl x)
  then show ?thesis
    using assms(5) by (auto simp: refusal_def check_turn_size_def get_owned_def act_simps split: if_splits)
next
  case (Inr cv)
  have "conversation_turn env c u (body cv) w = Some (Inl turn_in_progress, w0)"
    if "r_get (tu_lock env) (turn_lock_key c) w \<noteq> None"
    using that assms(4) by (intro held_lock_refuses [OF assms(1,3)]) simp
  with Inr assms(2,5) show ?thesis
    by (auto simp: refusal_def check_turn_size_def get_owned_def admit_turn_def act_simps
        split: if_splits)
qed


definition busy_world :: chat_world where
  "busy_world = snd (r_set_nx turn_lock_ops (turn_lock_key ''c1'') ''other'' 600 chat_start)"

lemma turn_lock_store: "redis_store turn_lock_ops"
  unfolding turn_lock_ops_def by (rule lift_redis_store) (simp_all add: keyspace.redis_store_axioms)

lemma busy_refused:
  "refusal sample_turn_env ''c1'' ''u1'' (sm_message mail_request) (length (attachment_blocks mail_request))
     busy_world = Some turn_in_progress"
proof -
  have "r_get turn_lock_ops (turn_lock_key ''c1'') busy_world \<noteq> None"
    and "length (sm_message mail_request) \<le> 100" and "attachment_blocks mail_request = []"
    and "cw_conversations busy_world = cw_conversations chat_start" by code_simp+
  then show ?thesis
    by (simp add: refusal_def sample_turn_env_def tables_def get_conversation_def chat_start_def)
qed


end
