(* ===== verification/LLMProviders.thy ===== *)
theory LLMProviders
  imports Actions
begin

text \<open>
  The providers a host has configured (luna_core/services/llm_provider.py,
  models/llm_provider.py, schemas/llm_provider.py), their kinds (llm/kinds.py), and the listing
  of the models behind one.

  A function of the service is a transaction on the table.  Encryption (core/crypto.py wraps
  Fernet, whose ciphertexts carry a salt), HTTP and the Anthropic SDK are parameters.
\<close>

section \<open>Rows and requests\<close>

record llm_provider =
  lp_id :: string
  lp_name :: string
  lp_kind :: string
  lp_base_url :: string
  lp_chat_url :: "string option"
  lp_models_url :: "string option"
  lp_key_encrypted :: "string option"
  lp_is_active :: bool
  lp_created :: int
  lp_updated :: int

record provider_kind_spec =
  pk_kind :: string
  pk_label :: "string option"
  pk_requires_api_key :: bool
  pk_vision :: "bool option"
  pk_fast_model :: "string option"

definition PROVIDER_KINDS :: "(string \<times> provider_kind_spec) list" where
  "PROVIDER_KINDS = map (\<lambda>s. (pk_kind s, s))
     [\<lparr>pk_kind = ''openai_compatible'', pk_label = None, pk_requires_api_key = True,
        pk_vision = None, pk_fast_model = None\<rparr>,
      \<lparr>pk_kind = ''anthropic'', pk_label = Some ''Anthropic API'', pk_requires_api_key = True,
        pk_vision = Some True, pk_fast_model = None\<rparr>,
      \<lparr>pk_kind = ''claude_cli'', pk_label = Some ''Claude Code CLI'', pk_requires_api_key = False,
        pk_vision = Some True, pk_fast_model = Some ''haiku''\<rparr>]"

definition kind_spec :: "string \<Rightarrow> exn + provider_kind_spec" where
  "kind_spec kind = (case map_of PROVIDER_KINDS kind of
     None \<Rightarrow> Inl (OtherError ''KeyError'' kind) | Some s \<Rightarrow> Inr s)"

definition upper_text :: "char \<Rightarrow> string" where
  "upper_text c =
     (let n = (of_char c :: nat)
      in if n = 223 then ''SS''
         else if (97 \<le> n \<and> n \<le> 122) \<or> (224 \<le> n \<and> n \<le> 254 \<and> n \<noteq> 247) then [char_of (n - 32)]
         else [c])"

definition display_name :: "string \<Rightarrow> string \<Rightarrow> string" where
  "display_name kind name =
     (let own = concat (map upper_text (take 1 name)) @ drop 1 name
      in case map_of PROVIDER_KINDS kind of
           Some s \<Rightarrow> (case pk_label s of Some l \<Rightarrow> l | None \<Rightarrow> own)
         | None \<Rightarrow> own)"

record provider_create =
  pc_name :: string
  pc_kind :: string
  pc_base_url :: string
  pc_chat_url :: "string option"
  pc_models_url :: "string option"
  pc_api_key :: "string option"
  pc_is_active :: bool

text \<open>A field that is not set is \<open>None\<close>, one that is set to null is \<open>Some None\<close>.\<close>

record provider_update =
  pu_name :: "string option option"
  pu_kind :: "string option option"
  pu_base_url :: "string option option"
  pu_chat_url :: "string option option"
  pu_models_url :: "string option option"
  pu_api_key :: "string option option"
  pu_is_active :: "bool option option"

definition text_within :: "nat \<Rightarrow> nat \<Rightarrow> string \<Rightarrow> bool" where
  "text_within low high s \<longleftrightarrow> low \<le> length s \<and> length s \<le> high"

definition valid_provider_create :: "provider_create \<Rightarrow> bool" where
  "valid_provider_create p \<longleftrightarrow> text_within 1 255 (pc_name p) \<and> pc_kind p \<in> fst ` set PROVIDER_KINDS \<and>
     text_within 1 1024 (pc_base_url p) \<and>
     pred_option (text_within 0 1024) (pc_chat_url p) \<and> pred_option (text_within 0 1024) (pc_models_url p)"

definition valid_provider_update :: "provider_update \<Rightarrow> bool" where
  "valid_provider_update p \<longleftrightarrow>
     pred_option (pred_option (text_within 1 255)) (pu_name p) \<and>
     pred_option (pred_option (\<lambda>k. k \<in> fst ` set PROVIDER_KINDS)) (pu_kind p) \<and>
     pred_option (pred_option (text_within 1 1024)) (pu_base_url p) \<and>
     pred_option (pred_option (text_within 0 1024)) (pu_chat_url p) \<and>
     pred_option (pred_option (text_within 0 1024)) (pu_models_url p)"

record provider_db =
  pd_providers :: "llm_provider list"
  pd_agent_providers :: "string list"

datatype provider_error =
    LLMProviderNotFound string
  | DuplicateLLMProvider string
  | LLMProviderInUse string

section \<open>Keys\<close>

record crypto =
  cr_encrypt :: "string \<Rightarrow> pydict \<Rightarrow> string"
  cr_decrypt :: "string \<Rightarrow> exn + pyval"

definition wrap_api_key :: "crypto \<Rightarrow> string \<Rightarrow> string option \<Rightarrow> string option" where
  "wrap_api_key cr salt value =
     (case value of
        None \<Rightarrow> None
      | Some s \<Rightarrow> if s = [] then None else Some (cr_encrypt cr salt [(''api_key'', PStr s)]))"

definition decrypt_json :: "crypto \<Rightarrow> string option \<Rightarrow> exn + pyval" where
  "decrypt_json cr token = (case token of None \<Rightarrow> Inr PNone | Some t \<Rightarrow> cr_decrypt cr t)"

definition get_decrypted_api_key :: "crypto \<Rightarrow> llm_provider \<Rightarrow> exn + string option" where
  "get_decrypted_api_key cr p =
     bindR (decrypt_json cr (lp_key_encrypted p)) (\<lambda>payload.
       case payload of
         PNone \<Rightarrow> Inr None
       | PDict d \<Rightarrow> (case dget d ''api_key'' of
             PStr s \<Rightarrow> Inr (if s = [] then None else Some s) | _ \<Rightarrow> Inr None)
       | _ \<Rightarrow> Inl (OtherError ''AttributeError'' ''object has no attribute 'get' ''))"

section \<open>The table\<close>

definition find_provider :: "provider_db \<Rightarrow> string \<Rightarrow> llm_provider option" where
  "find_provider db i = List.find (\<lambda>p. lp_id p = i) (pd_providers db)"

definition create_llm_provider ::
  "crypto \<Rightarrow> string \<Rightarrow> string \<Rightarrow> int \<Rightarrow> provider_create \<Rightarrow> provider_db
   \<Rightarrow> (provider_error + llm_provider) \<times> provider_db" where
  "create_llm_provider cr salt new_id now payload db =
     (let p = \<lparr>lp_id = new_id, lp_name = pc_name payload, lp_kind = pc_kind payload,
                lp_base_url = pc_base_url payload, lp_chat_url = pc_chat_url payload,
                lp_models_url = pc_models_url payload,
                lp_key_encrypted = wrap_api_key cr salt (pc_api_key payload),
                lp_is_active = pc_is_active payload, lp_created = now, lp_updated = now\<rparr>
      in if lp_name p \<in> lp_name ` set (pd_providers db)
         then (Inl (DuplicateLLMProvider (pc_name payload)), db)
         else (Inr p, db\<lparr>pd_providers := pd_providers db @ [p]\<rparr>))"

definition list_llm_providers :: "provider_db \<Rightarrow> llm_provider list" where
  "list_llm_providers db = sort_key (\<lambda>p. - lp_created p) (pd_providers db)"

definition get_llm_provider :: "string \<Rightarrow> provider_db \<Rightarrow> provider_error + llm_provider" where
  "get_llm_provider i db = (case find_provider db i of
     None \<Rightarrow> Inl (LLMProviderNotFound i) | Some p \<Rightarrow> Inr p)"

definition get_llm_provider_by_name :: "string \<Rightarrow> provider_db \<Rightarrow> provider_error + llm_provider" where
  "get_llm_provider_by_name name db =
     (case List.find (\<lambda>p. lp_name p = name) (pd_providers db) of
        None \<Rightarrow> Inl (LLMProviderNotFound name) | Some p \<Rightarrow> Inr p)"

text \<open>A null goes into a column that cannot hold it: the commit fails as for a name that is taken.\<close>

definition null_column :: "provider_update \<Rightarrow> bool" where
  "null_column u \<longleftrightarrow> pu_name u = Some None \<or> pu_kind u = Some None \<or> pu_base_url u = Some None \<or>
     pu_is_active u = Some None"

definition set_field :: "'a option option \<Rightarrow> 'a \<Rightarrow> 'a" where
  "set_field v old = (case v of Some (Some x) \<Rightarrow> x | _ \<Rightarrow> old)"

definition set_nullable :: "'a option option \<Rightarrow> 'a option \<Rightarrow> 'a option" where
  "set_nullable v old = (case v of None \<Rightarrow> old | Some x \<Rightarrow> x)"

definition patched :: "crypto \<Rightarrow> string \<Rightarrow> provider_update \<Rightarrow> llm_provider \<Rightarrow> llm_provider" where
  "patched cr salt u p = p
     \<lparr>lp_name := set_field (pu_name u) (lp_name p), lp_kind := set_field (pu_kind u) (lp_kind p),
      lp_base_url := set_field (pu_base_url u) (lp_base_url p),
      lp_chat_url := set_nullable (pu_chat_url u) (lp_chat_url p),
      lp_models_url := set_nullable (pu_models_url u) (lp_models_url p),
      lp_key_encrypted := (case pu_api_key u of
          None \<Rightarrow> lp_key_encrypted p | Some v \<Rightarrow> wrap_api_key cr salt v),
      lp_is_active := set_field (pu_is_active u) (lp_is_active p)\<rparr>"

text \<open>An update that changes no column is none, and leaves the time of the last one.\<close>

definition update_llm_provider ::
  "crypto \<Rightarrow> string \<Rightarrow> int \<Rightarrow> string \<Rightarrow> provider_update \<Rightarrow> provider_db
   \<Rightarrow> (provider_error + llm_provider) \<times> provider_db" where
  "update_llm_provider cr salt now i u db =
     (case find_provider db i of
        None \<Rightarrow> (Inl (LLMProviderNotFound i), db)
      | Some p \<Rightarrow>
          let q = patched cr salt u p;
              q' = (if q = p then p else q\<lparr>lp_updated := now\<rparr>);
              others = filter (\<lambda>r. lp_id r \<noteq> i) (pd_providers db)
          in if null_column u \<or> lp_name q \<in> lp_name ` set others
             then (Inl (DuplicateLLMProvider (case pu_name u of
                    Some (Some n) \<Rightarrow> if n = [] then lp_name p else n | _ \<Rightarrow> lp_name p)), db)
             else (Inr q', db\<lparr>pd_providers :=
                    map (\<lambda>r. if lp_id r = i then q' else r) (pd_providers db)\<rparr>))"

definition delete_llm_provider ::
  "string \<Rightarrow> provider_db \<Rightarrow> (provider_error + unit) \<times> provider_db" where
  "delete_llm_provider i db =
     (case find_provider db i of
        None \<Rightarrow> (Inl (LLMProviderNotFound i), db)
      | Some p \<Rightarrow>
          if i \<in> set (pd_agent_providers db) then (Inl (LLMProviderInUse i), db)
          else (Inr (), db\<lparr>pd_providers := filter (\<lambda>r. lp_id r \<noteq> i) (pd_providers db)\<rparr>))"

record provider_read =
  rp_id :: string
  rp_name :: string
  rp_kind :: string
  rp_requires_api_key :: bool
  rp_display_name :: string
  rp_base_url :: string
  rp_chat_url :: "string option"
  rp_models_url :: "string option"
  rp_has_api_key :: bool
  rp_is_active :: bool
  rp_created_at :: int
  rp_updated_at :: int

definition to_read :: "llm_provider \<Rightarrow> exn + provider_read" where
  "to_read p = bindR (kind_spec (lp_kind p)) (\<lambda>s.
     Inr \<lparr>rp_id = lp_id p, rp_name = lp_name p, rp_kind = lp_kind p,
       rp_requires_api_key = pk_requires_api_key s,
       rp_display_name = display_name (lp_kind p) (lp_name p), rp_base_url = lp_base_url p,
       rp_chat_url = lp_chat_url p, rp_models_url = lp_models_url p,
       rp_has_api_key = (lp_key_encrypted p \<noteq> None), rp_is_active = lp_is_active p,
       rp_created_at = lp_created p, rp_updated_at = lp_updated p\<rparr>)"

definition quote_char :: char where "quote_char = CHR 0x27"

definition provider_http_error :: "provider_error \<Rightarrow> nat \<times> string" where
  "provider_http_error e =
     (case e of
        LLMProviderNotFound _ \<Rightarrow> (404, ''llm provider not found'')
      | DuplicateLLMProvider name \<Rightarrow> (409, ''llm provider with name '' @ quote_char # name @ quote_char # '' already exists'')
      | LLMProviderInUse _ \<Rightarrow> (409, ''llm provider is still referenced by one or more agents''))"

section \<open>The models of a provider\<close>

record provider_model =
  pm_id :: string
  pm_owned_by :: "string option"
  pm_label :: "string option"

definition CLAUDE_CLI_MODELS :: "(string \<times> string) list" where
  "CLAUDE_CLI_MODELS =
     [(''haiku'', ''Claude Haiku (latest)''), (''sonnet'', ''Claude Sonnet (latest)''),
      (''opus'', ''Claude Opus (latest)''), (''fable'', ''Claude Fable (latest)'')]"

definition models_url_of :: "string \<Rightarrow> string \<Rightarrow> string" where
  "models_url_of base path =
     rev (dropWhile (\<lambda>c. c = CHR ''/'') (rev base)) @ ''/'' @ dropWhile (\<lambda>c. c = CHR ''/'') path"

record 'w upstream_env =
  up_crypto :: crypto
  up_get :: "string \<Rightarrow> (string \<times> string) list \<Rightarrow> ('w, pyval) act"
  up_http_error :: "exn \<Rightarrow> bool"
  up_anthropic :: "string \<Rightarrow> string \<Rightarrow> ('w, (string \<times> string option) list) act"
  up_sdk_error :: "exn \<Rightarrow> bool"

definition upstream_error :: "string \<Rightarrow> exn" where
  "upstream_error m = OtherError ''LLMProviderUpstreamError'' m"

definition read_model :: "pyval \<Rightarrow> provider_model option" where
  "read_model item =
     (case item of
        PDict d \<Rightarrow>
          (case dget d ''id'' of
             PStr i \<Rightarrow>
               if i = [] then None
               else Some \<lparr>pm_id = i, pm_owned_by = (case dget d ''owned_by'' of
                       PStr o' \<Rightarrow> Some o' | _ \<Rightarrow> None), pm_label = None\<rparr>
           | _ \<Rightarrow> None)
      | _ \<Rightarrow> None)"

definition read_models :: "pyval \<Rightarrow> exn + provider_model list" where
  "read_models body =
     (case (case body of PDict d \<Rightarrow> dget d ''data'' | _ \<Rightarrow> PNone) of
        PList items \<Rightarrow> Inr (List.map_filter read_model items)
      | _ \<Rightarrow> Inl (upstream_error ''upstream response did not include a 'data' array''))"

text \<open>\<open>try: m except P as exc: raise LLMProviderUpstreamError(str(exc))\<close>.\<close>

definition as_upstream :: "(exn \<Rightarrow> bool) \<Rightarrow> ('w, 'a) act \<Rightarrow> ('w, 'a) act" where
  "as_upstream P m = bindA (attemptA P m) (\<lambda>r.
     case r of Inl e \<Rightarrow> raiseA (upstream_error (exn_text e)) | Inr x \<Rightarrow> returnA x)"

definition list_anthropic_models ::
  "'w upstream_env \<Rightarrow> llm_provider \<Rightarrow> ('w, provider_model list) act" where
  "list_anthropic_models env p =
     bindA (liftR (get_decrypted_api_key (up_crypto env) p)) (\<lambda>key.
     bindA (as_upstream (up_sdk_error env) (up_anthropic env
              (case key of None \<Rightarrow> ''missing'' | Some k \<Rightarrow> k) (lp_base_url p))) (\<lambda>ms.
       returnA (map (\<lambda>(i, l). \<lparr>pm_id = i, pm_owned_by = Some ''anthropic'', pm_label = l\<rparr>) ms)))"

definition list_upstream_models ::
  "'w upstream_env \<Rightarrow> llm_provider \<Rightarrow> ('w, provider_model list) act" where
  "list_upstream_models env p =
     (if lp_kind p = ''claude_cli'' then
        returnA (map (\<lambda>(i, l). \<lparr>pm_id = i, pm_owned_by = Some ''anthropic'', pm_label = Some l\<rparr>)
          CLAUDE_CLI_MODELS)
      else if lp_kind p = ''anthropic'' then list_anthropic_models env p
      else
        let url = (case lp_models_url p of
              Some u \<Rightarrow> if u = [] then models_url_of (lp_base_url p) ''models'' else u
            | None \<Rightarrow> models_url_of (lp_base_url p) ''models'')
        in bindA (liftR (get_decrypted_api_key (up_crypto env) p)) (\<lambda>key.
           bindA (as_upstream (up_http_error env) (up_get env url
                    (case key of None \<Rightarrow> [] | Some k \<Rightarrow> [(''Authorization'', ''Bearer '' @ k)])))
             (\<lambda>body. liftR (read_models body))))"

section \<open>What the table keeps\<close>

definition provider_db_ok :: "provider_db \<Rightarrow> bool" where
  "provider_db_ok db \<longleftrightarrow> distinct (map lp_id (pd_providers db)) \<and>
     distinct (map lp_name (pd_providers db)) \<and>
     set (pd_agent_providers db) \<subseteq> lp_id ` set (pd_providers db)"

lemma patched_fixed [simp]:
  "lp_id (patched cr salt u p) = lp_id p" "lp_created (patched cr salt u p) = lp_created p"
  "lp_updated (patched cr salt u p) = lp_updated p"
  by (simp_all add: patched_def)

lemma find_provider_Some:
  "find_provider db i = Some p \<Longrightarrow> p \<in> set (pd_providers db) \<and> lp_id p = i"
  by (auto simp: find_provider_def find_Some_iff)

lemma find_provider_None:
  "find_provider db i = None \<longleftrightarrow> i \<notin> lp_id ` set (pd_providers db)"
  by (auto simp: find_provider_def find_None_iff)

lemma find_provider_ok:
  "distinct (map lp_id (pd_providers db)) \<Longrightarrow> p \<in> set (pd_providers db) \<Longrightarrow>
   find_provider db (lp_id p) = Some p"
proof -
  assume d: "distinct (map lp_id (pd_providers db))" and p: "p \<in> set (pd_providers db)"
  then obtain q where q: "find_provider db (lp_id p) = Some q"
    using find_provider_None [of db "lp_id p"] by fastforce
  with find_provider_Some [OF q] d p show ?thesis by (auto simp: distinct_map inj_on_def)
qed

lemma distinct_replaced:
  assumes "distinct (map f rs)" and "\<And>r. r \<in> set rs \<Longrightarrow> P r \<Longrightarrow> f (g r) \<notin> f ` {x \<in> set rs. \<not> P x}"
    and "\<And>r s. r \<in> set rs \<Longrightarrow> s \<in> set rs \<Longrightarrow> P r \<Longrightarrow> P s \<Longrightarrow> r = s"
  shows "distinct (map f (map (\<lambda>r. if P r then g r else r) rs))"
  using assms
proof (induction rs)
  case (Cons a rs)
  have prems: "distinct (map f rs)" "f a \<notin> f ` set rs" using Cons.prems(1) by simp_all
  have free: "f (g r) \<notin> f ` {x \<in> set rs. \<not> P x}" if "r \<in> set (a # rs)" "P r" for r
    using Cons.prems(2) [OF that] by auto
  have IH: "distinct (map f (map (\<lambda>r. if P r then g r else r) rs))"
    by (rule Cons.IH [OF prems(1)]) (use free Cons.prems(3) in auto)
  have "f (if P a then g a else a) \<noteq> f (if P r then g r else r)" if r: "r \<in> set rs" for r
  proof (cases "P a")
    case True
    then have "\<not> P r" using Cons.prems(3) [of a r] r prems(2) by auto
    with free [of a] True r show ?thesis by auto
  next
    case False
    then have "f a \<in> f ` {x \<in> set (a # rs). \<not> P x}" by simp
    then have "P r \<Longrightarrow> f a \<noteq> f (g r)" using Cons.prems(2) [of r] r by force
    moreover have "f a \<noteq> f r" using r prems(2) by auto
    ultimately show ?thesis using False by simp
  qed
  then have "f (if P a then g a else a) \<notin> set (map f (map (\<lambda>r. if P r then g r else r) rs))"
    unfolding set_map by blast
  with IH show ?case unfolding list.map distinct.simps by blast
qed simp

lemma with_rows_ok:
  "provider_db_ok (db\<lparr>pd_providers := rows\<rparr>) \<longleftrightarrow> distinct (map lp_id rows) \<and>
     distinct (map lp_name rows) \<and> set (pd_agent_providers db) \<subseteq> lp_id ` set rows"
  by (simp add: provider_db_ok_def)

lemma update_keeps_ok:
  assumes "provider_db_ok db"
  shows "provider_db_ok (snd (update_llm_provider cr salt now i u db))"
proof (cases "find_provider db i")
  case (Some p)
  let ?q = "patched cr salt u p"
  let ?q' = "if ?q = p then p else ?q\<lparr>lp_updated := now\<rparr>"
  let ?rows = "map (\<lambda>r. if lp_id r = i then ?q' else r) (pd_providers db)"
  have p: "p \<in> set (pd_providers db)" "lp_id p = i" using find_provider_Some [OF Some] by auto
  have ids: "map lp_id ?rows = map lp_id (pd_providers db)"
    using p(2) by auto
  have one: "r = p" if "r \<in> set (pd_providers db)" "lp_id r = i" for r
    using assms p that by (auto simp: provider_db_ok_def distinct_map inj_on_def)
  have "provider_db_ok (db\<lparr>pd_providers := ?rows\<rparr>)"
    if free: "lp_name ?q \<notin> lp_name ` set (filter (\<lambda>r. lp_id r \<noteq> i) (pd_providers db))"
  proof -
    have "distinct (map lp_name ?rows)"
    proof (rule distinct_replaced)
      show "distinct (map lp_name (pd_providers db))" using assms by (simp add: provider_db_ok_def)
      have "lp_name ?q' = lp_name ?q" by simp
      then show "lp_name ?q' \<notin> lp_name ` {x \<in> set (pd_providers db). \<not> lp_id x = i}" for r
        using free by simp
      show "r = s" if "r \<in> set (pd_providers db)" "s \<in> set (pd_providers db)" "lp_id r = i"
          "lp_id s = i" for r s using that one by blast
    qed
    moreover have "lp_id ` set ?rows = lp_id ` set (pd_providers db)"
      using arg_cong [OF ids, of set] by (simp only: set_map)
    ultimately show ?thesis
      using assms unfolding with_rows_ok ids by (simp only: provider_db_ok_def)
  qed
  then show ?thesis
    using assms unfolding update_llm_provider_def Some option.case Let_def by auto
qed (simp add: update_llm_provider_def assms)

text \<open>
  C28 (type). The table of providers stays well formed: identifiers and names are unique, and
  every agent's provider is there, whatever a function is called with; a call that ends with an
  error leaves the table as it was.
\<close>

theorem provider_table_ok:
  assumes "provider_db_ok db" and "new_id \<notin> lp_id ` set (pd_providers db)"
  shows "provider_db_ok (snd (create_llm_provider cr salt new_id now payload db)) \<and>
    provider_db_ok (snd (update_llm_provider cr salt now i u db)) \<and>
    provider_db_ok (snd (delete_llm_provider i db)) \<and>
    (\<forall>e. fst (create_llm_provider cr salt new_id now payload db) = Inl e \<longrightarrow>
       snd (create_llm_provider cr salt new_id now payload db) = db) \<and>
    (\<forall>e. fst (update_llm_provider cr salt now i u db) = Inl e \<longrightarrow>
       snd (update_llm_provider cr salt now i u db) = db) \<and>
    (\<forall>e. fst (delete_llm_provider i db) = Inl e \<longrightarrow> snd (delete_llm_provider i db) = db)"
proof (intro conjI)
  show "provider_db_ok (snd (create_llm_provider cr salt new_id now payload db))"
    using assms by (auto simp: create_llm_provider_def Let_def provider_db_ok_def)
  show "provider_db_ok (snd (update_llm_provider cr salt now i u db))"
    by (rule update_keeps_ok [OF assms(1)])
  show "provider_db_ok (snd (delete_llm_provider i db))"
    using assms(1) by (auto simp: delete_llm_provider_def provider_db_ok_def distinct_map_filter
        split: option.splits)
qed (auto simp: create_llm_provider_def update_llm_provider_def delete_llm_provider_def Let_def
      split: option.splits)

definition sample_payload :: provider_create where
  "sample_payload = \<lparr>pc_name = ''main'', pc_kind = ''anthropic'', pc_base_url = ''https://a'',
     pc_chat_url = None, pc_models_url = None, pc_api_key = Some ''k1'', pc_is_active = True\<rparr>"

definition sample_crypto :: crypto where
  "sample_crypto = \<lparr>cr_encrypt = (\<lambda>salt d.
       replicate (length salt) (CHR ''x'') @ CHR ''.'' # (case dget d ''api_key'' of PStr s \<Rightarrow> s | _ \<Rightarrow> [])),
     cr_decrypt = (\<lambda>t. Inr (PDict [(''api_key'', PStr (drop 1 (dropWhile (\<lambda>c. c = CHR ''x'') t)))]))\<rparr>"

definition one_provider :: provider_db where
  "one_provider = snd (create_llm_provider sample_crypto ''s1'' ''p1'' 7 sample_payload
     \<lparr>pd_providers = [], pd_agent_providers = []\<rparr>)"

theorem provider_table_ok_witness:
  "provider_db_ok (snd (create_llm_provider sample_crypto ''s2'' ''p2'' 8
     (sample_payload\<lparr>pc_name := ''other''\<rparr>) one_provider))"
proof -
  have "provider_db_ok one_provider" and "''p2'' \<notin> lp_id ` set (pd_providers one_provider)"
    by code_simp+
  from provider_table_ok [OF this] show ?thesis by blast
qed

section \<open>Keys come back\<close>

text \<open>A ciphertext is read back as what was encrypted, whatever the salt.\<close>

locale cipher =
  fixes cr :: crypto
  assumes decrypts: "cr_decrypt cr (cr_encrypt cr salt [(''api_key'', PStr s)])
    = Inr (PDict [(''api_key'', PStr s)])"
begin

lemma wrapped_key:
  "get_decrypted_api_key cr (p\<lparr>lp_key_encrypted := wrap_api_key cr salt v\<rparr>)
     = Inr (case v of Some s \<Rightarrow> if s = [] then None else Some s | None \<Rightarrow> None)"
  by (auto simp: get_decrypted_api_key_def wrap_api_key_def decrypt_json_def decrypts dget_def
      split: option.splits)

lemma key_kept:
  "lp_key_encrypted p = lp_key_encrypted q \<Longrightarrow> get_decrypted_api_key cr p = get_decrypted_api_key cr q"
  by (simp add: get_decrypted_api_key_def)

lemma created_key:
  assumes "create_llm_provider cr salt new_id now payload db = (Inr p, db')"
  shows "get_decrypted_api_key cr p
    = Inr (case pc_api_key payload of Some s \<Rightarrow> if s = [] then None else Some s | None \<Rightarrow> None)"
proof -
  have "lp_key_encrypted p = wrap_api_key cr salt (pc_api_key payload)"
    using assms by (auto simp: create_llm_provider_def Let_def split: if_splits)
  then have "get_decrypted_api_key cr p
      = get_decrypted_api_key cr (p\<lparr>lp_key_encrypted := wrap_api_key cr salt (pc_api_key payload)\<rparr>)"
    by (intro key_kept) simp
  then show ?thesis by (simp only: wrapped_key)
qed

lemma updated_key:
  assumes "update_llm_provider cr salt now i u db = (Inr q, db')"
  shows "\<exists>p. find_provider db i = Some p \<and>
    get_decrypted_api_key cr q = (case pu_api_key u of
        None \<Rightarrow> get_decrypted_api_key cr p
      | Some v \<Rightarrow> Inr (case v of Some s \<Rightarrow> if s = [] then None else Some s | None \<Rightarrow> None))"
proof -
  obtain p where p: "find_provider db i = Some p"
    using assms by (auto simp: update_llm_provider_def split: option.splits)
  have key: "lp_key_encrypted q = lp_key_encrypted (patched cr salt u p)"
    using assms p by (auto simp: update_llm_provider_def Let_def split: if_splits)
  have "get_decrypted_api_key cr q = (case pu_api_key u of
        None \<Rightarrow> get_decrypted_api_key cr p
      | Some v \<Rightarrow> get_decrypted_api_key cr (q\<lparr>lp_key_encrypted := wrap_api_key cr salt v\<rparr>))"
    using key by (auto simp: patched_def intro!: key_kept split: option.splits)
  then show ?thesis using p by (auto simp: wrapped_key split: option.splits)
qed

end

lemma dropWhile_replicate: "\<not> P y \<Longrightarrow> P x \<Longrightarrow> dropWhile P (replicate n x @ y # s) = y # s"
  by (induction n) auto

interpretation sample_cipher: cipher sample_crypto
  by unfold_locales (simp add: sample_crypto_def dget_def dropWhile_replicate)

text \<open>
  C31 (roundtrip). The key a provider was given is the key its calls are made with: creating or
  updating a provider with a key and decrypting the row gives the key back, an empty one clears
  it, and an update that does not mention the key leaves it.
\<close>

theorem api_key_roundtrip:
  assumes "cipher cr"
  shows "(\<forall>p db'. create_llm_provider cr salt new_id now payload db = (Inr p, db') \<longrightarrow>
      get_decrypted_api_key cr p
        = Inr (case pc_api_key payload of Some s \<Rightarrow> if s = [] then None else Some s | None \<Rightarrow> None)) \<and>
    (\<forall>q db'. update_llm_provider cr salt now i u db = (Inr q, db') \<longrightarrow>
      (\<exists>p. find_provider db i = Some p \<and>
        get_decrypted_api_key cr q = (case pu_api_key u of
            None \<Rightarrow> get_decrypted_api_key cr p
          | Some v \<Rightarrow> Inr (case v of Some s \<Rightarrow> if s = [] then None else Some s | None \<Rightarrow> None))))"
  using cipher.created_key [OF assms] cipher.updated_key [OF assms] by blast

theorem api_key_roundtrip_witness:
  "get_decrypted_api_key sample_crypto (hd (pd_providers one_provider)) = Inr (Some ''k1'')"
proof -
  have "create_llm_provider sample_crypto ''s1'' ''p1'' 7 sample_payload
      \<lparr>pd_providers = [], pd_agent_providers = []\<rparr> = (Inr (hd (pd_providers one_provider)), one_provider)"
    by (simp add: one_provider_def create_llm_provider_def Let_def)
  with api_key_roundtrip [OF sample_cipher.cipher_axioms] show ?thesis
    by (fastforce simp: sample_payload_def)
qed

end
