(* ===== verification/RateLimit.thy ===== *)
theory RateLimit
  imports Actions
begin

text \<open>
  Fixed-window counters in Redis (luna_core/core/rate_limit.py).  INCR, TTL, EXPIRE and DEL are
  the fields of a \<open>counters\<close> record.
\<close>

record 'w counters =
  ct_incr :: "string \<Rightarrow> 'w \<Rightarrow> int \<times> 'w"
  ct_ttl :: "string \<Rightarrow> 'w \<Rightarrow> int"
  ct_expire :: "string \<Rightarrow> int \<Rightarrow> 'w \<Rightarrow> 'w"
  ct_delete :: "string \<Rightarrow> 'w \<Rightarrow> 'w"

record rate_limit_result =
  rl_allowed :: bool
  rl_remaining :: int
  rl_retry_after :: int

text \<open>The increment and the time to live are read in one pipeline.\<close>

definition check_rate_limit ::
  "'w counters \<Rightarrow> string \<Rightarrow> int \<Rightarrow> int \<Rightarrow> ('w, rate_limit_result) act" where
  "check_rate_limit redis key limit window =
     bindA (stepA (\<lambda>w. let (n, w') = ct_incr redis key w in (Inr (n, ct_ttl redis key w'), w'))) (\<lambda>(n, ttl).
     bindA (if ttl = -1 then bindA (writeA (ct_expire redis key window)) (\<lambda>_. returnA window)
            else returnA ttl) (\<lambda>ttl'.
       returnA \<lparr>rl_allowed = (n \<le> limit), rl_remaining = max 0 (limit - n),
         rl_retry_after = (if ttl' > 0 then ttl' else window)\<rparr>))"

definition reset_rate_limit :: "'w counters \<Rightarrow> string \<Rightarrow> ('w, unit) act" where
  "reset_rate_limit redis key = writeA (ct_delete redis key)"

lemma keeps_rate_limit:
  assumes "\<And>k w. obs (snd (ct_incr redis k w)) = obs w" and "\<And>k n w. obs (ct_expire redis k n w) = obs w"
  shows "keeps obs (check_rate_limit redis key limit window)"
  by (auto simp: check_rate_limit_def assms case_prod_beta intro!: keeps_intros keeps_write keeps_step)

end
