(* ===== verification/LLMRouter.thy ===== *)
theory LLMRouter
  imports LLMProviders RateLimit
begin

text \<open>
  The router of model calls (luna_core/llm/router.py): the provider of a row, cached until the row
  is edited, the wait for the limit, and the retries of a completion.

  What a built provider does is a field of the environment for each of its methods; the SDKs'
  errors are told by \<open>lr_sdk_status\<close>, which gives the status of one, if it has any.
\<close>

section \<open>Building a provider\<close>

datatype built =
    ClaudeCLIProvider string
  | AnthropicProvider "string option" string
  | GenericProvider string string

definition rstrip_slashes :: "string \<Rightarrow> string" where
  "rstrip_slashes s = rev (dropWhile (\<lambda>c. c = CHR ''/'') (rev s))"

definition normalize_chat_base_url :: "string \<Rightarrow> string" where
  "normalize_chat_base_url url =
     (let stripped = rstrip_slashes url; suffix = ''/chat/completions''
      in if endswith stripped suffix then take (length stripped - length suffix) stripped else url)"

definition build_provider :: "crypto \<Rightarrow> llm_provider \<Rightarrow> exn + built" where
  "build_provider cr row =
     (if lp_kind row = ''claude_cli'' then Inr (ClaudeCLIProvider (lp_base_url row))
      else bindR (get_decrypted_api_key cr row) (\<lambda>key.
        if lp_kind row = ''anthropic'' then Inr (AnthropicProvider key (lp_base_url row))
        else Inr (GenericProvider (case key of None \<Rightarrow> ''missing'' | Some k \<Rightarrow> k)
               (normalize_chat_base_url (case lp_chat_url row of
                  Some u \<Rightarrow> if u = [] then lp_base_url row else u
                | None \<Rightarrow> lp_base_url row)))))"

section \<open>The environment\<close>

type_synonym provider_cache = "(string \<times> int \<times> built) list"

record ('w, 'c) router_env =
  lr_db :: "'w \<Rightarrow> provider_db"
  lr_crypto :: crypto
  lr_cache :: "'w \<Rightarrow> provider_cache"
  lr_set_cache :: "provider_cache \<Rightarrow> 'w \<Rightarrow> 'w"
  lr_counters :: "'w counters"
  lr_rpm :: int
  lr_window :: int
  lr_max_retries :: int
  lr_base_delay :: rat
  lr_sleep :: "rat \<Rightarrow> ('w, unit) act"
  lr_uniform :: "rat \<Rightarrow> ('w, rat) act"
  lr_sdk_status :: "exn \<Rightarrow> int option option"
  lr_complete :: "built \<Rightarrow> 'c \<Rightarrow> ('w, pydict list) act"
  lr_compact :: "built \<Rightarrow> ('c \<Rightarrow> ('w, pydict option) act) option"
  lr_count :: "built \<Rightarrow> ('c \<Rightarrow> ('w, int option) act) option"
  lr_fast :: "built \<Rightarrow> ('w, string option) act option"
  lr_embedding :: "(string \<Rightarrow> ('w, rat list) act) option"

section \<open>Resolving a provider\<close>

definition resolve_chat_provider :: "('w, 'c) router_env \<Rightarrow> string \<Rightarrow> ('w, built) act" where
  "resolve_chat_provider env i =
     bindA (readA (\<lambda>w. find_provider (lr_db env w) i)) (\<lambda>found.
       case found of
         None \<Rightarrow> raiseA (OtherError ''KeyError'' (''no llm provider '' @ i))
       | Some row \<Rightarrow>
           if \<not> lp_is_active row then
             raiseA (OtherError ''KeyError'' (''llm provider '' @ i @ '' is inactive''))
           else bindA (readA (lr_cache env)) (\<lambda>cache.
             case map_of cache i of
               Some (t, b) \<Rightarrow>
                 if t = lp_updated row then returnA b
                 else bindA (liftR (build_provider (lr_crypto env) row)) (\<lambda>b'.
                   bindA (writeA (lr_set_cache env (dset cache i (lp_updated row, b')))) (\<lambda>_.
                     returnA b'))
             | None \<Rightarrow>
                 bindA (liftR (build_provider (lr_crypto env) row)) (\<lambda>b'.
                   bindA (writeA (lr_set_cache env (dset cache i (lp_updated row, b')))) (\<lambda>_.
                     returnA b'))))"

definition router_fast_model :: "('w, 'c) router_env \<Rightarrow> string \<Rightarrow> ('w, string option) act" where
  "router_fast_model env i =
     bindA (readA (\<lambda>w. find_provider (lr_db env w) i)) (\<lambda>found.
       case found of
         None \<Rightarrow> returnA None
       | Some row \<Rightarrow>
           (case Option.bind (map_of PROVIDER_KINDS (lp_kind row)) pk_fast_model of
              Some m \<Rightarrow> returnA (Some m)
            | None \<Rightarrow>
                bindA (resolve_chat_provider env i) (\<lambda>b.
                  case lr_fast env b of None \<Rightarrow> returnA None | Some ask \<Rightarrow> ask)))"

section \<open>The rate limit\<close>

definition enforce_rate_limit :: "('w, 'c) router_env \<Rightarrow> string \<Rightarrow> ('w, unit) act" where
  "enforce_rate_limit env i =
     bindA (check_rate_limit (lr_counters env) (''llm_ratelimit:'' @ i) (lr_rpm env) (lr_window env)) (\<lambda>r.
       if rl_allowed r then returnA ()
       else lr_sleep env (of_int (max 1 (min (rl_retry_after r) (lr_window env)))))"

section \<open>A completion and its retries\<close>

definition LLMRateLimitError :: string where "LLMRateLimitError = ''LLMRateLimitError''"

definition rate_limited :: "exn \<Rightarrow> bool" where
  "rate_limited e \<longleftrightarrow> exn_name e = LLMRateLimitError"

definition transient_status :: "('w, 'c) router_env \<Rightarrow> exn \<Rightarrow> bool" where
  "transient_status env e =
     (case lr_sdk_status env e of
        None \<Rightarrow> False
      | Some status \<Rightarrow> (case status of None \<Rightarrow> True | Some n \<Rightarrow> n \<ge> 500))"

fun aborted :: "exn \<Rightarrow> bool" where
  "aborted (AbortSignalError _ _) = True"
| "aborted _ = False"

definition retryable :: "('w, 'c) router_env \<Rightarrow> exn \<Rightarrow> bool" where
  "retryable env e \<longleftrightarrow> \<not> aborted e \<and> catchable e \<and> (rate_limited e \<or> transient_status env e)"

definition backoff_delay :: "('w, 'c) router_env \<Rightarrow> nat \<Rightarrow> ('w, rat) act" where
  "backoff_delay env attempt =
     bindA (lr_uniform env (lr_base_delay env)) (\<lambda>jitter.
       returnA (lr_base_delay env * 2 ^ (attempt - 1) + jitter))"

text \<open>\<open>left\<close> attempts remain after this one, \<open>failed\<close> have failed.\<close>

fun completion_attempts ::
  "('w, 'c) router_env \<Rightarrow> string \<Rightarrow> 'c \<Rightarrow> nat \<Rightarrow> nat \<Rightarrow> ('w, pydict list) act" where
  "completion_attempts env i call failed left =
     bindA (resolve_chat_provider env i) (\<lambda>impl.
     bindA (enforce_rate_limit env i) (\<lambda>_.
     bindA (attemptA (retryable env) (lr_complete env impl call)) (\<lambda>r.
       case r of
         Inr blocks \<Rightarrow> returnA blocks
       | Inl e \<Rightarrow>
           (case left of
              0 \<Rightarrow> raiseA e
            | Suc n \<Rightarrow>
                bindA (backoff_delay env (Suc failed)) (\<lambda>delay.
                bindA (lr_sleep env delay) (\<lambda>_.
                  completion_attempts env i call (Suc failed) n))))))"

definition router_complete :: "('w, 'c) router_env \<Rightarrow> string \<Rightarrow> 'c \<Rightarrow> ('w, pydict list) act" where
  "router_complete env i call =
     (if lr_max_retries env < 0 then raiseA (OtherError ''AssertionError'' [])
      else completion_attempts env i call 0 (nat (lr_max_retries env)))"

section \<open>Side calls\<close>

text \<open>\<open>except AbortSignalError: raise\<close> and \<open>except Exception: return None\<close>.\<close>

definition or_none :: "('w, 'a option) act \<Rightarrow> ('w, 'a option) act" where
  "or_none m = bindA (attemptA (\<lambda>e. catchable e \<and> \<not> aborted e) m) (\<lambda>r.
     case r of Inl _ \<Rightarrow> returnA None | Inr x \<Rightarrow> returnA x)"

definition router_compact :: "('w, 'c) router_env \<Rightarrow> string \<Rightarrow> 'c \<Rightarrow> ('w, pydict option) act" where
  "router_compact env i call =
     bindA (resolve_chat_provider env i) (\<lambda>impl.
       case lr_compact env impl of
         None \<Rightarrow> returnA None
       | Some m \<Rightarrow> bindA (enforce_rate_limit env i) (\<lambda>_. or_none (m call)))"

definition router_count_prompt :: "('w, 'c) router_env \<Rightarrow> string \<Rightarrow> 'c \<Rightarrow> ('w, int option) act" where
  "router_count_prompt env i call =
     bindA (resolve_chat_provider env i) (\<lambda>impl.
       case lr_count env impl of None \<Rightarrow> returnA None | Some m \<Rightarrow> or_none (m call))"

definition router_embed :: "('w, 'c) router_env \<Rightarrow> string \<Rightarrow> ('w, rat list) act" where
  "router_embed env words =
     (case lr_embedding env of
        None \<Rightarrow> raiseA (OtherError ''RuntimeError''
          (''LLMRouter has no embedding provider configured; ''
           @ ''pass '' @ [CHR 0x60] @ ''embedding_provider='' @ [CHR 0x60] @ '' when constructing the router.''))
      | Some ask \<Rightarrow> ask words)"

section \<open>The provider of a call is the one of its row\<close>

locale provider_host =
  fixes env :: "('w, 'c) router_env"
  assumes cache: "lr_cache env (lr_set_cache env c w) = c"
    and rows: "lr_db env (lr_set_cache env c w) = lr_db env w"

text \<open>
  Edits of the table and calls in any order.  The clock of the database goes on with every edit:
  the time an edit leaves on a row is later than that of every edit before it.
\<close>

inductive router_reach :: "('w, 'c) router_env \<Rightarrow> provider_db \<Rightarrow> provider_cache \<Rightarrow> int \<Rightarrow> bool"
  for env where
  start: "distinct (map lp_id (pd_providers db)) \<Longrightarrow> \<forall>p \<in> set (pd_providers db). lp_updated p \<le> now \<Longrightarrow>
    router_reach env db [] now"
| created: "router_reach env db c now \<Longrightarrow> now < t \<Longrightarrow> new_id \<notin> lp_id ` set (pd_providers db) \<Longrightarrow>
    router_reach env (snd (create_llm_provider (lr_crypto env) salt new_id t payload db)) c t"
| updated: "router_reach env db c now \<Longrightarrow> now < t \<Longrightarrow>
    router_reach env (snd (update_llm_provider (lr_crypto env) salt t i u db)) c t"
| deleted: "router_reach env db c now \<Longrightarrow> router_reach env (snd (delete_llm_provider i db)) c now"
| resolved: "router_reach env (lr_db env w) (lr_cache env w) now \<Longrightarrow>
    resolve_chat_provider env i w = Some (r, w') \<Longrightarrow>
    router_reach env (lr_db env w') (lr_cache env w') now"

definition coherent :: "crypto \<Rightarrow> provider_db \<Rightarrow> provider_cache \<Rightarrow> int \<Rightarrow> bool" where
  "coherent cr db c now \<longleftrightarrow> distinct (map lp_id (pd_providers db)) \<and>
     (\<forall>p \<in> set (pd_providers db). lp_updated p \<le> now) \<and>
     (\<forall>i t b. map_of c i = Some (t, b) \<longrightarrow> t \<le> now \<and>
        (\<forall>p. find_provider db i = Some p \<longrightarrow> lp_updated p = t \<longrightarrow> build_provider cr p = Inr b))"

text \<open>New rows: each is an old one of the same identifier, or later than everything in the cache.\<close>

lemma coherent_edit:
  assumes "coherent cr db c now" and "now \<le> t" and "distinct (map lp_id (pd_providers db'))"
    and "\<And>p. p \<in> set (pd_providers db') \<Longrightarrow>
      p \<in> set (pd_providers db) \<or> lp_updated p = t \<and> now < t"
  shows "coherent cr db' c t"
proof -
  have "build_provider cr p = Inr b"
    if "map_of c i = Some (lp_updated p, b)" "find_provider db' i = Some p" for i b p
  proof -
    have p: "p \<in> set (pd_providers db')" "lp_id p = i" using find_provider_Some [OF that(2)] by auto
    have "lp_updated p \<le> now" using assms(1) that(1) by (auto simp: coherent_def)
    then have "p \<in> set (pd_providers db)" using assms(4) [OF p(1)] by auto
    then have "find_provider db i = Some p"
      using find_provider_ok [of db p] p(2) assms(1) by (simp add: coherent_def)
    then show ?thesis using assms(1) that(1) by (simp add: coherent_def)
  qed
  moreover have "\<forall>p \<in> set (pd_providers db'). lp_updated p \<le> t"
    using assms(1,2,4) by (fastforce simp: coherent_def)
  ultimately show ?thesis
    using assms(1-3) by (fastforce simp: coherent_def)
qed

context provider_host
begin

lemma resolve_spec:
  assumes "coherent (lr_crypto env) (lr_db env w) (lr_cache env w) now"
    and "resolve_chat_provider env i w = Some (r, w')"
  shows "coherent (lr_crypto env) (lr_db env w') (lr_cache env w') now \<and>
    (\<forall>b. r = Inr b \<longrightarrow> (\<exists>p. find_provider (lr_db env w) i = Some p \<and> lp_is_active p \<and>
       build_provider (lr_crypto env) p = Inr b))"
proof (cases "find_provider (lr_db env w) i")
  case None
  then show ?thesis using assms by (auto simp: resolve_chat_provider_def act_simps)
next
  case (Some p)
  note p = find_provider_Some [OF Some]
  let ?cr = "lr_crypto env" and ?db = "lr_db env w" and ?c = "lr_cache env w"
  have built: "coherent ?cr ?db (dset ?c i (lp_updated p, b)) now"
    if "build_provider ?cr p = Inr b" for b
    using assms(1) p Some that by (auto simp: coherent_def)
  consider (inactive) "\<not> lp_is_active p"
    | (hit) b where "lp_is_active p" "map_of ?c i = Some (lp_updated p, b)"
    | (miss) "lp_is_active p" "\<And>b. map_of ?c i \<noteq> Some (lp_updated p, b)"
    by (cases "lp_is_active p") auto
  then show ?thesis
  proof cases
    case inactive
    then show ?thesis using assms Some by (auto simp: resolve_chat_provider_def act_simps)
  next
    case (hit b)
    then have "r = Inr b" "w' = w"
      using assms(2) Some by (auto simp: resolve_chat_provider_def act_simps)
    then show ?thesis using assms(1) Some hit by (auto simp: coherent_def)
  next
    case miss
    then have r: "resolve_chat_provider env i w = (case build_provider ?cr p of
        Inl e \<Rightarrow> Some (Inl e, w)
      | Inr b \<Rightarrow> Some (Inr b, lr_set_cache env (dset ?c i (lp_updated p, b)) w))"
      using Some by (auto simp: resolve_chat_provider_def act_simps split: option.splits sum.splits)
    then show ?thesis
      using assms Some miss(1) built by (auto simp: cache rows split: sum.splits)
  qed
qed

lemma reach_coherent: "router_reach env db c now \<Longrightarrow> coherent (lr_crypto env) db c now"
proof (induction rule: router_reach.induct)
  case (created db c now t new_id salt payload)
  then show ?case
    by (intro coherent_edit [OF created.IH])
       (auto simp: create_llm_provider_def Let_def coherent_def split: if_splits)
next
  case (updated db c now t salt i u)
  let ?db = "snd (update_llm_provider (lr_crypto env) salt t i u db)"
  have ids: "map lp_id (pd_providers ?db) = map lp_id (pd_providers db)"
    by (auto simp: update_llm_provider_def Let_def dest: find_provider_Some split: option.splits)
  have "distinct (map lp_id (pd_providers ?db))"
    unfolding ids using updated.IH by (simp add: coherent_def)
  moreover have "p \<in> set (pd_providers db) \<or> lp_updated p = t \<and> now < t" if "p \<in> set (pd_providers ?db)" for p
    using that updated.hyps(2)
    by (auto simp: update_llm_provider_def Let_def dest: find_provider_Some
        split: option.splits if_splits)
  ultimately show ?case using updated.hyps by (intro coherent_edit [OF updated.IH]) auto
next
  case (deleted db c now i)
  then show ?case
    by (intro coherent_edit [OF deleted.IH])
       (auto simp: delete_llm_provider_def coherent_def distinct_map_filter
          split: option.splits if_splits)
next
  case (resolved w now i r w')
  then show ?case using resolve_spec by blast
qed (auto simp: coherent_def)

end

text \<open>
  C27 (invariant). A call never uses a stale provider.  Whatever edits and calls came before, in
  any order, the provider a call gets is the one its row describes now, with the key and the
  address of the last edit, and a row that is missing or inactive gives none.
\<close>

theorem calls_use_current_row:
  assumes "provider_host env" and "router_reach env (lr_db env w) (lr_cache env w) now"
    and "resolve_chat_provider env i w = Some (Inr b, w')"
  shows "\<exists>p. find_provider (lr_db env w) i = Some p \<and> lp_is_active p \<and>
    build_provider (lr_crypto env) p = Inr b"
  using provider_host.resolve_spec [OF assms(1) provider_host.reach_coherent [OF assms(1,2)] assms(3)]
  by blast

section \<open>A completion is attempted a bounded number of times\<close>

locale router_services =
  fixes env :: "('w, 'c) router_env" and calls :: "'w \<Rightarrow> nat"
  assumes store: "calls (lr_set_cache env c w) \<le> calls w" "calls (snd (ct_incr (lr_counters env) k w)) \<le> calls w"
      "calls (ct_expire (lr_counters env) k ttl w) \<le> calls w"
    and waits: "costs calls 0 (lr_sleep env s)" "costs calls 0 (lr_uniform env s)"
    and attempt: "costs calls 1 (lr_complete env b call)"
begin

lemma free_resolve: "costs calls 0 (resolve_chat_provider env i)"
  by (auto simp: resolve_chat_provider_def store split: option.splits
      intro!: costs_bind0 costs_write costs_raise costs_read costs_liftR costs_return)

lemma free_limit: "costs calls 0 (enforce_rate_limit env i)"
  by (auto simp: enforce_rate_limit_def check_rate_limit_def waits store case_prod_beta Let_def
      intro!: costs_bind0 costs_step costs_write costs_return)

lemma costs_attempts: "costs calls (Suc left) (completion_attempts env i call failed left)"
proof (induction left arbitrary: failed)
  case (Suc n)
  have "costs calls 0 (backoff_delay env k)" for k
    by (auto simp: backoff_delay_def waits intro!: costs_bind0 costs_return)
  then have again: "costs calls (Suc n) (bindA (backoff_delay env (Suc failed)) (\<lambda>delay.
      bindA (lr_sleep env delay) (\<lambda>_. completion_attempts env i call (Suc failed) n)))"
    by (intro costs_bind0 waits Suc.IH)
  have "costs calls (1 + Suc n) (completion_attempts env i call failed (Suc n))"
    by (subst completion_attempts.simps, intro costs_bind0 [OF free_resolve] costs_bind0 [OF free_limit]
          costs_bind [OF costs_attempt [OF attempt]]) (use again in \<open>auto split: sum.splits\<close>)
  then show ?case by simp
next
  case 0
  have "costs calls (1 + 0) (completion_attempts env i call failed 0)"
    by (subst completion_attempts.simps, intro costs_bind0 [OF free_resolve] costs_bind0 [OF free_limit]
          costs_bind [OF costs_attempt [OF attempt]]) (auto split: sum.splits)
  then show ?case by simp
qed

end

text \<open>
  C29 (bounds). A completion comes back, whatever the provider answers, after at most one
  attempt more than the retries allow.
\<close>

theorem completion_attempts_bounded:
  assumes "router_services env calls"
  shows "\<exists>r w'. router_complete env i call w = Some (r, w') \<and>
    calls w' \<le> calls w + nat (lr_max_retries env + 1)"
proof (cases "lr_max_retries env < 0")
  case False
  let ?n = "nat (lr_max_retries env)"
  have "\<exists>r w'. completion_attempts env i call 0 ?n w = Some (r, w') \<and> calls w' \<le> calls w + Suc ?n"
    using router_services.costs_attempts [OF assms] unfolding costs_def by blast
  moreover have "Suc ?n = nat (lr_max_retries env + 1)" using False by simp
  ultimately show ?thesis using False by (simp add: router_complete_def)
qed (simp add: router_complete_def raiseA_def)

section \<open>A router at work\<close>

record router_world =
  rw_db :: provider_db
  rw_cache :: provider_cache
  rw_calls :: nat
  rw_count :: int

definition too_busy :: exn where "too_busy = OtherError ''OverloadedError'' ''529''"

text \<open>The provider of this host is overloaded, whatever it is asked.\<close>

definition sample_router_env :: "(router_world, unit) router_env" where
  "sample_router_env =
     \<lparr>lr_db = rw_db, lr_crypto = sample_crypto, lr_cache = rw_cache,
      lr_set_cache = (\<lambda>c w. w\<lparr>rw_cache := c\<rparr>),
      lr_counters = \<lparr>ct_incr = (\<lambda>_ w. (rw_count w + 1, w\<lparr>rw_count := rw_count w + 1\<rparr>)),
        ct_ttl = (\<lambda>_ _. 30), ct_expire = (\<lambda>_ _ w. w), ct_delete = (\<lambda>_ w. w\<lparr>rw_count := 0\<rparr>)\<rparr>, lr_rpm = 60, lr_window = 60, lr_max_retries = 3, lr_base_delay = 1,
      lr_sleep = (\<lambda>_. returnA ()), lr_uniform = (\<lambda>_. returnA 0),
      lr_sdk_status = (\<lambda>e. if e = too_busy then Some (Some 529) else None),
      lr_complete = (\<lambda>_ _. stepA (\<lambda>w. (Inl too_busy, w\<lparr>rw_calls := rw_calls w + 1\<rparr>))),
      lr_compact = (\<lambda>_. None), lr_count = (\<lambda>_. None), lr_fast = (\<lambda>_. None), lr_embedding = None\<rparr>"

interpretation sample_router: provider_host sample_router_env
  by unfold_locales (simp_all add: sample_router_env_def)

interpretation sample_calls: router_services sample_router_env rw_calls
  by unfold_locales (simp_all add: sample_router_env_def costs_return, simp add: costs_def stepA_def)

definition router_start :: router_world where
  "router_start = \<lparr>rw_db = one_provider, rw_cache = [], rw_calls = 0, rw_count = 0\<rparr>"

theorem completion_attempts_bounded_witness:
  "\<exists>r w'. router_complete sample_router_env ''p1'' () router_start = Some (r, w') \<and> rw_calls w' \<le> 4"
  using completion_attempts_bounded [OF sample_calls.router_services_axioms, of "''p1''" "()" router_start]
  by (simp add: sample_router_env_def router_start_def)

text \<open>The address is edited after the first call has put the provider into the cache.\<close>

definition moved :: provider_update where
  "moved = \<lparr>pu_name = None, pu_kind = None, pu_base_url = Some (Some ''https://b''), pu_chat_url = None,
     pu_models_url = None, pu_api_key = None, pu_is_active = None\<rparr>"

definition router_called :: router_world where
  "router_called = (case resolve_chat_provider sample_router_env ''p1'' router_start of
     Some (_, w) \<Rightarrow> w | None \<Rightarrow> router_start)"

definition router_moved :: router_world where
  "router_moved = router_called\<lparr>rw_db :=
     snd (update_llm_provider sample_crypto ''s2'' 9 ''p1'' moved (rw_db router_called))\<rparr>"

lemma router_moved_reach:
  "router_reach sample_router_env (lr_db sample_router_env router_moved)
     (lr_cache sample_router_env router_moved) 9"
proof -
  let ?e = sample_router_env
  have r: "resolve_chat_provider ?e ''p1'' router_start \<noteq> None" by code_simp
  have "distinct (map lp_id (pd_providers one_provider))"
    and "\<forall>p \<in> set (pd_providers one_provider). lp_updated p \<le> 7" by code_simp+
  then have "router_reach ?e one_provider [] 7" by (rule router_reach.start)
  then have "router_reach ?e (lr_db ?e router_start) (lr_cache ?e router_start) 7"
    by (simp add: sample_router_env_def router_start_def)
  then have "router_reach ?e (lr_db ?e router_called) (lr_cache ?e router_called) 7"
    using r by (auto simp: router_called_def split: option.splits intro: router_reach.resolved)
  then have "router_reach ?e (snd (update_llm_provider (lr_crypto ?e) ''s2'' 9 ''p1'' moved
      (lr_db ?e router_called))) (lr_cache ?e router_called) 9"
    by (rule router_reach.updated) simp
  then show ?thesis by (simp add: router_moved_def sample_router_env_def)
qed

lemma moved_resolved:
  "case resolve_chat_provider sample_router_env ''p1'' router_moved of
     Some (Inr b, _) \<Rightarrow> b = AnthropicProvider (Some ''k1'') ''https://b''
   | _ \<Rightarrow> False"
  by code_simp

theorem calls_use_current_row_witness:
  "\<exists>p. find_provider (rw_db router_moved) ''p1'' = Some p \<and> lp_is_active p \<and>
     build_provider sample_crypto p = Inr (AnthropicProvider (Some ''k1'') ''https://b'')"
proof -
  obtain w' where r: "resolve_chat_provider sample_router_env ''p1'' router_moved
      = Some (Inr (AnthropicProvider (Some ''k1'') ''https://b''), w')"
    using moved_resolved by (auto split: option.splits prod.splits sum.splits)
  from calls_use_current_row [OF sample_router.provider_host_axioms router_moved_reach r]
  show ?thesis by (simp add: sample_router_env_def)
qed

end
