(* ===== verification/Accounts.thy ===== *)
theory Accounts
  imports RateLimit
begin

text \<open>
  Accounts: registration, sessions (luna_core/services/auth.py), the confirmation of an address
  (services/verification.py), roles and permissions (services/permission.py,
  seeds/permissions.py), and the tables below them (models/user.py, refresh_token.py,
  email_verification_code.py, permission.py).

  A function of a service is one transaction on the tables; what it draws at random, the time and
  the ids of new rows are arguments.  Hashing (core/security.py) and the encoding of tokens are
  the fields of \<open>secrets\<close>.  The ids of tokens and permissions, which nothing reads, are left out.
\<close>

section \<open>Rows\<close>

record user =
  usr_id :: string
  usr_email :: string
  usr_password_hash :: string
  usr_role :: string
  usr_active :: bool
  usr_verified :: bool
  usr_verified_at :: "int option"
  usr_created :: int

record refresh_token =
  rf_user :: string
  rf_hash :: string
  rf_expires :: int
  rf_revoked :: bool
  rf_created :: int

record email_code =
  ec_id :: string
  ec_user :: string
  ec_hash :: string
  ec_expires :: int
  ec_attempts :: int
  ec_used :: "int option"
  ec_created :: int

type_synonym permission = "string \<times> string \<times> string"

record auth_db =
  ad_users :: "user list"
  ad_tokens :: "refresh_token list"
  ad_codes :: "email_code list"
  ad_permissions :: "permission list"

definition http_exception :: "nat \<Rightarrow> string \<Rightarrow> exn" where
  "http_exception status detail = OtherError ''HTTPException'' (nat_str status @ '' '' @ detail)"

definition commit_refused :: exn where
  "commit_refused = OtherError ''IntegrityError'' []"

section \<open>Secrets\<close>

datatype jwt_result = ExpiredSignature | InvalidToken | Claims pydict

text \<open>\<open>sc_checkpw\<close> is \<open>None\<close> for a ValueError, and \<open>sc_decode\<close> takes the time.\<close>

record secrets =
  sc_hashpw :: "string \<Rightarrow> string \<Rightarrow> string"
  sc_checkpw :: "string \<Rightarrow> string \<Rightarrow> bool option"
  sc_sha256 :: "string \<Rightarrow> string"
  sc_encode :: "pydict \<Rightarrow> string"
  sc_decode :: "int \<Rightarrow> string \<Rightarrow> jwt_result"
  sc_uuid :: "pyval \<Rightarrow> exn + string"

record auth_settings =
  st_access_minutes :: int
  st_refresh_days :: int
  st_code_minutes :: int
  st_max_attempts :: int
  st_verification_required :: bool
  st_login_attempts :: int
  st_login_window :: int

definition verify_password :: "secrets \<Rightarrow> string \<Rightarrow> string \<Rightarrow> bool" where
  "verify_password se password hashed = (case sc_checkpw se password hashed of None \<Rightarrow> False | Some b \<Rightarrow> b)"

definition create_access_token ::
  "secrets \<Rightarrow> auth_settings \<Rightarrow> int \<Rightarrow> string \<Rightarrow> string \<Rightarrow> int option \<Rightarrow> pydict option \<Rightarrow> string" where
  "create_access_token se st now jti subject delta extra =
     (let expire = now + (case delta of Some d \<Rightarrow> if d = 0 then st_access_minutes st * 60 else d
                          | None \<Rightarrow> st_access_minutes st * 60);
          payload = [(''sub'', PStr subject), (''iat'', PInt now), (''exp'', PInt expire),
            (''type'', PStr ''access''), (''jti'', PStr jti)]
      in sc_encode se (case extra of None \<Rightarrow> payload | Some d \<Rightarrow> dupdate payload d))"

definition hash_refresh_token :: "secrets \<Rightarrow> string \<Rightarrow> string" where
  "hash_refresh_token se raw = sc_sha256 se raw"

definition hash_token :: "secrets \<Rightarrow> string \<Rightarrow> string" where
  "hash_token se raw = sc_sha256 se raw"

text \<open>\<open>n\<close> is drawn below \<open>10 ** digits\<close>.\<close>

definition numeric_code :: "nat \<Rightarrow> nat \<Rightarrow> string" where
  "numeric_code digits n = replicate (digits - length (nat_str n)) (CHR ''0'') @ nat_str n"

section \<open>Registration and sessions\<close>

definition normalized_email :: "string \<Rightarrow> string" where
  "normalized_email email = str_strip (str_lower email)"

definition user_by_email :: "auth_db \<Rightarrow> string \<Rightarrow> user option" where
  "user_by_email db email = List.find (\<lambda>u. usr_email u = email) (ad_users db)"

definition find_user :: "auth_db \<Rightarrow> string \<Rightarrow> user option" where
  "find_user db i = List.find (\<lambda>u. usr_id u = i) (ad_users db)"

definition find_token :: "auth_db \<Rightarrow> string \<Rightarrow> refresh_token option" where
  "find_token db hashed = List.find (\<lambda>t. rf_hash t = hashed) (ad_tokens db)"

definition add_user :: "user \<Rightarrow> auth_db \<Rightarrow> (exn + user) \<times> auth_db" where
  "add_user u db =
     (if usr_email u \<in> usr_email ` set (ad_users db) \<or> usr_id u \<in> usr_id ` set (ad_users db)
      then (Inl (http_exception 409 ''Email already registered''), db)
      else (Inr u, db\<lparr>ad_users := ad_users db @ [u]\<rparr>))"

definition register_user ::
  "secrets \<Rightarrow> string \<Rightarrow> string \<Rightarrow> int \<Rightarrow> string \<Rightarrow> string \<Rightarrow> auth_db \<Rightarrow> (exn + user) \<times> auth_db" where
  "register_user se salt new_id now email password db =
     (case user_by_email db (normalized_email email) of
        Some _ \<Rightarrow> (Inl (http_exception 409 ''Email already registered''), db)
      | None \<Rightarrow> add_user
          \<lparr>usr_id = new_id, usr_email = normalized_email email,
           usr_password_hash = sc_hashpw se salt password, usr_role = ''user'', usr_active = True,
           usr_verified = False, usr_verified_at = None, usr_created = now\<rparr> db)"

definition authenticate_user :: "secrets \<Rightarrow> string \<Rightarrow> string \<Rightarrow> auth_db \<Rightarrow> user option" where
  "authenticate_user se email password db =
     (case user_by_email db (normalized_email email) of
        None \<Rightarrow> None
      | Some u \<Rightarrow>
          if \<not> usr_active u then None
          else if \<not> verify_password se password (usr_password_hash u) then None
          else Some u)"

record issued_tokens =
  it_access :: string
  it_access_expires_in :: int
  it_refresh :: string
  it_refresh_expires :: int
  it_user :: user

text \<open>The row of a token refers to its user, and its hash is unique.\<close>

definition issue_tokens ::
  "secrets \<Rightarrow> auth_settings \<Rightarrow> int \<Rightarrow> string \<Rightarrow> string \<Rightarrow> user \<Rightarrow> auth_db
   \<Rightarrow> (exn + issued_tokens) \<times> auth_db" where
  "issue_tokens se st now new_raw jti u db =
     (let expires = now + st_refresh_days st * 86400;
          row = \<lparr>rf_user = usr_id u, rf_hash = hash_refresh_token se new_raw, rf_expires = expires,
                 rf_revoked = False, rf_created = now\<rparr>
      in if rf_hash row \<in> rf_hash ` set (ad_tokens db) \<or> usr_id u \<notin> usr_id ` set (ad_users db)
         then (Inl commit_refused, db)
         else (Inr \<lparr>it_access = create_access_token se st now jti (usr_id u) None None,
                    it_access_expires_in = st_access_minutes st * 60, it_refresh = new_raw,
                    it_refresh_expires = expires, it_user = u\<rparr>,
               db\<lparr>ad_tokens := ad_tokens db @ [row]\<rparr>))"

definition revoke_all_user_tokens :: "string \<Rightarrow> auth_db \<Rightarrow> auth_db" where
  "revoke_all_user_tokens i db = db\<lparr>ad_tokens :=
     map (\<lambda>t. if rf_user t = i \<and> \<not> rf_revoked t then t\<lparr>rf_revoked := True\<rparr> else t) (ad_tokens db)\<rparr>"

definition revoke_token :: "refresh_token \<Rightarrow> auth_db \<Rightarrow> auth_db" where
  "revoke_token row db = db\<lparr>ad_tokens :=
     map (\<lambda>t. if rf_hash t = rf_hash row then t\<lparr>rf_revoked := True\<rparr> else t) (ad_tokens db)\<rparr>"

text \<open>
  A rotation after the row has been read: \<open>stored\<close> is what the row was.  A failure to issue rolls
  the revocation back.
\<close>

definition rotate_stored ::
  "secrets \<Rightarrow> auth_settings \<Rightarrow> int \<Rightarrow> string \<Rightarrow> string \<Rightarrow> refresh_token \<Rightarrow> auth_db
   \<Rightarrow> (exn + issued_tokens) \<times> auth_db" where
  "rotate_stored se st now new_raw jti stored db =
     (if rf_revoked stored \<or> rf_expires stored \<le> now then
        (Inl (http_exception 401 ''Refresh token revoked or expired''),
         revoke_all_user_tokens (rf_user stored) db)
      else case find_user db (rf_user stored) of
        None \<Rightarrow> (Inl (http_exception 401 ''User not found or inactive''), db)
      | Some u \<Rightarrow>
          if \<not> usr_active u then (Inl (http_exception 401 ''User not found or inactive''), db)
          else (case issue_tokens se st now new_raw jti u (revoke_token stored db) of
              (Inl e, _) \<Rightarrow> (Inl e, db) | (Inr t, db') \<Rightarrow> (Inr t, db')))"

definition rotate_refresh_token ::
  "secrets \<Rightarrow> auth_settings \<Rightarrow> int \<Rightarrow> string \<Rightarrow> string \<Rightarrow> string \<Rightarrow> auth_db
   \<Rightarrow> (exn + issued_tokens) \<times> auth_db" where
  "rotate_refresh_token se st now new_raw jti raw db =
     (case find_token db (hash_refresh_token se raw) of
        None \<Rightarrow> (Inl (http_exception 401 ''Invalid refresh token''), db)
      | Some stored \<Rightarrow> rotate_stored se st now new_raw jti stored db)"

definition revoke_refresh_token :: "secrets \<Rightarrow> string \<Rightarrow> auth_db \<Rightarrow> auth_db" where
  "revoke_refresh_token se raw db =
     (case find_token db (hash_refresh_token se raw) of
        None \<Rightarrow> db | Some stored \<Rightarrow> if rf_revoked stored then db else revoke_token stored db)"

section \<open>Confirmation of an address\<close>

definition create_verification_code ::
  "secrets \<Rightarrow> auth_settings \<Rightarrow> int \<Rightarrow> string \<Rightarrow> nat \<Rightarrow> user \<Rightarrow> auth_db \<Rightarrow> (exn + string) \<times> auth_db" where
  "create_verification_code se st now new_id n u db =
     (let raw = numeric_code 6 n
      in if new_id \<in> ec_id ` set (ad_codes db) \<or> usr_id u \<notin> usr_id ` set (ad_users db)
         then (Inl commit_refused, db)
         else (Inr raw, db\<lparr>ad_codes :=
            map (\<lambda>c. if ec_user c = usr_id u \<and> ec_used c = None then c\<lparr>ec_used := Some now\<rparr> else c)
              (ad_codes db)
            @ [\<lparr>ec_id = new_id, ec_user = usr_id u, ec_hash = hash_token se raw,
                ec_expires = now + st_code_minutes st * 60, ec_attempts = 0, ec_used = None,
                ec_created = now\<rparr>]\<rparr>))"

definition live_code :: "auth_db \<Rightarrow> string \<Rightarrow> email_code option" where
  "live_code db i =
     (case sort_key (\<lambda>c. - ec_created c)
        (filter (\<lambda>c. ec_user c = i \<and> ec_used c = None) (ad_codes db)) of
        [] \<Rightarrow> None | c # _ \<Rightarrow> Some c)"

datatype verification = Verified | AlreadyVerified | Invalid | Expired | TooManyAttempts | NoCode

text \<open>An update writes the columns that have changed.\<close>

definition put_attempt :: "email_code \<Rightarrow> int option \<Rightarrow> auth_db \<Rightarrow> auth_db" where
  "put_attempt code used db = db\<lparr>ad_codes :=
     map (\<lambda>c. if ec_id c = ec_id code
            then c\<lparr>ec_attempts := ec_attempts code + 1, ec_used := (if used = None then ec_used c else used)\<rparr>
            else c) (ad_codes db)\<rparr>"

definition mark_verified :: "int \<Rightarrow> string \<Rightarrow> auth_db \<Rightarrow> auth_db" where
  "mark_verified now i db = db\<lparr>ad_users :=
     map (\<lambda>u. if usr_id u = i then u\<lparr>usr_verified := True, usr_verified_at := Some now\<rparr> else u)
       (ad_users db)\<rparr>"

text \<open>A guess against a code that has been read: \<open>code\<close> is what its row was.\<close>

definition guess_code ::
  "secrets \<Rightarrow> auth_settings \<Rightarrow> int \<Rightarrow> user \<Rightarrow> string \<Rightarrow> email_code \<Rightarrow> auth_db \<Rightarrow> verification \<times> auth_db" where
  "guess_code se st now u raw code db =
     (if ec_expires code \<le> now then (Expired, db)
      else if ec_attempts code + 1 > st_max_attempts st then
        (TooManyAttempts, put_attempt code (Some now) db)
      else if hash_token se (str_strip raw) \<noteq> ec_hash code then (Invalid, put_attempt code None db)
      else (Verified, mark_verified now (usr_id u) (put_attempt code (Some now) db)))"

definition verify_code ::
  "secrets \<Rightarrow> auth_settings \<Rightarrow> int \<Rightarrow> user \<Rightarrow> string \<Rightarrow> auth_db \<Rightarrow> verification \<times> auth_db" where
  "verify_code se st now u raw db =
     (if usr_verified u then (AlreadyVerified, db)
      else case live_code db (usr_id u) of
        None \<Rightarrow> (NoCode, db)
      | Some code \<Rightarrow> guess_code se st now u raw code db)"

section \<open>Roles and permissions\<close>

definition has_permission :: "user \<Rightarrow> string \<Rightarrow> auth_db \<Rightarrow> bool" where
  "has_permission u permission db \<longleftrightarrow>
     list_ex (\<lambda>(app, role, p). role = usr_role u \<and> p = permission) (ad_permissions db)"

definition assign_role :: "string \<Rightarrow> string \<Rightarrow> auth_db \<Rightarrow> (exn + user) \<times> auth_db" where
  "assign_role i role db =
     (case find_user db i of
        None \<Rightarrow> (Inl (OtherError ''UserNotFound'' i), db)
      | Some u \<Rightarrow> (Inr (u\<lparr>usr_role := role\<rparr>), db\<lparr>ad_users :=
          map (\<lambda>v. if usr_id v = i then v\<lparr>usr_role := role\<rparr> else v) (ad_users db)\<rparr>))"

definition seed_permissions :: "permission list \<Rightarrow> auth_db \<Rightarrow> auth_db" where
  "seed_permissions ps db = db\<lparr>ad_permissions :=
     foldl (\<lambda>qs p. if p \<in> set qs then qs else qs @ [p]) (ad_permissions db) ps\<rparr>"

definition USER_READS :: "string list" where
  "USER_READS = [''flows:read'', ''agents:read'', ''connectors:read'', ''llm_providers:read'', ''runs:read'']"

definition ADMIN_WRITES :: "string list" where
  "ADMIN_WRITES =
     [''flows:create'', ''flows:delete'', ''agents:create'', ''agents:update'', ''agents:delete'',
      ''connectors:create'', ''connectors:update'', ''connectors:delete'', ''connectors:test'',
      ''llm_providers:create'', ''llm_providers:update'', ''llm_providers:delete'', ''users:manage'']"

definition CORE_PERMISSIONS :: "permission list" where
  "CORE_PERMISSIONS = map (\<lambda>p. (''core'', ''user'', p)) USER_READS
     @ map (\<lambda>p. (''core'', ''admin'', p)) (USER_READS @ ADMIN_WRITES)"

definition seed_core_permissions :: "auth_db \<Rightarrow> auth_db" where
  "seed_core_permissions db = seed_permissions CORE_PERMISSIONS db"

section \<open>What the tables keep\<close>

definition live_codes :: "auth_db \<Rightarrow> string \<Rightarrow> email_code list" where
  "live_codes db i = filter (\<lambda>c. ec_user c = i \<and> ec_used c = None) (ad_codes db)"

definition auth_ok :: "auth_db \<Rightarrow> bool" where
  "auth_ok db \<longleftrightarrow> distinct (map usr_id (ad_users db)) \<and> distinct (map usr_email (ad_users db)) \<and>
     (\<forall>u \<in> set (ad_users db). usr_verified u \<longleftrightarrow> usr_verified_at u \<noteq> None) \<and>
     distinct (map rf_hash (ad_tokens db)) \<and> rf_user ` set (ad_tokens db) \<subseteq> usr_id ` set (ad_users db) \<and>
     distinct (map ec_id (ad_codes db)) \<and> ec_user ` set (ad_codes db) \<subseteq> usr_id ` set (ad_users db) \<and>
     (\<forall>c \<in> set (ad_codes db). length (live_codes db (ec_user c)) \<le> 1) \<and> distinct (ad_permissions db)"

lemma auth_ok_iff:
  "auth_ok db \<longleftrightarrow> distinct (map usr_id (ad_users db)) \<and> distinct (map usr_email (ad_users db)) \<and>
     (\<forall>u \<in> set (ad_users db). usr_verified u \<longleftrightarrow> usr_verified_at u \<noteq> None) \<and>
     distinct (map rf_hash (ad_tokens db)) \<and> rf_user ` set (ad_tokens db) \<subseteq> usr_id ` set (ad_users db) \<and>
     distinct (map ec_id (ad_codes db)) \<and> ec_user ` set (ad_codes db) \<subseteq> usr_id ` set (ad_users db) \<and>
     (\<forall>i. length (live_codes db i) \<le> 1) \<and> distinct (ad_permissions db)"
proof -
  have "length (live_codes db i) \<le> 1" if "\<forall>c \<in> set (ad_codes db). length (live_codes db (ec_user c)) \<le> 1" for i
    using that by (cases "live_codes db i") (auto simp: live_codes_def filter_eq_Cons_iff)
  then show ?thesis unfolding auth_ok_def by blast
qed

text \<open>The transactions of any requests, in any order.\<close>

inductive auth_step :: "secrets \<Rightarrow> auth_settings \<Rightarrow> auth_db \<Rightarrow> auth_db \<Rightarrow> bool" for se st where
  registered: "auth_step se st db (snd (register_user se salt new_id now email password db))"
| issued: "auth_step se st db (snd (issue_tokens se st now new_raw jti u db))"
| rotated: "auth_step se st db (snd (rotate_refresh_token se st now new_raw jti raw db))"
| revoked: "auth_step se st db (revoke_refresh_token se raw db)"
| minted: "auth_step se st db (snd (create_verification_code se st now new_id n u db))"
| guessed: "auth_step se st db (snd (verify_code se st now u raw db))"
| assigned: "auth_step se st db (snd (assign_role i role db))"
| seeded: "auth_step se st db (seed_permissions ps db)"

text \<open>A change of rows that keeps a column.\<close>

lemma map_kept: "(\<And>x. f (g x) = f x) \<Longrightarrow> map f (map g xs) = map f xs"
  by simp

lemma image_kept: "(\<And>x. f (g x) = f x) \<Longrightarrow> f ` g ` A = f ` A"
  by (simp add: image_image)

lemma find_user_Some: "find_user db i = Some u \<Longrightarrow> u \<in> set (ad_users db) \<and> usr_id u = i"
  by (auto simp: find_user_def find_Some_iff)

lemma register_user_ok:
  "auth_ok db \<Longrightarrow> auth_ok (snd (register_user se salt new_id now email password db))"
  by (auto simp: auth_ok_iff register_user_def add_user_def live_codes_def split: option.splits)

lemma issue_ok: "auth_ok db \<Longrightarrow> auth_ok (snd (issue_tokens se st now new_raw jti u db))"
  by (auto simp: auth_ok_iff issue_tokens_def live_codes_def Let_def)

lemma tokens_ok:
  assumes "auth_ok db" and "\<And>t. rf_hash (f t) = rf_hash t" and "\<And>t. rf_user (f t) = rf_user t"
  shows "auth_ok (db\<lparr>ad_tokens := map f (ad_tokens db)\<rparr>)"
  using assms by (auto simp: auth_ok_iff live_codes_def comp_def)

lemma revoke_ok: "auth_ok db \<Longrightarrow> auth_ok (revoke_token row db)"
    and revoke_all_ok: "auth_ok db \<Longrightarrow> auth_ok (revoke_all_user_tokens i db)"
  by (simp_all add: revoke_token_def revoke_all_user_tokens_def tokens_ok)

lemma rotate_state:
  "snd (rotate_refresh_token se st now new_raw jti raw db) = db \<or>
   (\<exists>j. snd (rotate_refresh_token se st now new_raw jti raw db) = revoke_all_user_tokens j db) \<or>
   (\<exists>u row. snd (rotate_refresh_token se st now new_raw jti raw db)
      = snd (issue_tokens se st now new_raw jti u (revoke_token row db)))"
proof (cases "find_token db (hash_refresh_token se raw)")
  case (Some row)
  then have eq: "rotate_refresh_token se st now new_raw jti raw db = rotate_stored se st now new_raw jti row db"
    by (simp add: rotate_refresh_token_def)
  show ?thesis
  proof (cases "rf_revoked row \<or> rf_expires row \<le> now")
    case False
    show ?thesis
    proof (cases "find_user db (rf_user row)")
      case (Some u)
      obtain r d where d: "issue_tokens se st now new_raw jti u (revoke_token row db) = (r, d)" by fastforce
      have "\<exists>u row. d = snd (issue_tokens se st now new_raw jti u (revoke_token row db))"
        using d snd_conv by metis
      then show ?thesis using False Some unfolding eq rotate_stored_def d
        by (cases r; cases "usr_active u") (auto simp: d)
    qed (use False in \<open>simp add: eq rotate_stored_def\<close>)
  qed (auto simp: eq rotate_stored_def)
qed (simp add: rotate_refresh_token_def)

lemma rotate_ok: "auth_ok db \<Longrightarrow> auth_ok (snd (rotate_refresh_token se st now new_raw jti raw db))"
  using rotate_state [of se st now new_raw jti raw db] by (elim disjE exE) (simp_all add: issue_ok revoke_ok revoke_all_ok)

lemma users_ok:
  assumes "auth_ok db" and "\<And>u. usr_id (f u) = usr_id u" and "\<And>u. usr_email (f u) = usr_email u"
    and "\<And>u. usr_verified u = (usr_verified_at u \<noteq> None) \<Longrightarrow> usr_verified (f u) = (usr_verified_at (f u) \<noteq> None)"
  shows "auth_ok (db\<lparr>ad_users := map f (ad_users db)\<rparr>)"
  using assms(1) unfolding auth_ok_iff
  by (simp add: live_codes_def comp_def assms(2,3) image_image) (simp add: assms(4))

lemma live_codes_map:
  assumes "\<And>c. ec_user (f c) = ec_user c" and "\<And>c. ec_used (f c) = None \<Longrightarrow> ec_used c = None"
  shows "length (live_codes (db\<lparr>ad_codes := map f (ad_codes db)\<rparr>) i) \<le> length (live_codes db i)"
proof -
  have "length (filter (\<lambda>c. ec_user c = i \<and> ec_used c = None) (map f cs))
      \<le> length (filter (\<lambda>c. ec_user c = i \<and> ec_used c = None) cs)" for cs
    by (induction cs) (auto simp: assms)
  then show ?thesis by (simp add: live_codes_def)
qed

lemma codes_ok:
  assumes ok: "auth_ok db" and f: "\<And>c. ec_user (f c) = ec_user c" "\<And>c. ec_id (f c) = ec_id c"
      "\<And>c. ec_used (f c) = None \<Longrightarrow> ec_used c = None"
  shows "auth_ok (db\<lparr>ad_codes := map f (ad_codes db)\<rparr>)"
proof -
  have "\<forall>i. length (live_codes (db\<lparr>ad_codes := map f (ad_codes db)\<rparr>) i) \<le> 1"
    using ok live_codes_map [of f, OF f(1,3)] unfolding auth_ok_iff by (meson order_trans)
  then show ?thesis using ok f(1,2) unfolding auth_ok_iff by (simp add: comp_def image_image)
qed

lemma attempt_ok: "auth_ok db \<Longrightarrow> auth_ok (put_attempt code used db)"
  unfolding put_attempt_def by (rule codes_ok) (auto split: if_splits)

lemma verify_ok: "auth_ok db \<Longrightarrow> auth_ok (snd (verify_code se st now u raw db))"
  using attempt_ok users_ok
  by (auto simp: verify_code_def guess_code_def mark_verified_def attempt_ok intro!: users_ok
      split: option.splits)

lemma mint_ok:
  assumes ok: "auth_ok db"
  shows "auth_ok (snd (create_verification_code se st now new_id n u db))"
proof (cases "new_id \<in> ec_id ` set (ad_codes db) \<or> usr_id u \<notin> usr_id ` set (ad_users db)")
  case False
  let ?f = "\<lambda>c. if ec_user c = usr_id u \<and> ec_used c = None then c\<lparr>ec_used := Some now\<rparr> else c"
  let ?burned = "db\<lparr>ad_codes := map ?f (ad_codes db)\<rparr>"
  have burned: "auth_ok ?burned" by (rule codes_ok [OF ok]) (auto split: if_splits)
  have none: "live_codes ?burned (usr_id u) = []"
    by (auto simp: live_codes_def filter_empty_conv split: if_splits)
  have "new_id \<notin> ec_id ` set (ad_codes ?burned)" using False by (auto split: if_splits)
  then show ?thesis using burned none False
    by (auto simp: create_verification_code_def Let_def auth_ok_iff live_codes_def)
qed (use ok in \<open>auto simp: create_verification_code_def Let_def\<close>)

lemma seed_distinct:
  "distinct qs \<Longrightarrow> distinct (foldl (\<lambda>qs p. if p \<in> set qs then qs else qs @ [p]) qs ps)"
  by (induction ps arbitrary: qs) auto

lemma auth_step_ok: "auth_step se st db db' \<Longrightarrow> auth_ok db \<Longrightarrow> auth_ok db'"
proof (induction rule: auth_step.induct)
  case (revoked db raw)
  then show ?case by (auto simp: revoke_refresh_token_def revoke_ok split: option.splits)
next
  case (assigned db i role)
  then show ?case by (auto simp: assign_role_def intro!: users_ok split: option.splits if_splits)
next
  case (seeded db ps)
  then show ?case by (simp add: auth_ok_iff seed_permissions_def live_codes_def seed_distinct)
qed (simp_all add: register_user_ok issue_ok rotate_ok mint_ok verify_ok)


section \<open>An account at work\<close>

definition sample_secrets :: secrets where
  "sample_secrets =
     \<lparr>sc_hashpw = (\<lambda>salt password. salt @ password),
      sc_checkpw = (\<lambda>password hashed. Some (drop (length hashed - length password) hashed = password)),
      sc_sha256 = (\<lambda>s. ''h'' @ s),
      sc_encode = (\<lambda>p. case dget p ''sub'' of PStr s \<Rightarrow> s | _ \<Rightarrow> []),
      sc_decode = (\<lambda>now token. Claims [(''sub'', PStr token), (''type'', PStr ''access'')]),
      sc_uuid = (\<lambda>v. case v of PStr s \<Rightarrow> Inr s | _ \<Rightarrow> Inl (OtherError ''TypeError'' []))\<rparr>"

definition sample_settings :: auth_settings where
  "sample_settings =
     \<lparr>st_access_minutes = 180, st_refresh_days = 30, st_code_minutes = 30, st_max_attempts = 5,
      st_verification_required = True, st_login_attempts = 5, st_login_window = 300\<rparr>"

definition no_accounts :: auth_db where
  "no_accounts = \<lparr>ad_users = [], ad_tokens = [], ad_codes = [], ad_permissions = []\<rparr>"

definition one_account :: auth_db where
  "one_account = snd (register_user sample_secrets ''x'' ''u1'' 0 '' Ann@b.c'' ''secret12'' no_accounts)"

definition one_user :: user where
  "one_user =
     \<lparr>usr_id = ''u1'', usr_email = ''ann@b.c'', usr_password_hash = ''xsecret12'', usr_role = ''user'',
      usr_active = True, usr_verified = False, usr_verified_at = None, usr_created = 0\<rparr>"

definition one_session :: auth_db where
  "one_session = snd (issue_tokens sample_secrets sample_settings 0 ''r1'' ''j1'' one_user one_account)"

lemma one_account_rows: "ad_users one_account = [one_user]" "ad_codes one_account = []"
  by code_simp+

lemma no_accounts_ok: "auth_ok no_accounts"
  by (simp add: auth_ok_iff no_accounts_def live_codes_def)


end
