(* ===== verification/AccountsSpec.thy ===== *)
theory AccountsSpec
  imports Accounts
begin

text \<open>
  What the transactions on accounts promise: a refresh token works once, and the guesses at a code
  are bounded.  Both hold for transactions that follow each other; two that read before either
  writes are at the end.
\<close>

section \<open>A refresh token works once\<close>

definition spent :: "string \<Rightarrow> string \<Rightarrow> auth_db \<Rightarrow> bool" where
  "spent hashed i db \<longleftrightarrow> (\<exists>t. find_token db hashed = Some t \<and> rf_user t = i \<and> rf_revoked t)"

lemma find_append: "List.find P (xs @ ys) = (case List.find P xs of None \<Rightarrow> List.find P ys | Some x \<Rightarrow> Some x)"
  by (induction xs) auto

lemma find_token_map:
  assumes "\<And>t. rf_hash (f t) = rf_hash t"
  shows "find_token (db\<lparr>ad_tokens := map f (ad_tokens db)\<rparr>) hashed = map_option f (find_token db hashed)"
proof -
  have "List.find (\<lambda>t. rf_hash t = hashed) (map f ts) = map_option f (List.find (\<lambda>t. rf_hash t = hashed) ts)"
    for ts by (induction ts) (simp_all add: assms)
  then show ?thesis by (simp add: find_token_def)
qed

lemma spent_map:
  assumes "\<And>t. rf_hash (f t) = rf_hash t" "\<And>t. rf_user (f t) = rf_user t" "\<And>t. rf_revoked t \<Longrightarrow> rf_revoked (f t)"
  shows "spent hashed i db \<Longrightarrow> spent hashed i (db\<lparr>ad_tokens := map f (ad_tokens db)\<rparr>)"
  using assms by (auto simp: spent_def find_token_map)

lemma spent_revoke: "spent hashed i db \<Longrightarrow> spent hashed i (revoke_token row db)"
    and spent_revoke_all: "spent hashed i db \<Longrightarrow> spent hashed i (revoke_all_user_tokens j db)"
  by (auto simp: revoke_token_def revoke_all_user_tokens_def intro!: spent_map)

lemma spent_issue: "spent hashed i db \<Longrightarrow> spent hashed i (snd (issue_tokens se st now new_raw jti u db))"
  by (auto simp: spent_def issue_tokens_def find_token_def find_append Let_def split: option.splits)

lemma spent_same: "ad_tokens db' = ad_tokens db \<Longrightarrow> spent hashed i db' = spent hashed i db"
  by (simp add: spent_def find_token_def)

lemma spent_rotate:
  "spent hashed i db \<Longrightarrow> spent hashed i (snd (rotate_refresh_token se st now new_raw jti raw db))"
  using rotate_state [of se st now new_raw jti raw db]
  by (elim disjE exE) (simp_all add: spent_issue spent_revoke spent_revoke_all)

lemma spent_step:
  assumes "auth_step se st db db'" and "spent hashed i db"
  shows "spent hashed i db'"
proof -
  have "ad_tokens db' = ad_tokens db \<or> spent hashed i db'"
    using assms
  proof (induction rule: auth_step.induct)
    case (revoked db raw)
    then show ?case by (simp add: revoke_refresh_token_def spent_revoke split: option.split)
  qed (simp_all add: register_user_def add_user_def create_verification_code_def verify_code_def
      guess_code_def mark_verified_def put_attempt_def assign_role_def seed_permissions_def Let_def
      spent_issue spent_rotate split: option.split)
  then show ?thesis using spent_same assms(2) by blast
qed

lemma spent_steps: "(auth_step se st)\<^sup>*\<^sup>* db db' \<Longrightarrow> spent hashed i db \<Longrightarrow> spent hashed i db'"
  by (induction rule: rtranclp_induct) (auto intro: spent_step)

lemma revoke_all_done:
  assumes "t \<in> set (ad_tokens (revoke_all_user_tokens i db))" and "rf_user t = i"
  shows "rf_revoked t"
proof -
  obtain r where "t = (if rf_user r = i \<and> \<not> rf_revoked r then r\<lparr>rf_revoked := True\<rparr> else r)"
    using assms(1) by (fastforce simp: revoke_all_user_tokens_def)
  then show ?thesis using assms(2) by (cases "rf_user r = i \<and> \<not> rf_revoked r") auto
qed

lemma rotated_spent:
  assumes "rotate_refresh_token se st now new_raw jti raw db = (Inr t, db')"
  shows "spent (hash_refresh_token se raw) (usr_id (it_user t)) db'"
proof -
  obtain row u where row: "find_token db (hash_refresh_token se raw) = Some row"
    and u: "find_user db (rf_user row) = Some u"
    and t: "issue_tokens se st now new_raw jti u (revoke_token row db) = (Inr t, db')"
    using assms by (auto simp: rotate_refresh_token_def rotate_stored_def
        split: option.splits if_splits prod.splits sum.splits)
  have "rf_hash row = hash_refresh_token se raw" using row by (auto simp: find_token_def find_Some_iff)
  then have "spent (hash_refresh_token se raw) (rf_user row) (revoke_token row db)"
    using row by (auto simp: spent_def revoke_token_def find_token_map)
  then have "spent (hash_refresh_token se raw) (rf_user row) db'"
    using spent_issue [of _ _ "revoke_token row db" se st now new_raw jti u] t by simp
  moreover have "usr_id (it_user t) = rf_user row"
    using t find_user_Some [OF u] by (auto simp: issue_tokens_def Let_def split: if_splits)
  ultimately show ?thesis by simp
qed

lemma logged_out_spent:
  assumes "find_token db (hash_refresh_token se raw) = Some row"
  shows "spent (hash_refresh_token se raw) (rf_user row) (revoke_refresh_token se raw db)"
proof -
  have "rf_hash row = hash_refresh_token se raw" using assms by (auto simp: find_token_def find_Some_iff)
  then show ?thesis using assms
    by (auto simp: revoke_refresh_token_def revoke_token_def find_token_map spent_def)
qed

lemma spent_refused:
  assumes "spent (hash_refresh_token se raw) i db"
  shows "rotate_refresh_token se st now new_raw jti raw db
    = (Inl (http_exception 401 ''Refresh token revoked or expired''), revoke_all_user_tokens i db)"
  using assms by (auto simp: spent_def rotate_refresh_token_def rotate_stored_def)

text \<open>
  C7 (safety). A refresh token works once.  After it has been rotated, or its session logged out,
  it is refused however many requests come between, and presenting it again revokes every token
  of its account.
\<close>

theorem refresh_token_single_use:
  assumes "rotate_refresh_token se st now new_raw jti raw db = (Inr t, db1) \<and> i = usr_id (it_user t) \<or>
      find_token db (hash_refresh_token se raw) = Some row \<and> db1 = revoke_refresh_token se raw db \<and>
        i = rf_user row"
    and "(auth_step se st)\<^sup>*\<^sup>* db1 db2"
  shows "fst (rotate_refresh_token se st now' new_raw' jti' raw db2)
      = Inl (http_exception 401 ''Refresh token revoked or expired'') \<and>
    (\<forall>t \<in> set (ad_tokens (snd (rotate_refresh_token se st now' new_raw' jti' raw db2))).
       rf_user t = i \<longrightarrow> rf_revoked t)"
proof -
  have "spent (hash_refresh_token se raw) i db1"
    using assms(1) rotated_spent logged_out_spent by blast
  note refused = spent_refused [OF spent_steps [OF assms(2) this], of st now' new_raw' jti']
  show ?thesis unfolding refused by (simp add: revoke_all_done)
qed

section \<open>Guesses at a code\<close>

datatype account_op = Mint string int string nat | Guess string int string

fun run_account_op :: "secrets \<Rightarrow> auth_settings \<Rightarrow> account_op \<Rightarrow> auth_db \<Rightarrow> verification option \<times> auth_db" where
  "run_account_op se st (Mint i now new_id n) db =
     (case find_user db i of
        None \<Rightarrow> (None, db)
      | Some u \<Rightarrow> (None, snd (create_verification_code se st now new_id n u db)))"
| "run_account_op se st (Guess i now raw) db =
     (case find_user db i of
        None \<Rightarrow> (None, db)
      | Some u \<Rightarrow> map_prod Some id (verify_code se st now u raw db))"

definition was_compared :: "verification option \<Rightarrow> bool" where
  "was_compared r \<longleftrightarrow> r = Some Verified \<or> r = Some Invalid"

text \<open>The guesses of one account that are compared with a code, and the codes it is sent.\<close>

fun guesses_compared :: "secrets \<Rightarrow> auth_settings \<Rightarrow> string \<Rightarrow> account_op list \<Rightarrow> auth_db \<Rightarrow> nat" where
  "guesses_compared se st i [] db = 0"
| "guesses_compared se st i (x # ops) db =
     (let (r, db') = run_account_op se st x db
      in (case x of Guess j _ _ \<Rightarrow> if j = i \<and> was_compared r then 1 else 0 | _ \<Rightarrow> 0)
         + guesses_compared se st i ops db')"

fun mints :: "string \<Rightarrow> account_op list \<Rightarrow> nat" where
  "mints i [] = 0"
| "mints i (Mint j _ _ _ # ops) = (if j = i then 1 else 0) + mints i ops"
| "mints i (Guess _ _ _ # ops) = mints i ops"

definition guesses_left :: "auth_settings \<Rightarrow> auth_db \<Rightarrow> string \<Rightarrow> nat" where
  "guesses_left st db i = (case live_codes db i of [] \<Rightarrow> 0 | c # _ \<Rightarrow> nat (st_max_attempts st - ec_attempts c))"

lemma live_codes_conv:
  assumes "\<And>c. ec_user (f c) = ec_user c"
  shows "live_codes (db\<lparr>ad_codes := map f (ad_codes db)\<rparr>) i
    = map f (filter (\<lambda>c. ec_user c = i \<and> ec_used (f c) = None) (ad_codes db))"
  by (simp add: live_codes_def filter_map comp_def assms)

lemma live_codes_same:
  assumes "\<And>c. ec_user (f c) = ec_user c" and "\<And>c. c \<in> set (ad_codes db) \<Longrightarrow> ec_user c = i \<Longrightarrow> f c = c"
  shows "live_codes (db\<lparr>ad_codes := map f (ad_codes db)\<rparr>) i = live_codes db i"
proof -
  have "filter (\<lambda>c. ec_user c = i \<and> ec_used (f c) = None) (ad_codes db) = live_codes db i"
    unfolding live_codes_def by (rule filter_cong) (use assms(2) in auto)
  moreover have "map f (live_codes db i) = live_codes db i"
    by (rule map_idI) (use assms(2) in \<open>auto simp: live_codes_def\<close>)
  ultimately show ?thesis by (simp only: live_codes_conv [of f, OF assms(1)])
qed

lemma live_code_Some:
  assumes "auth_ok db" and "live_code db i = Some c"
  shows "live_codes db i = [c]" and "c \<in> set (ad_codes db)" and "ec_user c = i"
    and "ec_used c = None"
proof -
  have "length (live_codes db i) \<le> 1" using assms(1) by (simp add: auth_ok_iff)
  moreover have "set (sort_key (\<lambda>c. - ec_created c) (live_codes db i)) = set (live_codes db i)" by simp
  ultimately show live: "live_codes db i = [c]"
    using assms(2) by (cases "live_codes db i") (auto simp: live_code_def live_codes_def [symmetric])
  then have "c \<in> set (live_codes db i)" by simp
  then show "c \<in> set (ad_codes db)" "ec_user c = i" "ec_used c = None" by (auto simp: live_codes_def)
qed

lemma live_codes_attempt:
  assumes ok: "auth_ok db" and c: "live_code db j = Some c"
  shows "live_codes (put_attempt c used db) i =
    (if i \<noteq> j then live_codes db i
     else if used = None then [c\<lparr>ec_attempts := ec_attempts c + 1\<rparr>] else [])"
proof -
  let ?f = "\<lambda>d. if ec_id d = ec_id c
    then d\<lparr>ec_attempts := ec_attempts c + 1, ec_used := (if used = None then ec_used d else used)\<rparr> else d"
  note code = live_code_Some [OF ok c]
  have own: "d = c" if "d \<in> set (ad_codes db)" "ec_id d = ec_id c" for d
    using ok that code(2) by (auto simp: auth_ok_iff distinct_map inj_on_def)
  have f: "ec_user (?f d) = ec_user d" for d by simp
  note unused = code(4)
  show ?thesis
  proof (cases "i = j")
    case True
    have "filter (\<lambda>d. ec_user d = j \<and> ec_used (?f d) = None) (ad_codes db)
        = filter (\<lambda>d. used = None \<or> d \<noteq> c) (live_codes db j)"
      unfolding live_codes_def filter_filter by (rule filter_cong) (use own unused in auto)
    then show ?thesis
      using True unused code(1) unfolding put_attempt_def live_codes_conv [of ?f, OF f] by simp
  next
    case False
    then show ?thesis unfolding put_attempt_def
      by (simp, intro live_codes_same [OF f]) (use own code(3) in auto)
  qed
qed

lemma guess_left:
  assumes ok: "auth_ok db" and u: "find_user db j = Some u"
    and v: "verify_code se st now u raw db = (v, db')"
  shows "guesses_left st db' i + (if j = i \<and> was_compared (Some v) then 1 else 0) \<le> guesses_left st db i"
proof (cases "usr_verified u \<or> live_code db j = None")
  case True
  then show ?thesis
    using v find_user_Some [OF u] by (auto simp: verify_code_def was_compared_def split: if_splits)
next
  case False
  then obtain c where c: "live_code db j = Some c" by auto
  have "usr_id u = j" using find_user_Some [OF u] by simp
  with False c v have g: "guess_code se st now u raw c db = (v, db')" by (simp add: verify_code_def)
  have same: "live_codes (mark_verified t k d) i = live_codes d i" for t k d
    by (simp add: mark_verified_def live_codes_def)
  show ?thesis
    using g live_code_Some(1) [OF ok c]
    by (auto simp: guess_code_def guesses_left_def was_compared_def same live_codes_attempt [OF ok c]
        split: if_splits)
qed

lemma mint_left:
  assumes "find_user db j = Some u"
  shows "guesses_left st (snd (create_verification_code se st now new_id n u db)) i
    \<le> guesses_left st db i + (if j = i then nat (st_max_attempts st) else 0)"
proof (cases "new_id \<in> ec_id ` set (ad_codes db) \<or> usr_id u \<notin> usr_id ` set (ad_users db)")
  case False
  let ?f = "\<lambda>c. if ec_user c = usr_id u \<and> ec_used c = None then c\<lparr>ec_used := Some now\<rparr> else c"
  let ?c = "\<lparr>ec_id = new_id, ec_user = usr_id u, ec_hash = hash_token se (numeric_code 6 n),
    ec_expires = now + st_code_minutes st * 60, ec_attempts = 0, ec_used = None, ec_created = now\<rparr>"
  note u = find_user_Some [OF assms]
  have "live_codes (snd (create_verification_code se st now new_id n u db)) i
      = live_codes (db\<lparr>ad_codes := map ?f (ad_codes db)\<rparr>) i @ (if j = i then [?c] else [])"
    using u False by (auto simp: create_verification_code_def live_codes_def Let_def)
  moreover have "live_codes (db\<lparr>ad_codes := map ?f (ad_codes db)\<rparr>) i = (if j = i then [] else live_codes db i)"
  proof (cases "j = i")
    case True
    then show ?thesis using u by (auto simp: live_codes_def filter_empty_conv split: if_splits)
  next
    case False
    then show ?thesis using u by (simp, intro live_codes_same) auto
  qed
  ultimately show ?thesis by (simp add: guesses_left_def)
qed (auto simp: create_verification_code_def Let_def)

lemma guesses_bound:
  "auth_ok db \<Longrightarrow> guesses_compared se st i ops db \<le> guesses_left st db i + nat (st_max_attempts st) * mints i ops"
proof (induction ops arbitrary: db)
  case (Cons x ops)
  show ?case
  proof (cases x)
    case (Mint j now new_id n)
    show ?thesis
    proof (cases "find_user db j")
      case (Some u)
      let ?db = "snd (create_verification_code se st now new_id n u db)"
      have "guesses_compared se st i ops ?db \<le> guesses_left st ?db i + nat (st_max_attempts st) * mints i ops"
        by (rule Cons.IH [OF mint_ok [OF Cons.prems]])
      with mint_left [OF Some, of st se now new_id n i] Some show ?thesis
        by (cases "j = i") (simp_all add: Mint)
    qed (use Cons.IH [OF Cons.prems] Mint in simp)
  next
    case (Guess j now raw)
    show ?thesis
    proof (cases "find_user db j")
      case (Some u)
      obtain v db' where v: "verify_code se st now u raw db = (v, db')" by fastforce
      have "auth_ok db'" using verify_ok [OF Cons.prems, of se st now u raw] v by simp
      from Cons.IH [OF this] guess_left [OF Cons.prems Some v, of i] show ?thesis
        by (auto simp: Guess Some v split: if_splits)
    qed (use Cons.IH [OF Cons.prems] Guess in \<open>simp add: was_compared_def\<close>)
  qed
qed simp

text \<open>
  C23 (bounds). The guesses at the codes of an account are bounded: however its requests and those
  of others follow each other, at most as many guesses are compared with a code as the cap of
  attempts allows for each code sent.
\<close>

theorem verification_guesses_bounded:
  assumes "auth_ok db" and "live_codes db i = []"
  shows "guesses_compared se st i ops db \<le> nat (st_max_attempts st) * mints i ops"
  using guesses_bound [OF assms(1), of se st i ops] assms(2) by (simp add: guesses_left_def)

section \<open>Requests that read before either writes\<close>

text \<open>
  The row of a token is read, then written.  Of two requests that have both read it, both are
  given new tokens: the account has two sessions from one token, and no replay is seen.
\<close>

definition first_token :: refresh_token where
  "first_token = \<lparr>rf_user = ''u1'', rf_hash = ''hr1'', rf_expires = 2592000, rf_revoked = False, rf_created = 0\<rparr>"

definition after_first :: auth_db where
  "after_first = snd (rotate_stored sample_secrets sample_settings 1 ''r2'' ''j2'' first_token one_session)"

lemma rotations_can_race:
  "find_token one_session (hash_refresh_token sample_secrets ''r1'') = Some first_token \<and>
   map_sum (\<lambda>_. ()) it_refresh
     (fst (rotate_stored sample_secrets sample_settings 1 ''r2'' ''j2'' first_token one_session)) = Inr ''r2'' \<and>
   map_sum (\<lambda>_. ()) it_refresh
     (fst (rotate_stored sample_secrets sample_settings 1 ''r3'' ''j3'' first_token after_first)) = Inr ''r3''"
  by (intro conjI) code_simp+

text \<open>
  So with a code: the attempts written are those read plus one.  However many requests have read
  the row before its cap, each is compared.
\<close>

lemma guesses_can_race:
  assumes "now < ec_expires code" and "ec_attempts code < st_max_attempts st"
  shows "was_compared (Some (fst (guess_code se st now u raw code db)))"
  using assms by (simp add: guess_code_def was_compared_def)

section \<open>Witnesses\<close>

lemma first_rotation:
  "map_sum (\<lambda>_. ()) (\<lambda>t. usr_id (it_user t))
     (fst (rotate_refresh_token sample_secrets sample_settings 1 ''r2'' ''j2'' ''r1'' one_session)) = Inr ''u1''"
  by code_simp

theorem refresh_token_single_use_witness:
  "\<exists>t db1. rotate_refresh_token sample_secrets sample_settings 1 ''r2'' ''j2'' ''r1'' one_session = (Inr t, db1) \<and>
     fst (rotate_refresh_token sample_secrets sample_settings 2 ''r3'' ''j3'' ''r1'' db1)
       = Inl (http_exception 401 ''Refresh token revoked or expired'') \<and>
     (\<forall>t \<in> set (ad_tokens (snd (rotate_refresh_token sample_secrets sample_settings 2 ''r3'' ''j3'' ''r1'' db1))).
        rf_user t = ''u1'' \<longrightarrow> rf_revoked t)"
proof -
  obtain r db1 where r: "rotate_refresh_token sample_secrets sample_settings 1 ''r2'' ''j2'' ''r1'' one_session
      = (r, db1)" by fastforce
  with first_rotation obtain t where t: "r = Inr t" "usr_id (it_user t) = ''u1''" by (cases r) auto
  have rt: "rotate_refresh_token sample_secrets sample_settings 1 ''r2'' ''j2'' ''r1'' one_session = (Inr t, db1)"
    using r t(1) by simp
  note single = refresh_token_single_use
    [OF disjI1 [OF conjI [OF rt refl]] rtranclp.rtrancl_refl, unfolded t(2)]
  show ?thesis by (rule exI, rule exI, rule conjI [OF rt single])
qed

definition two_attempts :: auth_settings where
  "two_attempts = sample_settings\<lparr>st_max_attempts := 2\<rparr>"

definition wrong_guesses :: "account_op list" where
  "wrong_guesses = Mint ''u1'' 0 ''c1'' 7 # replicate 3 (Guess ''u1'' 1 ''8'')"

theorem verification_guesses_bounded_witness:
  "guesses_compared sample_secrets two_attempts ''u1'' wrong_guesses one_account \<le> 2 \<and>
   guesses_compared sample_secrets two_attempts ''u1'' wrong_guesses one_account = 2"
proof -
  have "auth_step sample_secrets sample_settings no_accounts one_account"
    unfolding one_account_def by (rule auth_step.registered)
  then have ok: "auth_ok one_account" by (rule auth_step_ok [OF _ no_accounts_ok])
  have live: "live_codes one_account ''u1'' = []" by (simp add: live_codes_def one_account_rows)
  have "nat (st_max_attempts two_attempts) * mints ''u1'' wrong_guesses = 2" by code_simp
  moreover have "guesses_compared sample_secrets two_attempts ''u1'' wrong_guesses one_account = 2" by code_simp
  ultimately show ?thesis
    using verification_guesses_bounded [OF ok live, of sample_secrets two_attempts wrong_guesses] by simp
qed

end
