(* ===== verification/Sessions.thy ===== *)
theory Sessions
  imports AccountsSpec Usage
begin

text \<open>
  Who makes a request (luna_core/core/dependencies.py) and the endpoints of accounts
  (routers/auth.py, routers/users.py, schemas/auth.py, schemas/user.py).

  An endpoint draws what it needs, then runs its transactions one by one; \<open>aw_tables\<close> is the part
  of the world they work on.  The hook that sends mail is the host's, and may be missing.  Of the
  headers of a response only the cookie is kept.
\<close>

record 'w account_env =
  aw_tables :: "'w \<Rightarrow> auth_db"
  aw_put :: "auth_db \<Rightarrow> 'w \<Rightarrow> 'w"
  aw_now :: "'w \<Rightarrow> int"
  aw_draw :: "'w \<Rightarrow> string \<times> 'w"
  aw_number :: "nat \<Rightarrow> 'w \<Rightarrow> nat \<times> 'w"
  aw_secrets :: secrets
  aw_settings :: auth_settings
  aw_counters :: "'w counters"
  aw_usage :: "'w usage_env"
  aw_mailer :: "(string \<Rightarrow> string \<Rightarrow> string option \<Rightarrow> ('w, unit) act) option"

definition on_tables :: "'w account_env \<Rightarrow> (int \<Rightarrow> auth_db \<Rightarrow> (exn + 'a) \<times> auth_db) \<Rightarrow> ('w, 'a) act" where
  "on_tables env f = stepA (\<lambda>w. let (r, db) = f (aw_now env w) (aw_tables env w) in (r, aw_put env db w))"

definition drawn :: "'w account_env \<Rightarrow> ('w, string) act" where
  "drawn env = stepA (\<lambda>w. let (s, w') = aw_draw env w in (Inr s, w'))"

section \<open>Who makes the request\<close>

text \<open>\<open>header\<close> looks a header up; an empty one is taken for a missing one.\<close>

definition get_client_ip :: "(string \<Rightarrow> string option) \<Rightarrow> string option \<Rightarrow> string" where
  "get_client_ip header peer =
     (case header ''x-forwarded-for'' of
        Some f \<Rightarrow> if f \<noteq> [] then str_strip (hd (split_on (CHR '','') f)) else
          (case header ''x-real-ip'' of Some r \<Rightarrow> if r \<noteq> [] then str_strip r else
             (case peer of None \<Rightarrow> ''unknown'' | Some h \<Rightarrow> h)
           | None \<Rightarrow> (case peer of None \<Rightarrow> ''unknown'' | Some h \<Rightarrow> h))
      | None \<Rightarrow>
          (case header ''x-real-ip'' of Some r \<Rightarrow> if r \<noteq> [] then str_strip r else
             (case peer of None \<Rightarrow> ''unknown'' | Some h \<Rightarrow> h)
           | None \<Rightarrow> (case peer of None \<Rightarrow> ''unknown'' | Some h \<Rightarrow> h)))"

text \<open>The credentials are the scheme and the token of the Authorization header.\<close>

definition token_claims :: "secrets \<Rightarrow> int \<Rightarrow> (string \<times> string) option \<Rightarrow> exn + pydict" where
  "token_claims se now credentials =
     (case credentials of
        None \<Rightarrow> Inl (http_exception 401 ''Missing bearer token'')
      | Some (scheme, token) \<Rightarrow>
          if str_lower scheme \<noteq> ''bearer'' then Inl (http_exception 401 ''Missing bearer token'')
          else (case sc_decode se now token of
              ExpiredSignature \<Rightarrow> Inl (http_exception 401 ''Token expired'')
            | InvalidToken \<Rightarrow> Inl (http_exception 401 ''Invalid token'')
            | Claims c \<Rightarrow> Inr c))"

definition claimed_user :: "secrets \<Rightarrow> pydict \<Rightarrow> exn + string" where
  "claimed_user se claims =
     (if dget claims ''type'' \<noteq> PStr ''access'' then Inl (http_exception 401 ''Invalid token type'')
      else (case sc_uuid se (dget claims ''sub'') of
          Inl e \<Rightarrow> if exn_name e \<in> {''TypeError'', ''ValueError''}
            then Inl (http_exception 401 ''Invalid token subject'') else Inl e
        | Inr i \<Rightarrow> Inr i))"

definition get_current_user_allow_unverified ::
  "'w account_env \<Rightarrow> (string \<times> string) option \<Rightarrow> ('w, user) act" where
  "get_current_user_allow_unverified env credentials =
     bindA (readA (aw_now env)) (\<lambda>now.
     bindA (liftR (bindR (token_claims (aw_secrets env) now credentials)
         (claimed_user (aw_secrets env)))) (\<lambda>i.
     bindA (readA (\<lambda>w. find_user (aw_tables env w) i)) (\<lambda>found.
       case found of
         None \<Rightarrow> raiseA (http_exception 401 ''User not found or inactive'')
       | Some u \<Rightarrow> if usr_active u then returnA u
           else raiseA (http_exception 401 ''User not found or inactive''))))"

definition get_current_user :: "'w account_env \<Rightarrow> (string \<times> string) option \<Rightarrow> ('w, user) act" where
  "get_current_user env credentials =
     bindA (get_current_user_allow_unverified env credentials) (\<lambda>u.
       if st_verification_required (aw_settings env) \<and> \<not> usr_verified u
       then raiseA (http_exception 403 ''email_not_verified'')
       else bindA (bind_request_user (aw_usage env) (usr_id u)) (\<lambda>_. returnA u))"

definition require_permission ::
  "'w account_env \<Rightarrow> string \<Rightarrow> (string \<times> string) option \<Rightarrow> ('w, user) act" where
  "require_permission env permission credentials =
     bindA (get_current_user env credentials) (\<lambda>u.
     bindA (readA (\<lambda>w. has_permission u permission (aw_tables env w))) (\<lambda>granted.
       if granted then returnA u else raiseA (http_exception 403 ''Insufficient permissions'')))"

text \<open>The user of a socket's token; \<open>sc_uuid\<close> is called inside the same clauses.\<close>

definition user_id_from_ws_token :: "secrets \<Rightarrow> int \<Rightarrow> string option \<Rightarrow> exn + string option" where
  "user_id_from_ws_token se now token =
     (case token of
        None \<Rightarrow> Inr None
      | Some t \<Rightarrow>
          if t = [] then Inr None
          else (case sc_decode se now t of
              Claims c \<Rightarrow>
                if \<not> truthy (dget c ''sub'') then Inr None
                else (case sc_uuid se (dget c ''sub'') of
                    Inl e \<Rightarrow> if exn_name e \<in> {''TypeError'', ''ValueError''} then Inr None else Inl e
                  | Inr i \<Rightarrow> Inr (Some i))
            | _ \<Rightarrow> Inr None))"

section \<open>What a client reads\<close>

record user_read =
  ud_id :: string
  ud_email :: string
  ud_role :: string
  ud_active :: bool
  ud_verified :: bool
  ud_created :: int

definition read_user :: "user \<Rightarrow> user_read" where
  "read_user u = \<lparr>ud_id = usr_id u, ud_email = usr_email u, ud_role = usr_role u,
     ud_active = usr_active u, ud_verified = usr_verified u, ud_created = usr_created u\<rparr>"

record token_response =
  tr_access :: string
  tr_type :: string
  tr_expires_in :: int
  tr_refresh :: "string option"
  tr_user :: user_read

definition token_response_of :: "issued_tokens \<Rightarrow> token_response" where
  "token_response_of t = \<lparr>tr_access = it_access t, tr_type = ''bearer'',
     tr_expires_in = it_access_expires_in t, tr_refresh = Some (it_refresh t),
     tr_user = read_user (it_user t)\<rparr>"

text \<open>The cookie of a response: the token and its age.\<close>

definition refresh_cookie :: "auth_settings \<Rightarrow> issued_tokens \<Rightarrow> string \<times> int" where
  "refresh_cookie st t = (it_refresh t, st_refresh_days st * 24 * 60 * 60)"

definition valid_register :: "string \<Rightarrow> bool" where
  "valid_register password \<longleftrightarrow> 8 \<le> length password \<and> length password \<le> 128"

definition valid_login :: "string \<Rightarrow> bool" where
  "valid_login password \<longleftrightarrow> 1 \<le> length password \<and> length password \<le> 128"

definition valid_role :: "string \<Rightarrow> bool" where
  "valid_role role \<longleftrightarrow> 1 \<le> length role \<and> length role \<le> 64"

definition valid_code :: "string \<Rightarrow> bool" where
  "valid_code code \<longleftrightarrow> 4 \<le> length code \<and> length code \<le> 12"

section \<open>The endpoints\<close>

definition primary_language :: "string option \<Rightarrow> string option" where
  "primary_language accept =
     (case accept of
        None \<Rightarrow> None
      | Some a \<Rightarrow>
          if a = [] then None
          else let first = str_strip (hd (split_on (CHR '','') a));
                   code = str_lower (str_strip (hd (split_on (CHR ''-'') (hd (split_on (CHR '';'') first)))))
               in if code = [] then None else Some code)"

definition dispatch_verification_email ::
  "'w account_env \<Rightarrow> string option \<Rightarrow> user \<Rightarrow> ('w, unit) act" where
  "dispatch_verification_email env accept u =
     (if \<not> st_verification_required (aw_settings env) then returnA ()
      else case aw_mailer env of
        None \<Rightarrow> returnA ()
      | Some send \<Rightarrow>
          bindA (drawn env) (\<lambda>new_id.
          bindA (stepA (\<lambda>w. let (n, w') = aw_number env (10 ^ 6) w in (Inr n, w'))) (\<lambda>n.
          bindA (on_tables env (\<lambda>now.
              create_verification_code (aw_secrets env) (aw_settings env) now new_id n u)) (\<lambda>raw.
            send (usr_email u) raw (primary_language accept)))))"

definition new_tokens :: "'w account_env \<Rightarrow> user \<Rightarrow> ('w, issued_tokens) act" where
  "new_tokens env u =
     bindA (drawn env) (\<lambda>raw. bindA (drawn env) (\<lambda>jti.
       on_tables env (\<lambda>now. issue_tokens (aw_secrets env) (aw_settings env) now raw jti u)))"

definition register_endpoint ::
  "'w account_env \<Rightarrow> string option \<Rightarrow> string \<Rightarrow> string \<Rightarrow> ('w, token_response \<times> string \<times> int) act" where
  "register_endpoint env accept email password =
     bindA (drawn env) (\<lambda>salt. bindA (drawn env) (\<lambda>new_id.
     bindA (on_tables env (\<lambda>now. register_user (aw_secrets env) salt new_id now email password)) (\<lambda>u.
     bindA (new_tokens env u) (\<lambda>t.
     bindA (dispatch_verification_email env accept u) (\<lambda>_.
       returnA (token_response_of t, refresh_cookie (aw_settings env) t))))))"

definition throttled :: "'w account_env \<Rightarrow> string \<Rightarrow> int \<Rightarrow> int \<Rightarrow> string \<Rightarrow> ('w, unit) act" where
  "throttled env key limit window detail =
     bindA (check_rate_limit (aw_counters env) key limit window) (\<lambda>rate.
       if rl_allowed rate then returnA () else raiseA (http_exception 429 detail))"

definition login_endpoint ::
  "'w account_env \<Rightarrow> string \<Rightarrow> string \<Rightarrow> string \<Rightarrow> ('w, token_response \<times> string \<times> int) act" where
  "login_endpoint env ip email password =
     bindA (throttled env (''rl:login:'' @ ip) (st_login_attempts (aw_settings env))
         (st_login_window (aw_settings env)) ''Too many login attempts. Please try again later.'') (\<lambda>_.
     bindA (readA (\<lambda>w. authenticate_user (aw_secrets env) email password (aw_tables env w))) (\<lambda>found.
       case found of
         None \<Rightarrow> raiseA (http_exception 401 ''Invalid email or password'')
       | Some u \<Rightarrow>
           bindA (reset_rate_limit (aw_counters env) (''rl:login:'' @ ip)) (\<lambda>_.
           bindA (new_tokens env u) (\<lambda>t.
             returnA (token_response_of t, refresh_cookie (aw_settings env) t)))))"

text \<open>The token of the body, or that of the cookie.\<close>

definition presented_token :: "string option \<Rightarrow> string option \<Rightarrow> string option" where
  "presented_token body cookie =
     (case body of
        Some b \<Rightarrow> if b \<noteq> [] then Some b else (case cookie of Some c \<Rightarrow> if c = [] then None else Some c | None \<Rightarrow> None)
      | None \<Rightarrow> (case cookie of Some c \<Rightarrow> if c = [] then None else Some c | None \<Rightarrow> None))"

definition refresh_endpoint ::
  "'w account_env \<Rightarrow> string option \<Rightarrow> string option \<Rightarrow> ('w, token_response \<times> string \<times> int) act" where
  "refresh_endpoint env body cookie =
     (case presented_token body cookie of
        None \<Rightarrow> raiseA (http_exception 401 ''Missing refresh token'')
      | Some raw \<Rightarrow>
          bindA (drawn env) (\<lambda>new_raw. bindA (drawn env) (\<lambda>jti.
          bindA (on_tables env (\<lambda>now. rotate_refresh_token (aw_secrets env) (aw_settings env) now new_raw jti raw))
            (\<lambda>t. returnA (token_response_of t, refresh_cookie (aw_settings env) t)))))"

definition logout_endpoint :: "'w account_env \<Rightarrow> string option \<Rightarrow> string option \<Rightarrow> ('w, string) act" where
  "logout_endpoint env body cookie =
     bindA (case presented_token body cookie of
         None \<Rightarrow> returnA ()
       | Some raw \<Rightarrow> on_tables env (\<lambda>_ db. (Inr (), revoke_refresh_token (aw_secrets env) raw db))) (\<lambda>_.
       returnA ''Logged out'')"

definition me_endpoint :: "'w account_env \<Rightarrow> (string \<times> string) option \<Rightarrow> ('w, user_read) act" where
  "me_endpoint env credentials =
     bindA (get_current_user_allow_unverified env credentials) (\<lambda>u. returnA (read_user u))"

definition verification_reason :: "verification \<Rightarrow> string" where
  "verification_reason v = (case v of Verified \<Rightarrow> ''verified'' | AlreadyVerified \<Rightarrow> ''already_verified''
     | Invalid \<Rightarrow> ''invalid'' | Expired \<Rightarrow> ''expired'' | TooManyAttempts \<Rightarrow> ''too_many_attempts''
     | NoCode \<Rightarrow> ''no_code'')"

definition verify_error_status :: "verification \<Rightarrow> nat" where
  "verify_error_status v = (if v = TooManyAttempts then 429 else 400)"

text \<open>The row of the user is the one the request has loaded, as the transaction leaves it.\<close>

definition verify_email_endpoint ::
  "'w account_env \<Rightarrow> (string \<times> string) option \<Rightarrow> string \<Rightarrow> ('w, user_read) act" where
  "verify_email_endpoint env credentials code =
     bindA (get_current_user_allow_unverified env credentials) (\<lambda>u.
     bindA (throttled env (''rl:verify-email:'' @ usr_id u) 15 600
         ''Too many attempts. Please wait and request a new code.'') (\<lambda>_.
     bindA (on_tables env (\<lambda>now db.
         let (v, db') = verify_code (aw_secrets env) (aw_settings env) now u code db in (Inr v, db'))) (\<lambda>v.
       if v \<noteq> Verified \<and> v \<noteq> AlreadyVerified
       then raiseA (http_exception (verify_error_status v) (verification_reason v))
       else returnA (read_user (u\<lparr>usr_verified := True\<rparr>)))))"

definition resend_endpoint ::
  "'w account_env \<Rightarrow> (string \<times> string) option \<Rightarrow> string option \<Rightarrow> ('w, string) act" where
  "resend_endpoint env credentials accept =
     bindA (get_current_user_allow_unverified env credentials) (\<lambda>u.
       if usr_verified u then returnA ''Already verified''
       else bindA (throttled env (''rl:verify-resend:'' @ usr_id u) 4 600
             ''Too many requests. Please wait before resending.'') (\<lambda>_.
           bindA (dispatch_verification_email env accept u) (\<lambda>_. returnA ''Verification email sent'')))"

definition list_users_endpoint :: "'w account_env \<Rightarrow> (string \<times> string) option \<Rightarrow> ('w, user_read list) act" where
  "list_users_endpoint env credentials =
     bindA (require_permission env ''users:manage'' credentials) (\<lambda>_.
       readA (\<lambda>w. map read_user (sort_key usr_created (ad_users (aw_tables env w)))))"

definition update_role_endpoint ::
  "'w account_env \<Rightarrow> (string \<times> string) option \<Rightarrow> string \<Rightarrow> string \<Rightarrow> ('w, user_read) act" where
  "update_role_endpoint env credentials i role =
     bindA (require_permission env ''users:manage'' credentials) (\<lambda>_.
     bindA (attemptA (\<lambda>e. exn_name e = ''UserNotFound'') (on_tables env (\<lambda>_. assign_role i role))) (\<lambda>r.
       case r of Inl _ \<Rightarrow> raiseA (http_exception 404 ''user not found'') | Inr u \<Rightarrow> returnA (read_user u)))"

section \<open>Requests are transactions\<close>

datatype account_request =
    Register "string option" string string
  | Login string string string
  | Refresh "string option" "string option"
  | Logout "string option" "string option"
  | Me "(string \<times> string) option"
  | VerifyEmail "(string \<times> string) option" string
  | ResendVerification "(string \<times> string) option" "string option"
  | ListUsers "(string \<times> string) option"
  | UpdateRole "(string \<times> string) option" string string

definition reply_sent :: "('w, 'a) act \<Rightarrow> ('w, unit) act" where
  "reply_sent m = bindA m (\<lambda>_. returnA ())"

fun account_response :: "'w account_env \<Rightarrow> account_request \<Rightarrow> ('w, unit) act" where
  "account_response env (Register accept email password) =
     reply_sent (register_endpoint env accept email password)"
| "account_response env (Login ip email password) = reply_sent (login_endpoint env ip email password)"
| "account_response env (Refresh body cookie) = reply_sent (refresh_endpoint env body cookie)"
| "account_response env (Logout body cookie) = reply_sent (logout_endpoint env body cookie)"
| "account_response env (Me credentials) = reply_sent (me_endpoint env credentials)"
| "account_response env (VerifyEmail credentials code) = reply_sent (verify_email_endpoint env credentials code)"
| "account_response env (ResendVerification credentials accept) = reply_sent (resend_endpoint env credentials accept)"
| "account_response env (ListUsers credentials) = reply_sent (list_users_endpoint env credentials)"
| "account_response env (UpdateRole credentials i role) = reply_sent (update_role_endpoint env credentials i role)"

text \<open>Every transaction but an assignment leaves the roles of the accounts there are alone.\<close>

definition same_roles :: "auth_db \<Rightarrow> auth_db \<Rightarrow> bool" where
  "same_roles db db' \<longleftrightarrow> (\<forall>i \<in> usr_id ` set (ad_users db).
     map_option usr_role (find_user db' i) = map_option usr_role (find_user db i))"

definition role_step :: "secrets \<Rightarrow> auth_settings \<Rightarrow> auth_db \<Rightarrow> auth_db \<Rightarrow> bool" where
  "role_step se st db db' \<longleftrightarrow> auth_step se st db db' \<and> same_roles db db'"

lemma same_users: "ad_users db' = ad_users db \<Longrightarrow> same_roles db db'"
  by (simp add: same_roles_def find_user_def)

lemma find_user_map:
  assumes "\<And>u. usr_id (f u) = usr_id u"
  shows "find_user (db\<lparr>ad_users := map f (ad_users db)\<rparr>) i = map_option f (find_user db i)"
proof -
  have "List.find (\<lambda>u. usr_id u = i) (map f us) = map_option f (List.find (\<lambda>u. usr_id u = i) us)" for us
    by (induction us) (simp_all add: assms)
  then show ?thesis by (simp add: find_user_def)
qed

lemma rotate_users: "ad_users (snd (rotate_refresh_token se st now new_raw jti raw db)) = ad_users db"
  using rotate_state [of se st now new_raw jti raw db]
  by (auto simp: revoke_all_user_tokens_def revoke_token_def issue_tokens_def Let_def)

lemma find_user_in: "find_user db i \<noteq> None \<longleftrightarrow> i \<in> usr_id ` set (ad_users db)"
  by (auto simp: find_user_def find_None_iff)

lemma same_roles_trans:
  assumes "same_roles a b" and "same_roles b c"
  shows "same_roles a c"
  unfolding same_roles_def
proof
  fix i
  assume i: "i \<in> usr_id ` set (ad_users a)"
  then have ab: "map_option usr_role (find_user b i) = map_option usr_role (find_user a i)"
    using assms(1) unfolding same_roles_def by blast
  then have "find_user b i \<noteq> None" using i find_user_in [of a i] by (cases "find_user a i") auto
  then show "map_option usr_role (find_user c i) = map_option usr_role (find_user a i)"
    using ab assms(2) find_user_in [of b i] unfolding same_roles_def by metis
qed

lemma role_steps:
  shows role_registered: "role_step se st db (snd (register_user se salt new_id now email password db))"
    and role_issued: "role_step se st db (snd (issue_tokens se st now new_raw jti u db))"
    and role_rotated: "role_step se st db (snd (rotate_refresh_token se st now new_raw jti raw db))"
    and role_revoked: "role_step se st db (revoke_refresh_token se raw db)"
    and role_minted: "role_step se st db (snd (create_verification_code se st now new_id n u db))"
    and role_guessed: "role_step se st db (snd (verify_code se st now u raw db))"
proof -
  show "role_step se st db (snd (register_user se salt new_id now email password db))"
    unfolding role_step_def
    by (intro conjI auth_step.registered)
       (auto simp: register_user_def add_user_def same_roles_def find_user_def find_append find_None_iff
         split: option.split)
  have users: "ad_users (snd (issue_tokens se st now new_raw jti u db)) = ad_users db"
    "ad_users (revoke_refresh_token se raw db) = ad_users db"
    "ad_users (snd (create_verification_code se st now new_id n u db)) = ad_users db"
    by (simp_all add: issue_tokens_def revoke_refresh_token_def revoke_token_def
        create_verification_code_def Let_def split: option.split)
  show "role_step se st db (snd (issue_tokens se st now new_raw jti u db))"
    "role_step se st db (snd (rotate_refresh_token se st now new_raw jti raw db))"
    "role_step se st db (revoke_refresh_token se raw db)"
    "role_step se st db (snd (create_verification_code se st now new_id n u db))"
    by (simp_all add: role_step_def same_users users rotate_users auth_step.intros)
  have "same_roles d (mark_verified t k d)" for t k d
  proof -
    have "map_option usr_role (find_user (mark_verified t k d) i) = map_option usr_role (find_user d i)" for i
      unfolding mark_verified_def by (subst find_user_map) (auto simp: option.map_comp comp_def intro: option.map_cong0)
    then show ?thesis by (simp add: same_roles_def)
  qed
  then have "same_roles db (mark_verified t k (put_attempt c x db))" for t k c x
    by (simp add: same_roles_def put_attempt_def find_user_def)
  then show "role_step se st db (snd (verify_code se st now u raw db))"
    unfolding role_step_def
    by (intro conjI auth_step.guessed)
       (auto simp: verify_code_def guess_code_def same_users put_attempt_def
         split: option.split)
qed

locale account_host =
  fixes env :: "'w account_env"
  assumes put: "aw_tables env (aw_put env db w) = db"
    and draws: "aw_tables env (snd (aw_draw env w)) = aw_tables env w"
      "aw_tables env (snd (aw_number env n w)) = aw_tables env w"
    and counts: "aw_tables env (snd (ct_incr (aw_counters env) k w)) = aw_tables env w"
      "aw_tables env (ct_expire (aw_counters env) k t w) = aw_tables env w"
      "aw_tables env (ct_delete (aw_counters env) k w) = aw_tables env w"
    and attribution: "aw_tables env (us_set_attribution (aw_usage env) who w) = aw_tables env w"
    and mail: "aw_mailer env = Some send \<Longrightarrow> keeps (aw_tables env) (send to raw lang)"
begin

text \<open>What an action does to the tables is a sequence of transactions.\<close>

definition transacts :: "(auth_db \<Rightarrow> auth_db \<Rightarrow> bool) \<Rightarrow> ('w, 'a) act \<Rightarrow> bool" where
  "transacts S m \<longleftrightarrow> (\<forall>w r w'. m w = Some (r, w') \<longrightarrow> S\<^sup>*\<^sup>* (aw_tables env w) (aw_tables env w'))"

lemma transacts_keeps: "keeps (aw_tables env) m \<Longrightarrow> transacts S m"
  by (auto simp: transacts_def dest: keepsD)

lemma transacts_bind:
  assumes "transacts S m" and "\<And>x. transacts S (f x)"
  shows "transacts S (bindA m f)"
  using assms unfolding transacts_def bindA_Some by (fastforce intro: rtranclp_trans)

lemma transacts_on:
  assumes "\<And>now db. S db (snd (f now db))"
  shows "transacts S (on_tables env f)"
  using assms by (auto simp: transacts_def on_tables_def stepA_def put case_prod_beta)

lemma keeps_current: "keeps (aw_tables env) (get_current_user_allow_unverified env credentials)"
  by (auto simp: get_current_user_allow_unverified_def intro!: keeps_intros split: option.split)

lemma transacts_current: "transacts S (get_current_user_allow_unverified env credentials)"
  by (rule transacts_keeps [OF keeps_current])

lemma keeps_permission: "keeps (aw_tables env) (require_permission env p credentials)"
  by (auto simp: require_permission_def get_current_user_def bind_request_user_def keeps_current
       attribution intro!: keeps_intros keeps_write)

lemma transacts_permission: "transacts S (require_permission env p credentials)"
  by (rule transacts_keeps [OF keeps_permission])

lemma transacts_drawn: "transacts S (drawn env)"
  by (rule transacts_keeps) (auto simp: drawn_def case_prod_beta draws intro!: keeps_step)

lemma transacts_number: "transacts S (stepA (\<lambda>w. case aw_number env m w of (n, w') \<Rightarrow> (Inr n, w')))"
  by (rule transacts_keeps) (auto simp: case_prod_beta draws intro!: keeps_step)

lemma transacts_throttled: "transacts S (throttled env k limit window detail)"
  unfolding throttled_def
  by (intro transacts_keeps keeps_bind keeps_rate_limit) (auto simp: counts intro: keeps_intros)

lemma transacts_reset: "transacts S (reset_rate_limit (aw_counters env) k)"
  by (rule transacts_keeps) (simp add: reset_rate_limit_def keeps_write counts)

lemma transacts_pure: "transacts S (returnA x)" "transacts S (raiseA e)" "transacts S (readA f)"
  by (simp_all add: transacts_keeps keeps_intros)

lemma transacts_mail: "aw_mailer env = Some send \<Longrightarrow> transacts S (send to raw lang)"
  by (rule transacts_keeps [OF mail])

lemmas transacts_intros = transacts_bind transacts_current transacts_permission transacts_drawn
  transacts_number transacts_throttled transacts_reset transacts_pure

lemma transacts_dispatch: "transacts (role_step (aw_secrets env) (aw_settings env)) (dispatch_verification_email env accept u)"
  unfolding dispatch_verification_email_def
  by (auto intro!: transacts_intros transacts_on role_minted intro: transacts_mail split: option.split)

lemma transacts_tokens: "transacts (role_step (aw_secrets env) (aw_settings env)) (new_tokens env u)"
  unfolding new_tokens_def by (intro transacts_intros transacts_on role_issued)

lemma transacts_register: "transacts (role_step (aw_secrets env) (aw_settings env)) (register_endpoint env accept email password)"
  unfolding register_endpoint_def
  by (intro transacts_intros transacts_tokens transacts_dispatch transacts_on role_registered)

lemma transacts_login: "transacts (role_step (aw_secrets env) (aw_settings env)) (login_endpoint env ip email password)"
  unfolding login_endpoint_def by (auto intro!: transacts_intros transacts_tokens split: option.split)

lemma transacts_refresh: "transacts (role_step (aw_secrets env) (aw_settings env)) (refresh_endpoint env body cookie)"
  unfolding refresh_endpoint_def
  by (auto intro!: transacts_intros transacts_on role_rotated split: option.split)

lemma transacts_logout: "transacts (role_step (aw_secrets env) (aw_settings env)) (logout_endpoint env body cookie)"
  unfolding logout_endpoint_def
  by (auto intro!: transacts_intros transacts_on role_revoked split: option.split)

lemma transacts_verify: "transacts (role_step (aw_secrets env) (aw_settings env)) (verify_email_endpoint env credentials code)"
proof -
  have "role_step (aw_secrets env) (aw_settings env) db (snd (let (v, db') =
      verify_code (aw_secrets env) (aw_settings env) now u code db in (Inr v, db')))" for now u db
    using role_guessed [of "aw_secrets env" "aw_settings env" db now u code] by (simp add: case_prod_beta)
  then show ?thesis
    unfolding verify_email_endpoint_def by (auto intro!: transacts_intros transacts_on)
qed

lemma transacts_resend: "transacts (role_step (aw_secrets env) (aw_settings env)) (resend_endpoint env credentials accept)"
  unfolding resend_endpoint_def by (auto intro!: transacts_intros transacts_dispatch)

lemma transacts_users: "transacts S (list_users_endpoint env credentials)"
  unfolding list_users_endpoint_def by (intro transacts_intros)

lemma transacts_attempt: "transacts S m \<Longrightarrow> transacts S (attemptA P m)"
  by (auto simp: transacts_def attemptA_def try_allA_def bindA_def returnA_def raiseA_def
      split: option.splits sum.splits if_splits)

lemma transacts_role: "transacts (auth_step (aw_secrets env) (aw_settings env)) (update_role_endpoint env credentials i role)"
  unfolding update_role_endpoint_def
  by (auto intro!: transacts_intros transacts_attempt transacts_on auth_step.assigned split: sum.split)

lemma transacts_other:
  assumes "\<And>credentials i role. req \<noteq> UpdateRole credentials i role"
  shows "transacts (role_step (aw_secrets env) (aw_settings env)) (account_response env req)"
proof (cases req)
  case (UpdateRole credentials i role)
  then show ?thesis using assms by blast
qed (simp_all add: reply_sent_def me_endpoint_def transacts_intros transacts_register transacts_login
    transacts_refresh transacts_logout transacts_verify transacts_resend transacts_users)

lemma transacts_weaken:
  assumes "transacts S m" and "S \<le> S'"
  shows "transacts S' m"
  using assms(1) rtranclp_mono [OF assms(2)] unfolding transacts_def by blast

lemma transacts_response: "transacts (auth_step (aw_secrets env) (aw_settings env)) (account_response env req)"
proof (cases "\<exists>credentials i role. req = UpdateRole credentials i role")
  case True
  then show ?thesis by (auto simp: reply_sent_def transacts_pure intro!: transacts_bind transacts_role)
next
  case False
  then show ?thesis by (intro transacts_weaken [OF transacts_other]) (auto simp: role_step_def)
qed

text \<open>A role changes for those who may manage users.\<close>

lemma other_roles:
  assumes "\<And>credentials i role. req \<noteq> UpdateRole credentials i role"
    and "account_response env req w = Some (r, w')"
  shows "same_roles (aw_tables env w) (aw_tables env w')"
proof -
  have "(role_step (aw_secrets env) (aw_settings env))\<^sup>*\<^sup>* (aw_tables env w) (aw_tables env w')"
    using transacts_other [OF assms(1)] assms(2) unfolding transacts_def by blast
  then show ?thesis
    by (induction rule: rtranclp_induct)
       (auto simp: role_step_def same_users intro: same_roles_trans)
qed

lemma role_changed:
  assumes "account_response env (UpdateRole credentials i role) w = Some (r, w')"
    and "aw_tables env w' \<noteq> aw_tables env w"
  obtains m w1 where "require_permission env ''users:manage'' credentials w = Some (Inr m, w1)"
    and "aw_tables env w' = snd (assign_role i role (aw_tables env w))"
proof -
  obtain q w1 where q: "require_permission env ''users:manage'' credentials w = Some (q, w1)"
    using assms(1) by (auto simp: reply_sent_def update_role_endpoint_def bindA_def split: option.splits)
  have same: "aw_tables env w1 = aw_tables env w"
    using keepsD [OF keeps_permission q] by simp
  show ?thesis
  proof (cases q)
    case (Inl e)
    then show ?thesis using q assms same by (simp add: reply_sent_def update_role_endpoint_def bindA_def)
  next
    case (Inr m)
    have "aw_tables env w' = snd (assign_role i role (aw_tables env w1))"
      using assms(1) q Inr
      by (auto simp: reply_sent_def update_role_endpoint_def bindA_def attemptA_def try_allA_def on_tables_def
          stepA_def returnA_def raiseA_def put case_prod_beta split: sum.splits if_splits)
    then show ?thesis using that q Inr same by simp
  qed
qed

end

section \<open>What a request may do\<close>


definition admitted :: "'w account_env \<Rightarrow> string \<Rightarrow> (string \<times> string) option \<Rightarrow> 'w \<Rightarrow> user \<Rightarrow> bool" where
  "admitted env permission credentials w u \<longleftrightarrow>
     (case credentials of
        None \<Rightarrow> False
      | Some (scheme, token) \<Rightarrow>
          str_lower scheme = ''bearer'' \<and>
          (case sc_decode (aw_secrets env) (aw_now env w) token of
             Claims c \<Rightarrow> dget c ''type'' = PStr ''access'' \<and>
               (case sc_uuid (aw_secrets env) (dget c ''sub'') of
                  Inr i \<Rightarrow> find_user (aw_tables env w) i = Some u | Inl _ \<Rightarrow> False)
           | _ \<Rightarrow> False)) \<and>
     usr_active u \<and> (st_verification_required (aw_settings env) \<longrightarrow> usr_verified u) \<and>
     has_permission u permission (aw_tables env w)"

lemma current_user_run:
  "get_current_user_allow_unverified env credentials w =
     Some (bindR (bindR (token_claims (aw_secrets env) (aw_now env w) credentials)
         (claimed_user (aw_secrets env))) (\<lambda>i.
       case find_user (aw_tables env w) i of
         None \<Rightarrow> Inl (http_exception 401 ''User not found or inactive'')
       | Some u \<Rightarrow> if usr_active u then Inr u
           else Inl (http_exception 401 ''User not found or inactive'')), w)"
  by (auto simp: get_current_user_allow_unverified_def bindA_def readA_def liftR_def raiseA_def returnA_def
      bindR_def split: sum.splits option.splits)

lemma current_user_iff:
  "get_current_user_allow_unverified env credentials w = Some (Inr u, w) \<longleftrightarrow>
     (case credentials of
        None \<Rightarrow> False
      | Some (scheme, token) \<Rightarrow>
          str_lower scheme = ''bearer'' \<and>
          (case sc_decode (aw_secrets env) (aw_now env w) token of
             Claims c \<Rightarrow> dget c ''type'' = PStr ''access'' \<and>
               (case sc_uuid (aw_secrets env) (dget c ''sub'') of
                  Inr i \<Rightarrow> find_user (aw_tables env w) i = Some u | Inl _ \<Rightarrow> False)
           | _ \<Rightarrow> False)) \<and> usr_active u"
  unfolding current_user_run
  by (auto simp: token_claims_def claimed_user_def bindR_def
      split: option.splits sum.splits jwt_result.splits if_splits)

lemma bind_user_run:
  assumes "account_host env"
  obtains w1 where "bind_request_user (aw_usage env) i w = Some (Inr (), w1)"
    and "aw_tables env w1 = aw_tables env w"
proof (cases "at_user (us_attribution (aw_usage env) w) = None")
  case True
  then show thesis using that account_host.attribution [OF assms]
    by (simp add: bind_request_user_def bindA_def readA_def writeA_def)
next
  case False
  then show thesis
    by (intro that [of w]) (auto simp: bind_request_user_def bindA_def readA_def returnA_def)
qed

lemma permission_run:
  assumes "account_host env"
  shows "(\<exists>w'. require_permission env permission credentials w = Some (Inr u, w')) \<longleftrightarrow>
    get_current_user_allow_unverified env credentials w = Some (Inr u, w) \<and>
    (st_verification_required (aw_settings env) \<longrightarrow> usr_verified u) \<and>
    has_permission u permission (aw_tables env w)"
proof -
  obtain r where r: "get_current_user_allow_unverified env credentials w = Some (r, w)"
    unfolding current_user_run by blast
  show ?thesis
  proof (cases r)
    case (Inl e)
    then show ?thesis using r by (simp add: require_permission_def get_current_user_def bindA_def)
  next
    case (Inr v)
    obtain w1 where "bind_request_user (aw_usage env) (usr_id v) w = Some (Inr (), w1)"
        "aw_tables env w1 = aw_tables env w"
      by (rule bind_user_run [OF assms])
    then show ?thesis using r Inr
      by (auto simp: require_permission_def get_current_user_def bindA_def readA_def raiseA_def returnA_def)
  qed
qed

lemma permission_admitted:
  assumes "account_host env"
  shows "(\<exists>w'. require_permission env permission credentials w = Some (Inr u, w')) \<longleftrightarrow>
    admitted env permission credentials w u"
  unfolding permission_run [OF assms] current_user_iff admitted_def by auto

text \<open>
  C25 (functional). A protected endpoint lets exactly those in who present a valid access token of
  an account that is active, verified where that is required, and whose role has the permission.
\<close>

theorem permission_admits:
  assumes "account_host env"
  shows "(\<exists>w'. require_permission env permission credentials w = Some (Inr u, w')) \<longleftrightarrow>
    admitted env permission credentials w u"
  by (rule permission_admitted [OF assms])


section \<open>A manager at work\<close>

record account_world =
  ak_tables :: auth_db
  ak_tick :: nat
  ak_attribution :: attribution
  ak_mail :: "(string \<times> string) list"

definition ak_usage :: "account_world usage_env" where
  "ak_usage = \<lparr>us_rt = \<lparr>rt_getattr = (\<lambda>_ _. PNone), rt_float_str = (\<lambda>_. [])\<rparr>,
     us_numbers = \<lparr>nt_int = (\<lambda>_. None), nt_float = (\<lambda>_. None)\<rparr>, us_attribution = ak_attribution,
     us_set_attribution = (\<lambda>a w. w\<lparr>ak_attribution := a\<rparr>), us_add = (\<lambda>_. returnA ()),
     us_open = returnA (), us_commit = returnA (), us_close = returnA ()\<rparr>"

definition sample_account_env :: "account_world account_env" where
  "sample_account_env =
     \<lparr>aw_tables = ak_tables, aw_put = (\<lambda>db w. w\<lparr>ak_tables := db\<rparr>), aw_now = (\<lambda>_. 1),
      aw_draw = (\<lambda>w. (replicate (ak_tick w) (CHR ''k''), w\<lparr>ak_tick := Suc (ak_tick w)\<rparr>)),
      aw_number = (\<lambda>m w. (ak_tick w mod m, w\<lparr>ak_tick := Suc (ak_tick w)\<rparr>)),
      aw_secrets = sample_secrets, aw_settings = sample_settings,
      aw_counters = \<lparr>ct_incr = (\<lambda>_ w. (1, w)), ct_ttl = (\<lambda>_ _. 30), ct_expire = (\<lambda>_ _ w. w),
        ct_delete = (\<lambda>_ w. w)\<rparr>,
      aw_usage = ak_usage,
      aw_mailer = Some (\<lambda>to raw _. writeA (\<lambda>w. w\<lparr>ak_mail := ak_mail w @ [(to, raw)]\<rparr>))\<rparr>"

interpretation sample_account: account_host sample_account_env
  by unfold_locales (auto simp: sample_account_env_def ak_usage_def intro!: keeps_write)

definition managed :: account_world where
  "managed = \<lparr>ak_tables = seed_core_permissions (one_account\<lparr>ad_users :=
     [one_user, one_user\<lparr>usr_id := ''a1'', usr_email := ''root@b.c'', usr_role := ''admin'', usr_verified := True\<rparr>]\<rparr>),
     ak_tick = 0, ak_attribution = no_attribution, ak_mail = []\<rparr>"

definition promotion :: account_request where
  "promotion = UpdateRole (Some (''Bearer'', ''a1'')) ''u1'' ''admin''"

lemma sample_promoted:
  "case account_response sample_account_env promotion managed of
     Some (_, w) \<Rightarrow> map usr_role (ad_users (ak_tables w)) = [''admin'', ''admin''] \<and>
       map usr_id (ad_users (ak_tables w)) = [''u1'', ''a1'']
   | None \<Rightarrow> False"
  by code_simp

lemma managed_users: "map usr_role (ad_users (ak_tables managed)) = [''user'', ''admin'']"
    "map usr_id (ad_users (ak_tables managed)) = [''u1'', ''a1'']"
  by code_simp+


theorem permission_admits_witness:
  "\<exists>m w'. require_permission sample_account_env ''users:manage'' (Some (''Bearer'', ''a1'')) managed
     = Some (Inr m, w') \<and> usr_role m = ''admin''"
proof -
  have "case find_user (ak_tables managed) ''a1'' of
      Some m \<Rightarrow> admitted sample_account_env ''users:manage'' (Some (''Bearer'', ''a1'')) managed m \<and> usr_role m = ''admin''
    | None \<Rightarrow> False" by code_simp
  then obtain m where "admitted sample_account_env ''users:manage'' (Some (''Bearer'', ''a1'')) managed m"
      "usr_role m = ''admin''" by (auto split: option.splits)
  then show ?thesis using permission_admits [OF sample_account.account_host_axioms] by blast
qed


end
