(* ===== verification/Spec2Isabelle.thy ===== *)
theory Spec2Isabelle
  imports NodeExecutor AgentLoopSpec FlowService TurnLock ConnectorRegistry Pricing ChatTurnBounds LLMRouter
    AutoTitle Sessions
begin

text \<open>
  luna-core: the flow engine, its agents and the services they use.

  The program.  A flow is a graph of nodes kept as a definition (luna_core/schemas/flow.py,
  luna_core/services/flow.py).  A run of it is executed by the runner
  (luna_core/engine/runner.py), which builds a LangGraph state graph from the definition and
  streams its updates; every node is executed by the node executor (luna_core/engine/nodes.py):
  actions call operations or system tools, agent nodes call the agent loop
  (luna_core/engine/agent.py) once, until it yields, or once per record of a scratchpad
  collection.  Agents store records through the tools of luna_core/mcp/system_tools, which use
  the scratchpad in Redis (luna_core/services/scratchpad.py) and dedup checkers
  (luna_core/dedup).  Everything that happens is emitted as an event with a sequence number
  (luna_core/engine/emitter.py), from which the timeline of a run is read back
  (luna_core/services/flow.py).  A call of an agent that needs consent waits in the table of
  approvals (luna_core/services/tool_approval.py).  The operations that actions and agents call
  are HTTP requests of connectors (luna_core/connectors).  The same loop of agents answers the
  messages of a conversation (luna_core/engine/chat.py, luna_core/routers/conversations.py),
  one turn at a time under a lock in Redis (luna_core/services/turn_lock.py), and one agent may
  hand the conversation to another (luna_core/services/agent_routing.py).

  How it is modelled.  Python values are the datatype pyval of Prelude, with dictionaries as
  association lists in insertion order; unbounded integers are int.  An exception is a value of
  type exn in the left of a sum.  Code with effects is an action of type act: a function of a
  world that gives None when the code does not return, and otherwise a result and the next
  world.  The world is a parameter; what a component uses of databases, Redis, providers and
  clocks are the fields of an environment record (runner_env, node_env, agent_env, emitter_env,
  events_env,
  connector_env).  What the proofs assume of an environment is a locale (Redis.thy, run_services,
  gated_calls, emitter_host, connector_host and others) with an interpretation on a sample environment that
  runs the model.

  Theories, in the order of the imports:
  \<^item> Prelude: values, dictionaries, actions, rendering of values, preservation of a view of the
    world by an action (keeps).
  \<^item> TemplatePaths and Templates: the path language and the templates of node inputs.
    The tokenizer is a loop that may run for ever, a partial function; the theorems say exactly
    when it returns.
  \<^item> IterationConfig, Registries, Dedup: the configuration of iterations, the registries of
    system tools, checkers and context sources, and the binding of a checker to a node.
  \<^item> Redis: the key-value contract (store) and a keyspace that satisfies it.
  \<^item> Scratchpad and ScratchpadSpec: the collections and their abstraction to ordered maps.
  \<^item> StashRecords: the stash_records, list_scratchpad and yield tools with what their responses
    account for.
  \<^item> Actions, FlowSchema, FlowGraph, FlowRunner: definitions and their validation, the graph with
    its routers, and the execution of a run to completion, failure or pause.
  \<^item> NodeHistory, NodeAgents, ScratchpadLoop, NodeExecutor: message histories, agent nodes with
    their yield loop, the iteration over a collection (sequential and parallel) and the dispatch.
    Parallel iterations are a step relation over task states with the semaphore's bound.
  \<^item> ToolApproval: the table of approvals with one transaction per function.
  \<^item> AgentLoop and AgentLoopSpec: tools offered to an agent, the loop of completions and tool
    calls, suspension and resumption; histories sent to a provider are paired, gated calls wait.
    The loop has the source's own bound MAX_TOOL_ITERATIONS as fuel: running out of it is the
    error the source raises.
  \<^item> Emitter: allocation of sequence numbers with its bounded retry.  What other emitters do
    between reading and committing is the field em_others of the environment; the locale
    emitter_host says they only add rows under the same constraint.
  \<^item> RunEvents: the history of a run with the deltas rebuilt from messages and from the chunks
    of turns under way, and the frames a new subscriber gets.
  \<^item> FlowService: the tables of flows, runs, events and messages with the transactions on them and
    the invariant that holds after any sequence of them.
  \<^item> TurnLock: turns of conversations as the Redis commands they run, interleaved with the
    commands of other turns and with time; turns exclude each other as long as none outlives
    its lock, and what goes wrong when one does.
  \<^item> ConnectorRequest, ConnectorAuth, ConnectorRegistry: the request an operation makes of its
    input, credentials and the refresh of OAuth2 tokens, the registry of operations, and the
    loop of attempts with its two budgets.
  \<^item> SqlText: the pattern operator of the database, as an interface.
  \<^item> Usage and Pricing: the attribution of model calls, the ledger and what its rows cost, and the
    prices read from a published page.

  \<^item> Conversation and ConversationIO: the tables of conversations, and the turns on them: events
    and messages of a conversation, the compaction of its history, the loop of agents over it,
    its resumption, and sub-agents.
  \<^item> CompactionSpec and ChatSpec: the history a turn runs over after a compaction is the one a
    reload gives, and a turn leaves a history in which every tool call is answered or awaits
    approval.  chat_host says what a turn relies on: nothing else writes the conversation while
    it holds the lock, and the provider stores the reply it returns.
  \<^item> AgentRouting: the cards of the agents, the transfer tool and the classifier with the tolerant
    reading of its reply.
  \<^item> ChatTurn, ChatTurnSpec and ChatTurnBounds: the endpoints of a conversation (routers/conversations.py)
    from admission to response.  turn_host extends chat_host by the hooks of a host, which leave
    the messages alone; under it a message and a decision keep the history answered through every
    handoff.  turn_services says that every service returns; then a request does, after at most
    91 completions.

  \<^item> RateLimit: the fixed-window counters of Redis.
  \<^item> Accounts, AccountsSpec and Sessions: users, refresh tokens, verification codes, roles and
    permissions with the transactions on them (auth_step, any of them in any order); what a
    token and a code are good for; and the endpoints, each a sequence of these transactions
    (account_host says what they draw and count leaves the tables alone).  Two requests that read
    a row before either writes it are looked at apart, in AccountsSpec.
  \<^item> LLMProviders and LLMRouter: the table of configured providers with the envelope of their keys,
    the cache of built providers (a call uses the provider of its row as it is now, given a clock
    that goes on with every edit), the rate limit and the retries of a completion.  router_reach
    is the step relation of edits and calls; cipher, provider_host and router_services are the
    contracts of Fernet, of the cache and of what costs a call.
  \<^item> AutoTitle: the title of a conversation after its first turn; title_host says that the services
    it calls leave the tables of conversations alone.

  Bounds.  MAX_TOOL_ITERATIONS (16), EMIT_MAX_RETRIES (32), MAX_HANDOFF_HOPS (4) and the ceilings of iterations are the
  constants of the source; no other fuel is used.

  Not modelled: the vendor adapters under luna_core/llm/providers, FastAPI routers, websocket
  fan-out, object storage, media and voice, migrations and configuration.  LangGraph, pydantic,
  SQLAlchemy, Redis, jsonschema and croniter are third-party code: they are parameters or the
  contracts stated in the locales.
\<close>

end
